theory Spec2Isabelle
  imports Complex_Main
begin

section \<open>Python values shared by both backends\<close>

text \<open>
  Python floats are idealised as exact reals throughout: \<open>+\<close>, \<open>-\<close>, \<open>*\<close>, \<open>/\<close> are the
  exact operations, and \<open>round(x, 4)\<close> is rounding to four decimals with ties to the even
  neighbour. Python strings are lists of 8-bit characters.
\<close>

datatype py_error =
  ImportError string
| ModuleNotFoundError string
| KeyError string
| ValueError string
| NameError string
| SyntaxError string
| TypeError string
| ProviderError string

definition round_half_even :: "real \<Rightarrow> int" where
  "round_half_even x =
     (let f = \<lfloor>x\<rfloor>; d = x - of_int f
      in if d < 1 / 2 then f else if 1 / 2 < d then f + 1 else if even f then f else f + 1)"

definition py_round :: "real \<Rightarrow> nat \<Rightarrow> real" where
  "py_round x ndigits = of_int (round_half_even (x * 10 ^ ndigits)) / 10 ^ ndigits"

definition in_unit :: "real \<Rightarrow> bool" where
  "in_unit r = (0 \<le> r \<and> r \<le> 1)"

subsection \<open>String helpers: \<open>startswith\<close>, \<open>in\<close>, \<open>count\<close>, \<open>strip\<close>\<close>

definition startswith :: "string \<Rightarrow> string \<Rightarrow> bool" where
  "startswith s p = (take (length p) s = p)"

fun contains :: "string \<Rightarrow> string \<Rightarrow> bool" where
  "contains [] p = (p = [])"
| "contains (c # cs) p = (startswith (c # cs) p \<or> contains cs p)"

text \<open>\<open>s.count(p)\<close>: the number of non-overlapping occurrences, scanning from the left.\<close>

function (sequential) count_occ :: "string \<Rightarrow> string \<Rightarrow> nat" where
  "count_occ s [] = length s + 1"
| "count_occ [] p = 0"
| "count_occ (c # cs) p =
     (if startswith (c # cs) p then 1 + count_occ (drop (length p) (c # cs)) p
      else count_occ cs p)"
  by pat_completeness auto
termination
  by (relation "measure (\<lambda>(s, p). length s)") auto

definition py_isspace :: "char \<Rightarrow> bool" where
  "py_isspace c = (let n = of_char c :: nat in (9 \<le> n \<and> n \<le> 13) \<or> (28 \<le> n \<and> n \<le> 32))"

definition strip :: "string \<Rightarrow> string" where
  "strip s = rev (dropWhile py_isspace (rev (dropWhile py_isspace s)))"

section \<open>Rubric variant: the five algorithmic reward signals (reward\_signals.py)\<close>

record result =
  predicted :: real
  actual :: real

definition mae :: "result list \<Rightarrow> real" where
  "mae results =
     (if results = [] then 1
      else sum_list (map (\<lambda>r. \<bar>predicted r - actual r\<bar>) results) / real (length results))"

definition std :: "real list \<Rightarrow> real" where
  "std vals =
     (if length vals < 2 then 0
      else let mean = sum_list vals / real (length vals)
           in sqrt (sum_list (map (\<lambda>v. (v - mean)\<^sup>2) vals) / (real (length vals) - 1)))"

text \<open>The inner \<open>while\<close> of \<open>_rank\<close>: advance \<open>j\<close> over the run of entries equal to \<open>v\<close>.\<close>

function scan_ties :: "(nat \<times> real) list \<Rightarrow> real \<Rightarrow> nat \<Rightarrow> nat" where
  "scan_ties indexed v j =
     (if j < length indexed \<and> snd (indexed ! j) = v then scan_ties indexed v (j + 1) else j)"
  by pat_completeness auto
termination
  by (relation "measure (\<lambda>(indexed, v, j). length indexed - j)") auto

declare scan_ties.simps [simp del]

lemma scan_ties_ge: "j \<le> scan_ties indexed v j"
  by (induction indexed v j rule: scan_ties.induct) (subst scan_ties.simps, auto)

lemma scan_ties_gt: "i < length indexed \<Longrightarrow> i < scan_ties indexed (snd (indexed ! i)) i"
  using scan_ties_ge [of "i + 1" indexed "snd (indexed ! i)"]
  by (subst scan_ties.simps) auto

lemma scan_ties_le: "j \<le> length indexed \<Longrightarrow> scan_ties indexed v j \<le> length indexed"
  by (induction indexed v j rule: scan_ties.induct) (subst scan_ties.simps, auto)

function rank_loop :: "(nat \<times> real) list \<Rightarrow> nat \<Rightarrow> real list \<Rightarrow> real list" where
  "rank_loop indexed i ranks =
     (if i < length indexed then
        let j = scan_ties indexed (snd (indexed ! i)) i;
            avg_rank = (real i + real j + 1) / 2;
            ranks' = fold (\<lambda>k rs. rs[fst (indexed ! k) := avg_rank]) [i..<j] ranks
        in rank_loop indexed j ranks'
      else ranks)"
  by pat_completeness auto
termination
proof (relation "measure (\<lambda>(indexed, i, ranks). length indexed - i)")
  show "wf (measure (\<lambda>(indexed, i, ranks). length indexed - i))"
    by simp
next
  fix indexed :: "(nat \<times> real) list" and i :: nat and ranks :: "real list" and j :: nat
    and avg_rank :: real and ranks' :: "real list"
  assume "i < length indexed" and j: "j = scan_ties indexed (snd (indexed ! i)) i"
  then have "i < j"
    using scan_ties_gt by simp
  moreover have "j \<le> length indexed"
    using j \<open>i < length indexed\<close> scan_ties_le [of i indexed] by simp
  ultimately show "((indexed, j, ranks'), (indexed, i, ranks))
      \<in> measure (\<lambda>(indexed, i, ranks). length indexed - i)"
    using \<open>i < length indexed\<close> by simp
qed

declare rank_loop.simps [simp del]

definition rank :: "real list \<Rightarrow> real list" where
  "rank vals =
     rank_loop (sort_key snd (enumerate 0 vals)) 0 (replicate (length vals) 0)"

definition generalization_reward :: "result list \<Rightarrow> result list \<Rightarrow> real" where
  "generalization_reward train_results eval_results =
     (if train_results = [] \<or> eval_results = [] then 0
      else let train_mae = mae train_results;
               eval_mae = mae eval_results
           in if train_mae = 0 \<and> eval_mae = 0 then 1
              else let gap = max 0 (eval_mae - train_mae);
                       eval_accuracy = max 0 (1 - eval_mae);
                       gen_score = eval_accuracy * (1 - min gap 1)
                   in py_round (max 0 (min 1 gen_score)) 4)"

definition calibration_reward :: "result list \<Rightarrow> real" where
  "calibration_reward results =
     (if results = [] then 0
      else let actuals = map actual results;
               preds = map predicted results;
               actual_mean = sum_list actuals / real (length actuals);
               pred_mean = sum_list preds / real (length preds);
               mean_diff = \<bar>actual_mean - pred_mean\<bar>;
               actual_std = std actuals;
               pred_std = std preds;
               std_ratio = min pred_std actual_std / max (max pred_std actual_std) (1 / 1000000);
               calibration = (1 - min mean_diff 1) * (6 / 10) + std_ratio * (4 / 10)
           in py_round (max 0 (min 1 calibration)) 4)"

definition discrimination_reward :: "result list \<Rightarrow> real" where
  "discrimination_reward results =
     (if length results < 3 then 0
      else let n = real (length results);
               actuals = map actual results;
               preds = map predicted results;
               ranked_a = rank actuals;
               ranked_p = rank preds;
               d_sq = sum_list (map (\<lambda>(ra, rp). (ra - rp)\<^sup>2) (zip ranked_a ranked_p));
               rho = 1 - (6 * d_sq) / (n * (n * n - 1))
           in py_round (max 0 (min 1 ((rho + 1) / 2))) 4)"

definition logic_keywords :: "string list" where
  "logic_keywords = [''if '', ''for '', ''len('', ''re.'', ''split'', ''lower'', ''count'']"

definition validity_reward :: "string \<Rightarrow> bool \<Rightarrow> string \<Rightarrow> string \<Rightarrow> real" where
  "validity_reward rubric_code execution_success stdout stderr =
     (if \<not> execution_success then 0
      else let score0 = 6 / 10;
               score1 = (if contains rubric_code ''return 0'' \<and> count_occ rubric_code ''return'' = 1
                         then score0 - 3 / 10 else score0);
               score2 = (if contains rubric_code ''return 1'' \<and> count_occ rubric_code ''return'' = 1
                         then score1 - 3 / 10 else score1);
               logic_count = length (filter (contains rubric_code) logic_keywords);
               score3 = score2 + min (real logic_count * (5 / 100)) (3 / 10);
               score4 = (if contains rubric_code ''response'' \<or> contains rubric_code ''text''
                         then score3 + 1 / 10 else score3)
           in py_round (max 0 (min 1 score4)) 4)"

definition iteration_reward :: "real \<Rightarrow> real option \<Rightarrow> real" where
  "iteration_reward current_mae parent_mae =
     (case parent_mae of
        None \<Rightarrow> py_round (max 0 (min 1 (1 - current_mae))) 4
      | Some pm \<Rightarrow>
          if pm = 0 then (if current_mae = 0 then 1 else 0)
          else let improvement = (pm - current_mae) / pm
               in if 0 < improvement then py_round (min 1 (3 / 10 + improvement * (7 / 10))) 4
                  else py_round (max 0 (3 / 10 + improvement)) 4)"

record rewards =
  generalization :: real
  calibration :: real
  discrimination :: real
  validity :: real
  iteration :: real
  composite :: real

definition compute_rewards ::
  "string \<Rightarrow> result list \<Rightarrow> result list \<Rightarrow> bool \<Rightarrow> string \<Rightarrow> string \<Rightarrow> real option \<Rightarrow> rewards" where
  "compute_rewards rubric_code train_results eval_results execution_success stdout stderr parent_mae =
     (let train_mae = (if train_results \<noteq> [] then mae train_results else 1);
          g = generalization_reward train_results eval_results;
          c = calibration_reward train_results;
          d = discrimination_reward train_results;
          v = validity_reward rubric_code execution_success stdout stderr;
          i = iteration_reward train_mae parent_mae;
          total_w = 1 + 4 / 10 + 3 / 10 + 2 / 10 + 2 / 10;
          comp = (g * 1 + c * (4 / 10) + d * (3 / 10) + v * (2 / 10) + i * (2 / 10)) / total_w
      in \<lparr>generalization = g, calibration = c, discrimination = d, validity = v,
          iteration = i, composite = py_round comp 4\<rparr>)"

text \<open>
  The spec's words for the iteration signal, to be compared with \<open>iteration_reward\<close>:
  \<open>1 - current_mae\<close> without a parent MAE, otherwise
  \<open>0.3 + 0.7 * (parent_mae - current_mae) / parent_mae\<close>, clamped to the unit interval.
\<close>

definition iteration_spec :: "real \<Rightarrow> real option \<Rightarrow> real" where
  "iteration_spec current_mae parent_mae =
     (case parent_mae of
        None \<Rightarrow> max 0 (min 1 (1 - current_mae))
      | Some pm \<Rightarrow> max 0 (min 1 (3 / 10 + (7 / 10) * (pm - current_mae) / pm)))"

section \<open>Transcript variant: nodes and the LLM-as-judge (mcts\_engine.py, value\_network.py)\<close>

record ReasoningNode =
  node_id :: string
  content :: string
  node_type :: string
  parent_id :: "string option"
  children :: "string list"
  visits :: int
  total_value :: real
  depth :: int
  code :: string
  repl_stdout :: string
  repl_stderr :: string
  repl_vars :: "(string \<times> string) list"
  execution_ms :: real

definition avg_value :: "ReasoningNode \<Rightarrow> real" where
  "avg_value n = (if 0 < visits n then total_value n / real_of_int (visits n) else 0)"

record ReasoningNode_dict =
  d_id :: string
  d_content :: string
  d_node_type :: string
  d_parent_id :: "string option"
  d_children :: "string list"
  d_visits :: int
  d_total_value :: real
  d_avg_value :: real
  d_depth :: int
  d_code :: string
  d_repl_stdout :: string
  d_repl_stderr :: string
  d_repl_vars :: "(string \<times> string) list"
  d_execution_ms :: real

definition to_dict :: "ReasoningNode \<Rightarrow> ReasoningNode_dict" where
  "to_dict n =
     \<lparr>d_id = node_id n,
      d_content = take 300 (content n),
      d_node_type = node_type n,
      d_parent_id = parent_id n,
      d_children = children n,
      d_visits = visits n,
      d_total_value = py_round (total_value n) 4,
      d_avg_value = py_round (avg_value n) 4,
      d_depth = depth n,
      d_code = (if code n \<noteq> [] then take 500 (code n) else []),
      d_repl_stdout = (if repl_stdout n \<noteq> [] then take 300 (repl_stdout n) else []),
      d_repl_stderr = (if repl_stderr n \<noteq> [] then take 200 (repl_stderr n) else []),
      d_repl_vars = repl_vars n,
      d_execution_ms = execution_ms n\<rparr>"

definition tree_snapshot :: "(string \<rightharpoonup> ReasoningNode) \<Rightarrow> (string \<rightharpoonup> ReasoningNode_dict)" where
  "tree_snapshot nodes = (\<lambda>k. map_option to_dict (nodes k))"

definition within_caps :: "ReasoningNode_dict \<Rightarrow> bool" where
  "within_caps d =
     (length (d_content d) \<le> 300 \<and> length (d_code d) \<le> 500
      \<and> length (d_repl_stdout d) \<le> 300 \<and> length (d_repl_stderr d) \<le> 200)"

subsection \<open>\<open>_extract_score\<close>: first match of \<open>(\d+\.?\d*)\<close>, clamped\<close>

definition is_digit :: "char \<Rightarrow> bool" where
  "is_digit c = (let n = of_char c :: nat in 48 \<le> n \<and> n \<le> 57)"

definition digits_nat :: "string \<Rightarrow> nat" where
  "digits_nat ds = foldl (\<lambda>a c. 10 * a + (of_char c - 48)) 0 ds"

text \<open>
  The leftmost match of the pattern: the first digit of the text starts it, the digit run is
  taken whole, then a dot if one follows, then the digits after the dot.
\<close>

definition first_number :: "string \<Rightarrow> (string \<times> string) option" where
  "first_number s =
     (let rest = dropWhile (\<lambda>c. \<not> is_digit c) s
      in if rest = [] then None
         else let ip = takeWhile is_digit rest
              in case dropWhile is_digit rest of
                   [] \<Rightarrow> Some (ip, [])
                 | c # r3 \<Rightarrow> if c = CHR ''.'' then Some (ip, takeWhile is_digit r3) else Some (ip, []))"

definition py_float :: "string \<times> string \<Rightarrow> real" where
  "py_float m = real (digits_nat (fst m)) + real (digits_nat (snd m)) / 10 ^ length (snd m)"

definition extract_score :: "string \<Rightarrow> real" where
  "extract_score s =
     (case first_number (strip s) of
        Some m \<Rightarrow> max 0 (min 1 (py_float m))
      | None \<Rightarrow> 1 / 2)"

text \<open>
  \<open>evaluate_node\<close>: the judge model is a collaborator; \<open>judge\<close> maps the user message to
  the reply's content, or to the exception the call raised.
\<close>

definition node_desc :: "ReasoningNode \<Rightarrow> string" where
  "node_desc node =
     (if node_type node = ''answer'' then ''Final answer: '' @ content node
      else if node_type node = ''code'' then
        ''Code:'' @ [CHR 0x0A] @ take 500 (code node) @ [CHR 0x0A, CHR 0x0A] @ ''Output:''
          @ [CHR 0x0A] @ take 500 (repl_stdout node)
          @ (if repl_stderr node \<noteq> [] then [CHR 0x0A] @ ''Errors:'' @ [CHR 0x0A] @ take 200 (repl_stderr node)
             else [])
      else if node_type node = ''strategy'' then ''Strategy: '' @ content node
      else content node)"

definition evaluate_node ::
  "(string \<Rightarrow> py_error + string) \<Rightarrow> ReasoningNode \<Rightarrow> string \<Rightarrow> py_error + real" where
  "evaluate_node judge node question =
     (if node_type node = ''question'' then Inr (1 / 2)
      else case judge (''Question: '' @ question @ [CHR 0x0A, CHR 0x0A] @ ''Reasoning step:''
                        @ [CHR 0x0A] @ node_desc node @ [CHR 0x0A, CHR 0x0A] @ ''Score (0.0-1.0):'') of
             Inl e \<Rightarrow> Inl e
           | Inr reply \<Rightarrow> Inr (extract_score reply))"

section \<open>Rubric variant: nodes (rubric-discovery mcts\_engine.py)\<close>

record RubricNode =
  node_id_r :: string
  rubric_code :: string
  node_type_r :: string
  depth_r :: int
  visits_r :: int
  reward_generalization :: real
  reward_calibration :: real
  reward_discrimination :: real
  reward_validity :: real
  reward_iteration :: real
  reward_composite :: real
  train_results :: "result list"
  eval_results :: "result list"
  train_mae :: real
  eval_mae :: real
  stdout_r :: string
  stderr_r :: string
  execution_success :: bool
  parent_id_r :: "string option"
  children_ids :: "string list"
  total_reward :: real

record RubricNode_dict =
  dr_id :: string
  dr_rubric_code :: string
  dr_node_type :: string
  dr_depth :: int
  dr_visits :: int
  dr_reward_generalization :: real
  dr_reward_calibration :: real
  dr_reward_discrimination :: real
  dr_reward_validity :: real
  dr_reward_iteration :: real
  dr_reward_composite :: real
  dr_train_mae :: real
  dr_eval_mae :: real
  dr_stdout :: string
  dr_stderr :: string
  dr_execution_success :: bool
  dr_parent_id :: "string option"
  dr_children_ids :: "string list"
  dr_train_results :: "result list"
  dr_eval_results :: "result list"

definition to_dict_r :: "RubricNode \<Rightarrow> RubricNode_dict" where
  "to_dict_r n =
     \<lparr>dr_id = node_id_r n,
      dr_rubric_code = rubric_code n,
      dr_node_type = node_type_r n,
      dr_depth = depth_r n,
      dr_visits = visits_r n,
      dr_reward_generalization = reward_generalization n,
      dr_reward_calibration = reward_calibration n,
      dr_reward_discrimination = reward_discrimination n,
      dr_reward_validity = reward_validity n,
      dr_reward_iteration = reward_iteration n,
      dr_reward_composite = reward_composite n,
      dr_train_mae = train_mae n,
      dr_eval_mae = eval_mae n,
      dr_stdout = take 500 (stdout_r n),
      dr_stderr = take 500 (stderr_r n),
      dr_execution_success = execution_success n,
      dr_parent_id = parent_id_r n,
      dr_children_ids = children_ids n,
      dr_train_results = take 20 (train_results n),
      dr_eval_results = take 20 (eval_results n)\<rparr>"

text \<open>The default \<open>RubricNode(...)\<close> of the dataclass, with the given id.\<close>

definition RubricNode_default :: "string \<Rightarrow> RubricNode" where
  "RubricNode_default i =
     \<lparr>node_id_r = i, rubric_code = [], node_type_r = ''root'', depth_r = 0, visits_r = 0,
      reward_generalization = 0, reward_calibration = 0, reward_discrimination = 0,
      reward_validity = 0, reward_iteration = 0, reward_composite = 0,
      train_results = [], eval_results = [], train_mae = 1, eval_mae = 1,
      stdout_r = [], stderr_r = [], execution_success = False,
      parent_id_r = None, children_ids = [], total_reward = 0\<rparr>"

text \<open>The caps the spec states for snapshots, read on the rubric node's fields.\<close>

definition within_caps_r :: "RubricNode_dict \<Rightarrow> bool" where
  "within_caps_r d =
     (length (dr_rubric_code d) \<le> 500 \<and> length (dr_stdout d) \<le> 300 \<and> length (dr_stderr d) \<le> 200)"

section \<open>Transcript variant: UCB selection and back-propagation (mcts\_engine.py)\<close>

text \<open>
  A result of a method that may raise is \<open>py_error + 'a\<close>; a loop that may not return is a
  \<open>partial_function\<close> into \<open>option\<close>, with \<open>None\<close> for a run that never returns.
\<close>

definition bind_r ::
  "(py_error + 'a) option \<Rightarrow> ('a \<Rightarrow> (py_error + 'b) option) \<Rightarrow> (py_error + 'b) option" where
  "bind_r m f = (case m of None \<Rightarrow> None | Some (Inl e) \<Rightarrow> Some (Inl e) | Some (Inr x) \<Rightarrow> f x)"

datatype score = Finite real | Infinity

fun score_gt :: "score \<Rightarrow> score \<Rightarrow> bool" where
  "score_gt Infinity (Finite y) = True"
| "score_gt Infinity Infinity = False"
| "score_gt (Finite x) (Finite y) = (y < x)"
| "score_gt (Finite x) Infinity = False"

definition py_log :: "real \<Rightarrow> py_error + real" where
  "py_log x = (if x \<le> 0 then Inl (ValueError ''math domain error'') else Inr (ln x))"

definition py_sqrt :: "real \<Rightarrow> py_error + real" where
  "py_sqrt x = (if x < 0 then Inl (ValueError ''math domain error'') else Inr (sqrt x))"

definition ucb_score :: "ReasoningNode \<Rightarrow> int \<Rightarrow> real \<Rightarrow> py_error + score" where
  "ucb_score n parent_visits c =
     (if visits n = 0 then Inr Infinity
      else let exploitation = total_value n / real_of_int (visits n)
           in case py_log (real_of_int parent_visits) of
                Inl e \<Rightarrow> Inl e
              | Inr l \<Rightarrow>
                  (case py_sqrt (l / real_of_int (visits n)) of
                     Inl e \<Rightarrow> Inl e
                   | Inr s \<Rightarrow> Inr (Finite (exploitation + c * s))))"

text \<open>
  \<open>max(xs, key=f)\<close>: the keys are computed in order, and an item replaces the best so far
  only when its key is strictly greater, so the first item with the greatest key wins.
\<close>

fun max_key_loop :: "('a \<Rightarrow> py_error + score) \<Rightarrow> 'a list \<Rightarrow> 'a \<Rightarrow> score \<Rightarrow> py_error + 'a" where
  "max_key_loop f [] best bk = Inr best"
| "max_key_loop f (x # xs) best bk =
     (case f x of
        Inl e \<Rightarrow> Inl e
      | Inr k \<Rightarrow> if score_gt k bk then max_key_loop f xs x k else max_key_loop f xs best bk)"

definition py_max_key :: "('a \<Rightarrow> py_error + score) \<Rightarrow> 'a list \<Rightarrow> py_error + 'a" where
  "py_max_key f xs =
     (case xs of
        [] \<Rightarrow> Inl (ValueError ''max() arg is an empty sequence'')
      | x # rest \<Rightarrow> (case f x of Inl e \<Rightarrow> Inl e | Inr k \<Rightarrow> max_key_loop f rest x k))"

text \<open>The key of \<open>_select\<close>: \<open>self.nodes[cid].ucb_score(parent_visits, self.c)\<close>.\<close>

definition child_key ::
  "(string \<rightharpoonup> ReasoningNode) \<Rightarrow> int \<Rightarrow> real \<Rightarrow> string \<Rightarrow> py_error + score" where
  "child_key nodes parent_visits c cid =
     (case nodes cid of None \<Rightarrow> Inl (KeyError cid) | Some ch \<Rightarrow> ucb_score ch parent_visits c)"

partial_function (option) select ::
  "(string \<rightharpoonup> ReasoningNode) \<Rightarrow> real \<Rightarrow> string \<Rightarrow> (py_error + string) option" where
  "select nodes c nid =
     (case nodes nid of
        None \<Rightarrow> Some (Inl (KeyError nid))
      | Some node \<Rightarrow>
          if children node = [] then Some (Inr nid)
          else let parent_visits = max (visits node) 1
               in case py_max_key (child_key nodes parent_visits c) (children node) of
                    Inl e \<Rightarrow> Some (Inl e)
                  | Inr best \<Rightarrow> select nodes c best)"

definition bump :: "real \<Rightarrow> ReasoningNode \<Rightarrow> ReasoningNode" where
  "bump v node = node\<lparr>visits := visits node + 1, total_value := total_value node + v\<rparr>"

partial_function (option) backpropagate_loop ::
  "(string \<rightharpoonup> ReasoningNode) \<Rightarrow> string option \<Rightarrow> real
     \<Rightarrow> (py_error + (string \<rightharpoonup> ReasoningNode)) option" where
  "backpropagate_loop nodes current_id v =
     (case current_id of
        None \<Rightarrow> Some (Inr nodes)
      | Some cid \<Rightarrow>
          (case nodes cid of
             None \<Rightarrow> Some (Inl (KeyError cid))
           | Some node \<Rightarrow> backpropagate_loop (nodes(cid \<mapsto> bump v node)) (parent_id node) v))"

definition backpropagate ::
  "(string \<rightharpoonup> ReasoningNode) \<Rightarrow> string \<Rightarrow> real \<Rightarrow> (py_error + (string \<rightharpoonup> ReasoningNode)) option" where
  "backpropagate nodes nid v = backpropagate_loop nodes (Some nid) v"

section \<open>Rubric variant: UCB selection and back-propagation\<close>

definition ucb_score_r :: "RubricNode \<Rightarrow> int \<Rightarrow> real \<Rightarrow> py_error + score" where
  "ucb_score_r n parent_visits exploration =
     (if visits_r n = 0 then Inr Infinity
      else let exploit = total_reward n / real_of_int (visits_r n)
           in case py_log (real_of_int parent_visits) of
                Inl e \<Rightarrow> Inl e
              | Inr l \<Rightarrow>
                  (case py_sqrt (l / real_of_int (visits_r n)) of
                     Inl e \<Rightarrow> Inl e
                   | Inr s \<Rightarrow> Inr (Finite (exploit + exploration * s))))"

definition bump_r :: "real \<Rightarrow> RubricNode \<Rightarrow> RubricNode" where
  "bump_r reward n = n\<lparr>visits_r := visits_r n + 1, total_reward := total_reward n + reward\<rparr>"

partial_function (option) backpropagate_loop_r ::
  "(string \<rightharpoonup> RubricNode) \<Rightarrow> string option \<Rightarrow> real
     \<Rightarrow> (py_error + (string \<rightharpoonup> RubricNode)) option" where
  "backpropagate_loop_r nodes current_id reward =
     (case current_id of
        None \<Rightarrow> Some (Inr nodes)
      | Some cid \<Rightarrow>
          (case nodes cid of
             None \<Rightarrow> Some (Inl (KeyError cid))
           | Some n \<Rightarrow> backpropagate_loop_r (nodes(cid \<mapsto> bump_r reward n)) (parent_id_r n) reward))"

definition backpropagate_r ::
  "(string \<rightharpoonup> RubricNode) \<Rightarrow> RubricNode \<Rightarrow> real \<Rightarrow> (py_error + (string \<rightharpoonup> RubricNode)) option" where
  "backpropagate_r nodes node reward = backpropagate_loop_r nodes (Some (node_id_r node)) reward"

subsection \<open>Parent-link paths\<close>

text \<open>
  \<open>chain links k ks\<close>: following the parent links from \<open>k\<close> visits exactly the ids \<open>ks\<close>, in
  order, and ends at a node without parent. \<open>links\<close> maps an id of the tree to its node's
  \<open>parent_id\<close>.
\<close>

inductive chain :: "(string \<rightharpoonup> string option) \<Rightarrow> string \<Rightarrow> string list \<Rightarrow> bool"
  for links :: "string \<rightharpoonup> string option" where
  chain_root: "links k = Some None \<Longrightarrow> chain links k [k]"
| chain_step: "links k = Some (Some p) \<Longrightarrow> chain links p ps \<Longrightarrow> chain links k (k # ps)"

definition links_of :: "(string \<rightharpoonup> ReasoningNode) \<Rightarrow> (string \<rightharpoonup> string option)" where
  "links_of nodes = (\<lambda>k. map_option parent_id (nodes k))"

definition links_of_r :: "(string \<rightharpoonup> RubricNode) \<Rightarrow> (string \<rightharpoonup> string option)" where
  "links_of_r nodes = (\<lambda>k. map_option parent_id_r (nodes k))"

text \<open>The tree after one back-propagation of \<open>v\<close> along the ids \<open>ks\<close>.\<close>

definition bumped ::
  "real \<Rightarrow> string list \<Rightarrow> (string \<rightharpoonup> ReasoningNode) \<Rightarrow> (string \<rightharpoonup> ReasoningNode)" where
  "bumped v ks nodes = (\<lambda>j. if j \<in> set ks then map_option (bump v) (nodes j) else nodes j)"

definition bumped_r ::
  "real \<Rightarrow> string list \<Rightarrow> (string \<rightharpoonup> RubricNode) \<Rightarrow> (string \<rightharpoonup> RubricNode)" where
  "bumped_r v ks nodes = (\<lambda>j. if j \<in> set ks then map_option (bump_r v) (nodes j) else nodes j)"

definition unvisited :: "(string \<rightharpoonup> ReasoningNode) \<Rightarrow> string \<Rightarrow> bool" where
  "unvisited nodes cid = (case nodes cid of None \<Rightarrow> False | Some ch \<Rightarrow> visits ch = 0)"

definition known_child :: "(string \<rightharpoonup> ReasoningNode) \<Rightarrow> string \<Rightarrow> bool" where
  "known_child nodes cid = (case nodes cid of None \<Rightarrow> False | Some ch \<Rightarrow> 0 \<le> visits ch)"

text \<open>A child id whose node is in the tree and has no children: \<open>_select\<close> stops there.\<close>

definition is_leaf :: "(string \<rightharpoonup> ReasoningNode) \<Rightarrow> string \<Rightarrow> bool" where
  "is_leaf nodes cid = (case nodes cid of None \<Rightarrow> False | Some ch \<Rightarrow> children ch = [])"

text \<open>The dataclass constructor \<open>ReasoningNode(id, content, node_type, parent_id, depth=d)\<close>.\<close>

definition new_node :: "string \<Rightarrow> string \<Rightarrow> string \<Rightarrow> string option \<Rightarrow> int \<Rightarrow> ReasoningNode" where
  "new_node i c t p d =
     \<lparr>node_id = i, content = c, node_type = t, parent_id = p, children = [], visits = 0,
      total_value = 0, depth = d, code = [], repl_stdout = [], repl_stderr = [],
      repl_vars = [], execution_ms = 0\<rparr>"

text \<open>A three-node tree of each variant: a root with two children.\<close>

definition demo_nodes :: "string \<rightharpoonup> ReasoningNode" where
  "demo_nodes =
     [''r'' \<mapsto> (new_node ''r'' ''q'' ''question'' None 0)\<lparr>children := [''a'', ''b'']\<rparr>,
      ''a'' \<mapsto> new_node ''a'' ''s1'' ''code'' (Some ''r'') 1,
      ''b'' \<mapsto> new_node ''b'' ''s2'' ''code'' (Some ''r'') 1]"

definition demo_nodes_r :: "string \<rightharpoonup> RubricNode" where
  "demo_nodes_r =
     [''r'' \<mapsto> (RubricNode_default ''r'')\<lparr>children_ids := [''a'', ''b'']\<rparr>,
      ''a'' \<mapsto> (RubricNode_default ''a'')\<lparr>node_type_r := ''hypothesis'', depth_r := 1, parent_id_r := Some ''r''\<rparr>,
      ''b'' \<mapsto> (RubricNode_default ''b'')\<lparr>node_type_r := ''hypothesis'', depth_r := 1, parent_id_r := Some ''r''\<rparr>]"

text \<open>The same transcript tree after one iteration through the first child.\<close>

definition demo_visited :: "string \<rightharpoonup> ReasoningNode" where
  "demo_visited =
     demo_nodes(''r'' \<mapsto> (new_node ''r'' ''q'' ''question'' None 0)
                            \<lparr>children := [''a'', ''b''], visits := 1, total_value := 8 / 10\<rparr>,
                ''a'' \<mapsto> (new_node ''a'' ''s1'' ''code'' (Some ''r'') 1)
                            \<lparr>visits := 1, total_value := 8 / 10\<rparr>)"

text \<open>A tree whose root has no visits while both children have one.\<close>

definition demo_floor :: "string \<rightharpoonup> ReasoningNode" where
  "demo_floor =
     demo_nodes(''a'' \<mapsto> (new_node ''a'' ''s1'' ''code'' (Some ''r'') 1)
                            \<lparr>visits := 1, total_value := 5 / 10\<rparr>,
                ''b'' \<mapsto> (new_node ''b'' ''s2'' ''code'' (Some ''r'') 1)
                            \<lparr>visits := 1, total_value := 8 / 10\<rparr>)"

section \<open>The Python fragment the sandboxes are exercised with\<close>

text \<open>
  Both sandboxes hand source text to Python's \<open>exec\<close>. In the model the interpreter is a
  parameter of the sandbox (\<open>py_exec\<close>, with \<open>py_repr\<close> for \<open>repr\<close>): what a sandbox does
  around the call holds for whatever the interpreter does. A small interpreter \<open>mini\<close> for
  one-line statements (\<open>import m\<close>, \<open>x = e\<close>, \<open>print(e)\<close>) instantiates the parameter where a
  property is about concrete source text.

  A dict is a list of key-value pairs in insertion order with pairwise distinct keys.
\<close>

datatype builtins_kind = FullBuiltins | SafeBuiltins

record example =
  ex_input :: string
  response :: string
  ex_score :: real

datatype pyval =
  PyInt int
| PyStr string
| PyModule string
| PyFunction string
| PyBuiltins builtins_kind
| PyExamples "example list"
| PyObject "string option"

type_synonym namespace = "(string \<times> pyval) list"

fun dict_set :: "string \<Rightarrow> 'v \<Rightarrow> (string \<times> 'v) list \<Rightarrow> (string \<times> 'v) list" where
  "dict_set k v [] = [(k, v)]"
| "dict_set k v (p # ps) = (if fst p = k then (k, v) # ps else p # dict_set k v ps)"

text \<open>\<open>{**a, **b}\<close>: the entries of \<open>a\<close>, then each entry of \<open>b\<close> set in turn.\<close>

definition dict_merge :: "(string \<times> 'v) list \<Rightarrow> (string \<times> 'v) list \<Rightarrow> (string \<times> 'v) list" where
  "dict_merge a b = foldl (\<lambda>d kv. dict_set (fst kv) (snd kv) d) a b"

record exec_out =
  ns_out :: namespace
  printed :: string
  printed_err :: string
  llm_calls_out :: nat
  raised :: "py_error option"

text \<open>
  \<open>py_call f s\<close> is \<open>float(f(s))\<close> for a function object \<open>f\<close> and a string \<open>s\<close>: the number, or
  the exception raised. \<open>py_frames e\<close> is the text of the stack frames that the traceback of
  the raised exception \<open>e\<close> lists (file names and line numbers of the running process).
\<close>

record interp =
  py_exec :: "string \<Rightarrow> namespace \<Rightarrow> nat \<Rightarrow> exec_out"
  py_repr :: "pyval \<Rightarrow> py_error + string"
  py_call :: "pyval \<Rightarrow> string \<Rightarrow> py_error + real"
  py_frames :: "py_error \<Rightarrow> string"

subsection \<open>Decimal text of an integer\<close>

function show_nat :: "nat \<Rightarrow> string" where
  "show_nat n = (if n < 10 then [''0123456789'' ! n] else show_nat (n div 10) @ [''0123456789'' ! (n mod 10)])"
  by pat_completeness auto
termination
  by (relation "measure (\<lambda>n. n)") auto

declare show_nat.simps [simp del]

definition show_int :: "int \<Rightarrow> string" where
  "show_int i = (if i < 0 then CHR ''-'' # show_nat (nat (- i)) else show_nat (nat i))"

subsection \<open>Imports: the real import and \<open>_restricted_import\<close> of \<open>_safe_builtins\<close>\<close>

definition ALLOWED_MODULES :: "string list" where
  "ALLOWED_MODULES = [''re'', ''json'', ''math'', ''string'', ''collections'', ''functools'', ''itertools'']"

text \<open>
  The Python process a sandbox runs in, as far as imports, tracebacks and \<open>repr\<close> show it:
  the modules it can import; what \<open>from m import x\<close> finds as \<open>x\<close> in the imported module \<open>m\<close>
  (the value, or the exception raised); the order in which it iterates the set
  \<open>_ALLOWED_MODULES\<close>, which Python does not fix; the frames its tracebacks list; and the
  \<open>repr\<close> of the objects that are neither integers nor strings (it shows paths and
  addresses).
\<close>

record host =
  modules :: "string list"
  module_attr :: "string \<Rightarrow> string \<Rightarrow> py_error + pyval"
  allowed_order :: "string list"
  frames :: "py_error \<Rightarrow> string"
  object_repr :: "pyval \<Rightarrow> py_error + string"

fun quoted_items :: "string list \<Rightarrow> string" where
  "quoted_items [] = []"
| "quoted_items [k] = [CHR 0x27] @ k @ [CHR 0x27]"
| "quoted_items (k # ks) = [CHR 0x27] @ k @ [CHR 0x27] @ '', '' @ quoted_items ks"

text \<open>The \<open>repr\<close> of a non-empty set of strings iterated in the given order.\<close>

definition set_repr :: "string list \<Rightarrow> string" where
  "set_repr order = ''{'' @ quoted_items order @ ''}''"

text \<open>The message of the \<open>ImportError\<close> of \<open>_restricted_import\<close>.\<close>

definition not_allowed_message :: "string list \<Rightarrow> string \<Rightarrow> string" where
  "not_allowed_message order name =
     ''Import of '' @ [CHR 0x27] @ name @ [CHR 0x27] @ '' is not allowed. Allowed: '' @ set_repr order"

definition restricted_import ::
  "string list \<Rightarrow> (string \<Rightarrow> py_error + pyval) \<Rightarrow> string \<Rightarrow> py_error + pyval" where
  "restricted_import order real_import name =
     (if name \<notin> set ALLOWED_MODULES then Inl (ImportError (not_allowed_message order name))
      else real_import name)"

text \<open>\<open>builtins.__import__\<close> on the host \<open>H\<close>.\<close>

definition real_import :: "host \<Rightarrow> string \<Rightarrow> py_error + pyval" where
  "real_import H name =
     (if name \<in> set (modules H) then Inr (PyModule name)
      else Inl (ModuleNotFoundError (''No module named '' @ [CHR 0x27] @ name @ [CHR 0x27])))"

text \<open>
  A sample host. Its modules are those that the two \<open>repl_env.py\<close> files import themselves,
  the allowlisted ones and a few more of the standard library: every process that runs a
  sandbox can import them. Its attributes are a few names of the standard library; its
  frames and its object texts are those of one run, for the sample runs below.
\<close>

definition stdlib_attrs :: "((string \<times> string) \<times> pyval) list" where
  "stdlib_attrs =
     [((''collections'', ''Counter''), PyObject (Some (''<class '' @ [CHR 0x27] @ ''collections.Counter'' @ [CHR 0x27] @ ''>''))),
      ((''collections'', ''abc''), PyModule ''collections.abc''),
      ((''json'', ''codecs''), PyModule ''codecs''),
      ((''os'', ''path''), PyModule ''posixpath'')]"

definition stdlib_repr :: "pyval \<Rightarrow> py_error + string" where
  "stdlib_repr v =
     (case v of
        PyModule m \<Rightarrow> Inr (''<module '' @ [CHR 0x27] @ m @ [CHR 0x27] @ '' from '' @ [CHR 0x27]
                          @ ''/usr/lib/python3.11/'' @ m @ ''.py'' @ [CHR 0x27] @ ''>'')
      | PyFunction f \<Rightarrow> Inr (''<function '' @ f @ '' at 0x7f0000000000>'')
      | PyBuiltins b \<Rightarrow> Inr (''<module '' @ [CHR 0x27] @ ''builtins'' @ [CHR 0x27] @ '' (built-in)>'')
      | PyObject r \<Rightarrow> (case r of None \<Rightarrow> Inl (ValueError ''repr failed'') | Some s \<Rightarrow> Inr s)
      | PyExamples es \<Rightarrow> Inr (if es = [] then ''[]'' else ''[{...}]'')
      | _ \<Rightarrow> Inl (ValueError ''repr failed''))"

definition stdlib_frames :: "py_error \<Rightarrow> string" where
  "stdlib_frames e =
     ''  File '' @ [CHR 0x22] @ ''<string>'' @ [CHR 0x22] @ '', line 1, in <module>\<newline>''
     @ (case e of
          ImportError msg \<Rightarrow>
            (if startswith msg ''Import of ''
             then ''  File '' @ [CHR 0x22] @ ''/app/backend/repl_env.py'' @ [CHR 0x22]
                  @ '', line 212, in _restricted_import\<newline>''
                  @ ''    raise ImportError(f'' @ [CHR 0x22] @ ''Import of '' @ [CHR 0x27] @ ''{name}''
                  @ [CHR 0x27] @ '' is not allowed. Allowed: {_ALLOWED_MODULES}'' @ [CHR 0x22]
                  @ '')\<newline>''
             else [])
        | _ \<Rightarrow> [])"

definition stdlib_host :: host where
  "stdlib_host =
     \<lparr>modules = ALLOWED_MODULES @ [''io'', ''sys'', ''os'', ''time'', ''traceback'', ''tempfile'',
        ''asyncio'', ''random'', ''builtins'', ''collections.abc'', ''codecs'', ''posixpath'',
        ''os.path''],
      module_attr = (\<lambda>m x. case map_of stdlib_attrs (m, x) of
                              Some v \<Rightarrow> Inr v
                            | None \<Rightarrow> Inl (ImportError (''cannot import name '' @ [CHR 0x27] @ x @ [CHR 0x27]
                                        @ '' from '' @ [CHR 0x27] @ m @ [CHR 0x27]))),
      allowed_order = ALLOWED_MODULES,
      frames = stdlib_frames,
      object_repr = stdlib_repr\<rparr>"

text \<open>
  The \<open>__import__\<close> that an import statement finds in the builtins of its frame. Every form
  of the statement calls it with the name of the module written in the statement. \<open>None\<close>
  stands for builtins without \<open>__import__\<close>: the globals bind \<open>__builtins__\<close> to some other
  object.
\<close>

definition import_hook :: "host \<Rightarrow> builtins_kind option \<Rightarrow> string \<Rightarrow> py_error + pyval" where
  "import_hook H b name =
     (case b of
        None \<Rightarrow> Inl (ImportError ''__import__ not found'')
      | Some FullBuiltins \<Rightarrow> real_import H name
      | Some SafeBuiltins \<Rightarrow> restricted_import (allowed_order H) (real_import H) name)"

subsection \<open>\<open>llm_query\<close> of the transcript sandbox\<close>

definition llm_limit_sentinel :: string where
  "llm_limit_sentinel = ''[llm_query limit reached '' @ [CHR 0xE2, CHR 0x80, CHR 0x94]
     @ '' use Python string operations instead]''"

definition max_llm_calls :: nat where
  "max_llm_calls = 3"

text \<open>
  \<open>provider\<close> is the chat completion: the reply's content for a prompt, or the exception the
  call raised. The result carries the counter after the call.
\<close>

definition truncate_prompt :: "string \<Rightarrow> string" where
  "truncate_prompt prompt =
     (if 100000 < int (length prompt) then take 100000 prompt @ ''\<newline>...[truncated]'' else prompt)"

definition llm_query :: "(string \<Rightarrow> py_error + string) \<Rightarrow> string \<Rightarrow> nat \<Rightarrow> (py_error + string) \<times> nat" where
  "llm_query provider prompt llm_call_count =
     (let n = llm_call_count + 1
      in if max_llm_calls < n then (Inr llm_limit_sentinel, n)
         else let p = truncate_prompt prompt
              in case provider p of
                   Inl e \<Rightarrow> (Inl e, n)
                 | Inr reply \<Rightarrow> (Inr (strip reply), n))"

text \<open>Successive calls of \<open>llm_query\<close> in one execution, the counter threaded through.\<close>

fun llm_query_seq :: "(string \<Rightarrow> py_error + string) \<Rightarrow> string list \<Rightarrow> nat \<Rightarrow> (py_error + string) list" where
  "llm_query_seq provider [] n = []"
| "llm_query_seq provider (p # ps) n =
     fst (llm_query provider p n) # llm_query_seq provider ps (snd (llm_query provider p n))"

subsection \<open>The interpreter \<open>mini\<close>\<close>

datatype expr = EInt int | EStr string | EVar string | EAdd expr expr | ELlm expr

datatype stmt =
  SPass
| SImport string
| SImportAs string string
| SFromImport string string
| SAssign string expr
| SPrint expr

definition is_ident_char :: "char \<Rightarrow> bool" where
  "is_ident_char c =
     (let n = of_char c :: nat
      in (48 \<le> n \<and> n \<le> 57) \<or> (65 \<le> n \<and> n \<le> 90) \<or> (97 \<le> n \<and> n \<le> 122) \<or> n = 95)"

definition py_keywords :: "string list" where
  "py_keywords =
     [''False'', ''None'', ''True'', ''and'', ''as'', ''assert'', ''async'', ''await'', ''break'',
      ''class'', ''continue'', ''def'', ''del'', ''elif'', ''else'', ''except'', ''finally'', ''for'',
      ''from'', ''global'', ''if'', ''import'', ''in'', ''is'', ''lambda'', ''nonlocal'', ''not'', ''or'',
      ''pass'', ''raise'', ''return'', ''try'', ''while'', ''with'', ''yield'']"

text \<open>An ASCII identifier that is not a keyword.\<close>

definition is_ident :: "string \<Rightarrow> bool" where
  "is_ident s =
     (case s of [] \<Rightarrow> False
      | c # cs \<Rightarrow> \<not> is_digit c \<and> list_all is_ident_char s \<and> s \<notin> set py_keywords)"

definition split_on :: "char \<Rightarrow> string \<Rightarrow> string list" where
  "split_on d s = foldr (\<lambda>c ls. if c = d then [] # ls else (c # hd ls) # tl ls) s [[]]"

text \<open>A dotted module name: identifiers joined by single dots.\<close>

definition is_dotted :: "string \<Rightarrow> bool" where
  "is_dotted s = list_all is_ident (split_on (CHR ''.'') s)"

definition parse_atom :: "string \<Rightarrow> expr option" where
  "parse_atom s =
     (if s \<noteq> [] \<and> list_all is_digit s then Some (EInt (int (digits_nat s)))
      else if is_ident s then Some (EVar s)
      else if 2 \<le> length s \<and> hd s = CHR 0x27 \<and> last s = CHR 0x27
              \<and> list_all (\<lambda>c. c \<noteq> CHR 0x27 \<and> c \<noteq> CHR 0x5C) (butlast (tl s))
           then Some (EStr (butlast (tl s)))
      else None)"

definition parse_expr :: "string \<Rightarrow> expr option" where
  "parse_expr t =
     (let s = strip t
      in if startswith s ''llm_query('' \<and> s \<noteq> [] \<and> last s = CHR '')''
         then map_option ELlm (parse_atom (strip (butlast (drop 10 s))))
         else let a = takeWhile (\<lambda>c. c \<noteq> CHR ''+'') s; b = dropWhile (\<lambda>c. c \<noteq> CHR ''+'') s
              in if b = [] then parse_atom a
                 else (case (parse_atom (strip a), parse_atom (strip (tl b))) of
                         (Some x, Some y) \<Rightarrow> Some (EAdd x y)
                       | _ \<Rightarrow> None))"

text \<open>
  One line of source: \<open>import m\<close>, \<open>import m as n\<close>, \<open>from m import x\<close>, \<open>print(e)\<close>, \<open>x = e\<close>, a
  comment or an empty line. A line outside the fragment (an indented line, an import of
  several names) is refused as a syntax error, which stands for whatever Python would do
  with it; no property below is about such a line.
\<close>

definition parse_import :: "string \<Rightarrow> stmt option" where
  "parse_import s =
     (let rest = strip (drop 7 s);
          m = takeWhile (\<lambda>c. c \<noteq> CHR '' '') rest;
          more = strip (dropWhile (\<lambda>c. c \<noteq> CHR '' '') rest)
      in if \<not> is_dotted m then None
         else if more = [] then Some (SImport m)
         else if startswith more ''as '' \<and> is_ident (strip (drop 3 more))
              then Some (SImportAs m (strip (drop 3 more)))
         else None)"

definition parse_from :: "string \<Rightarrow> stmt option" where
  "parse_from s =
     (let rest = strip (drop 5 s);
          m = takeWhile (\<lambda>c. c \<noteq> CHR '' '') rest;
          more = strip (dropWhile (\<lambda>c. c \<noteq> CHR '' '') rest)
      in if is_dotted m \<and> startswith more ''import '' \<and> is_ident (strip (drop 7 more))
         then Some (SFromImport m (strip (drop 7 more)))
         else None)"

definition parse_stmt :: "string \<Rightarrow> stmt option" where
  "parse_stmt line =
     (let s = strip line
      in if s = [] then Some SPass
         else if hd s = CHR ''#'' then Some SPass
         else if py_isspace (hd line) then None
         else if startswith s ''import '' then parse_import s
         else if startswith s ''from '' then parse_from s
         else if startswith s ''print('' \<and> last s = CHR '')''
              then map_option SPrint (parse_expr (butlast (drop 6 s)))
         else let lhs = strip (takeWhile (\<lambda>c. c \<noteq> CHR ''='') s);
                  rest = dropWhile (\<lambda>c. c \<noteq> CHR ''='') s
              in if rest \<noteq> [] \<and> is_ident lhs then map_option (SAssign lhs) (parse_expr (tl rest))
                 else None)"

fun parse_all :: "string list \<Rightarrow> stmt list option" where
  "parse_all [] = Some []"
| "parse_all (l # ls) =
     (case parse_stmt l of
        None \<Rightarrow> None
      | Some s \<Rightarrow> (case parse_all ls of None \<Rightarrow> None | Some ss \<Rightarrow> Some (s # ss)))"

definition split_lines :: "string \<Rightarrow> string list" where
  "split_lines s = foldr (\<lambda>c ls. if c = CHR 0x0A then [] # ls else (c # hd ls) # tl ls) s [[]]"

fun join_lines :: "string list \<Rightarrow> string" where
  "join_lines [] = []"
| "join_lines [l] = l"
| "join_lines (l # ls) = l @ [CHR 0x0A] @ join_lines ls"

record mstate =
  m_ns :: namespace
  m_out :: string
  m_calls :: nat

fun eval_expr ::
  "(string \<Rightarrow> py_error + string) \<Rightarrow> expr \<Rightarrow> mstate \<Rightarrow> (py_error + pyval) \<times> mstate" where
  "eval_expr provider (EInt i) st = (Inr (PyInt i), st)"
| "eval_expr provider (EStr s) st = (Inr (PyStr s), st)"
| "eval_expr provider (EVar x) st =
     (case map_of (m_ns st) x of
        Some v \<Rightarrow> (Inr v, st)
      | None \<Rightarrow> (Inl (NameError (''name '' @ [CHR 0x27] @ x @ [CHR 0x27] @ '' is not defined'')), st))"
| "eval_expr provider (EAdd a b) st =
     (case eval_expr provider a st of
        (Inl e, st1) \<Rightarrow> (Inl e, st1)
      | (Inr x, st1) \<Rightarrow>
          (case eval_expr provider b st1 of
             (Inl e, st2) \<Rightarrow> (Inl e, st2)
           | (Inr y, st2) \<Rightarrow>
               (case (x, y) of
                  (PyInt i, PyInt j) \<Rightarrow> (Inr (PyInt (i + j)), st2)
                | (PyStr s, PyStr t) \<Rightarrow> (Inr (PyStr (s @ t)), st2)
                | _ \<Rightarrow> (Inl (TypeError ''unsupported operand type(s) for +''), st2))))"
| "eval_expr provider (ELlm a) st =
     (case map_of (m_ns st) ''llm_query'' of
        None \<Rightarrow> (Inl (NameError (''name '' @ [CHR 0x27] @ ''llm_query'' @ [CHR 0x27] @ '' is not defined'')), st)
      | Some f \<Rightarrow>
          (case eval_expr provider a st of
             (Inl e, st1) \<Rightarrow> (Inl e, st1)
           | (Inr v, st1) \<Rightarrow>
               (case (f, v) of
                  (PyFunction fname, PyStr prompt) \<Rightarrow>
                    (if fname = ''llm_query''
                     then (case llm_query provider prompt (m_calls st1) of
                             (Inl e, n) \<Rightarrow> (Inl e, st1\<lparr>m_calls := n\<rparr>)
                           | (Inr reply, n) \<Rightarrow> (Inr (PyStr reply), st1\<lparr>m_calls := n\<rparr>))
                     else (Inl (TypeError ''unsupported call''), st1))
                | _ \<Rightarrow> (Inl (TypeError ''unsupported call''), st1))))"

text \<open>
  \<open>repr\<close> of a string: single quotes, or double quotes when the string has a single quote and
  no double quote; backslash, the quote, newline, carriage return and tab are escaped, the
  other control characters are written \<open>\xNN\<close>. Bytes from 0x80 on are taken to encode
  printable characters and are kept.
\<close>

definition hex_digit :: "nat \<Rightarrow> char" where
  "hex_digit n = ''0123456789abcdef'' ! (n mod 16)"

definition repr_char :: "char \<Rightarrow> char \<Rightarrow> string" where
  "repr_char q c =
     (let n = of_char c :: nat
      in if c = CHR 0x5C then [CHR 0x5C, CHR 0x5C]
         else if c = q then [CHR 0x5C, q]
         else if c = CHR 0x0A then [CHR 0x5C, CHR ''n'']
         else if c = CHR 0x0D then [CHR 0x5C, CHR ''r'']
         else if c = CHR 0x09 then [CHR 0x5C, CHR ''t'']
         else if n < 32 \<or> n = 127 then [CHR 0x5C, CHR ''x'', hex_digit (n div 16), hex_digit n]
         else [c])"

definition str_repr :: "string \<Rightarrow> string" where
  "str_repr s =
     (let q = (if CHR 0x27 \<in> set s \<and> CHR 0x22 \<notin> set s then CHR 0x22 else CHR 0x27)
      in [q] @ concat (map (repr_char q) s) @ [q])"

definition mini_repr :: "host \<Rightarrow> pyval \<Rightarrow> py_error + string" where
  "mini_repr H v =
     (case v of
        PyInt i \<Rightarrow> Inr (show_int i)
      | PyStr s \<Rightarrow> Inr (str_repr s)
      | _ \<Rightarrow> object_repr H v)"

text \<open>\<open>str\<close>, as \<open>print\<close> applies it.\<close>

definition mini_str :: "host \<Rightarrow> pyval \<Rightarrow> py_error + string" where
  "mini_str H v = (case v of PyStr s \<Rightarrow> Inr s | _ \<Rightarrow> mini_repr H v)"

definition top_package :: "string \<Rightarrow> string" where
  "top_package m = takeWhile (\<lambda>c. c \<noteq> CHR ''.'') m"

text \<open>
  The builtins of the frame that \<open>exec\<close> creates for a namespace: those under its key
  \<open>__builtins__\<close>, the full ones when the key is missing (\<open>exec\<close> inserts them). They are fixed
  when the frame is created.
\<close>

definition builtins_of :: "namespace \<Rightarrow> builtins_kind option" where
  "builtins_of ns =
     (case map_of ns ''__builtins__'' of
        None \<Rightarrow> Some FullBuiltins
      | Some v \<Rightarrow> (case v of PyBuiltins k \<Rightarrow> Some k | _ \<Rightarrow> None))"

definition type_name :: "pyval \<Rightarrow> string" where
  "type_name v =
     (case v of
        PyInt i \<Rightarrow> ''int''
      | PyStr s \<Rightarrow> ''str''
      | PyModule m \<Rightarrow> ''module''
      | PyFunction f \<Rightarrow> ''function''
      | PyBuiltins b \<Rightarrow> (case b of FullBuiltins \<Rightarrow> ''module'' | SafeBuiltins \<Rightarrow> ''dict'')
      | PyExamples es \<Rightarrow> ''list''
      | PyObject r \<Rightarrow> ''object'')"

text \<open>
  What the name \<open>print\<close> is in a frame: the namespace first, then the builtins.
  \<open>Inr (Some v)\<close> is the object that the namespace binds, \<open>Inr None\<close> the builtin \<open>print\<close>, and
  without builtins the name is not defined. The call comes after the argument is
  evaluated; the function \<open>print\<close> (the builtin, or the one that the rubric sandbox injects)
  prints, an object that is no function cannot be called.
\<close>

definition lookup_print :: "builtins_kind option \<Rightarrow> namespace \<Rightarrow> py_error + pyval option" where
  "lookup_print b ns =
     (case map_of ns ''print'' of
        Some v \<Rightarrow> Inr (Some v)
      | None \<Rightarrow>
          (case b of
             None \<Rightarrow> Inl (NameError (''name '' @ [CHR 0x27] @ ''print'' @ [CHR 0x27] @ '' is not defined''))
           | Some k \<Rightarrow> Inr None))"

definition call_print :: "pyval option \<Rightarrow> py_error option" where
  "call_print f =
     (case f of
        None \<Rightarrow> None
      | Some v \<Rightarrow>
          (case v of
             PyFunction g \<Rightarrow> (if g = ''print'' then None else Some (TypeError ''unsupported call''))
           | _ \<Rightarrow> Some (TypeError ([CHR 0x27] @ type_name v @ [CHR 0x27] @ '' object is not callable''))))"

text \<open>
  \<open>import a.b\<close> binds the top package \<open>a\<close>; \<open>import a.b as n\<close> binds \<open>n\<close> to the module \<open>a.b\<close>;
  \<open>from m import x\<close> binds \<open>x\<close> to what the imported module \<open>m\<close> has under that name. \<open>b\<close> is the
  builtins of the frame.
\<close>

fun exec_stmt ::
  "(string \<Rightarrow> py_error + string) \<Rightarrow> host \<Rightarrow> builtins_kind option \<Rightarrow> stmt \<Rightarrow> mstate
     \<Rightarrow> py_error option \<times> mstate" where
  "exec_stmt provider H b SPass st = (None, st)"
| "exec_stmt provider H b (SImport m) st =
     (case import_hook H b m of
        Inl e \<Rightarrow> (Some e, st)
      | Inr v \<Rightarrow> (None, st\<lparr>m_ns := dict_set (top_package m) (PyModule (top_package m)) (m_ns st)\<rparr>))"
| "exec_stmt provider H b (SImportAs m n) st =
     (case import_hook H b m of
        Inl e \<Rightarrow> (Some e, st)
      | Inr v \<Rightarrow> (None, st\<lparr>m_ns := dict_set n (PyModule m) (m_ns st)\<rparr>))"
| "exec_stmt provider H b (SFromImport m x) st =
     (case import_hook H b m of
        Inl e \<Rightarrow> (Some e, st)
      | Inr v \<Rightarrow>
          (case module_attr H m x of
             Inl e \<Rightarrow> (Some e, st)
           | Inr a \<Rightarrow> (None, st\<lparr>m_ns := dict_set x a (m_ns st)\<rparr>)))"
| "exec_stmt provider H b (SAssign x e) st =
     (case eval_expr provider e st of
        (Inl err, st1) \<Rightarrow> (Some err, st1)
      | (Inr v, st1) \<Rightarrow> (None, st1\<lparr>m_ns := dict_set x v (m_ns st1)\<rparr>))"
| "exec_stmt provider H b (SPrint e) st =
     (case lookup_print b (m_ns st) of
        Inl err \<Rightarrow> (Some err, st)
      | Inr f \<Rightarrow>
          (case eval_expr provider e st of
             (Inl err, st1) \<Rightarrow> (Some err, st1)
           | (Inr v, st1) \<Rightarrow>
               (case call_print f of
                  Some err \<Rightarrow> (Some err, st1)
                | None \<Rightarrow>
                    (case mini_str H v of
                       Inl err \<Rightarrow> (Some err, st1)
                     | Inr s \<Rightarrow> (None, st1\<lparr>m_out := m_out st1 @ s @ [CHR 0x0A]\<rparr>)))))"

fun exec_stmts ::
  "(string \<Rightarrow> py_error + string) \<Rightarrow> host \<Rightarrow> builtins_kind option \<Rightarrow> stmt list \<Rightarrow> mstate
     \<Rightarrow> py_error option \<times> mstate" where
  "exec_stmts provider H b [] st = (None, st)"
| "exec_stmts provider H b (s # ss) st =
     (case exec_stmt provider H b s st of
        (Some e, st1) \<Rightarrow> (Some e, st1)
      | (None, st1) \<Rightarrow> exec_stmts provider H b ss st1)"

text \<open>The module name that an import statement hands to \<open>__import__\<close>.\<close>

fun imported :: "stmt \<Rightarrow> string option" where
  "imported (SImport m) = Some m"
| "imported (SImportAs m n) = Some m"
| "imported (SFromImport m x) = Some m"
| "imported s = None"

text \<open>
  \<open>exec(src, ns, ns)\<close>: the text is compiled first, so a syntax error leaves the namespace as
  it was; the statements then run in order, up to the first exception.
\<close>

definition mini_exec ::
  "(string \<Rightarrow> py_error + string) \<Rightarrow> host \<Rightarrow> string \<Rightarrow> namespace \<Rightarrow> nat \<Rightarrow> exec_out" where
  "mini_exec provider H src ns calls =
     (case parse_all (split_lines src) of
        None \<Rightarrow> \<lparr>ns_out = ns, printed = [], printed_err = [], llm_calls_out = calls,
                 raised = Some (SyntaxError ''invalid syntax'')\<rparr>
      | Some ss \<Rightarrow>
          (case exec_stmts provider H (builtins_of ns) ss
                  \<lparr>m_ns = (if map_of ns ''__builtins__'' = None
                           then ns @ [(''__builtins__'', PyBuiltins FullBuiltins)] else ns),
                   m_out = [], m_calls = calls\<rparr> of
             (e, st) \<Rightarrow> \<lparr>ns_out = m_ns st, printed = m_out st, printed_err = [],
                          llm_calls_out = m_calls st, raised = e\<rparr>))"

definition mini :: "(string \<Rightarrow> py_error + string) \<Rightarrow> host \<Rightarrow> interp" where
  "mini provider H =
     \<lparr>py_exec = mini_exec provider H, py_repr = mini_repr H,
      py_call = (\<lambda>f s. Inl (TypeError ''float() argument must be a string or a real number'')),
      py_frames = frames H\<rparr>"

section \<open>Transcript variant: the persistent REPL (repl\_env.py)\<close>

record REPLResult =
  stdout :: string
  stderr :: string
  locals_snapshot :: "(string \<times> string) list"
  execution_time_ms :: real
  success :: bool

record REPLEnv =
  globals :: namespace
  locals :: namespace
  llm_call_count :: nat

text \<open>\<open>__init__\<close>: the injected globals, and the transcript with its path as locals.\<close>

definition REPLEnv_init :: "string \<Rightarrow> string \<Rightarrow> REPLEnv" where
  "REPLEnv_init ctx context_path =
     \<lparr>globals = [(''llm_query'', PyFunction ''llm_query''), (''FINAL_VAR'', PyFunction ''final_var''),
                 (''__builtins__'', PyBuiltins FullBuiltins)],
      locals = [(''context'', PyStr ctx), (''context_path'', PyStr context_path)],
      llm_call_count = 0\<rparr>"

text \<open>
  \<open>traceback.format_exc()\<close>: the header, the frames, and the line of the exception.
\<close>

definition error_line :: "py_error \<Rightarrow> string" where
  "error_line e =
     (case e of
        ImportError m \<Rightarrow> ''ImportError: '' @ m
      | ModuleNotFoundError m \<Rightarrow> ''ModuleNotFoundError: '' @ m
      | KeyError m \<Rightarrow> ''KeyError: '' @ [CHR 0x27] @ m @ [CHR 0x27]
      | ValueError m \<Rightarrow> ''ValueError: '' @ m
      | NameError m \<Rightarrow> ''NameError: '' @ m
      | SyntaxError m \<Rightarrow> ''SyntaxError: '' @ m
      | TypeError m \<Rightarrow> ''TypeError: '' @ m
      | ProviderError m \<Rightarrow> ''ProviderError: '' @ m)"

definition format_exc :: "interp \<Rightarrow> py_error \<Rightarrow> string" where
  "format_exc I e =
     ''Traceback (most recent call last):\<newline>'' @ py_frames I e @ error_line e @ ''\<newline>''"

definition is_import_line :: "string \<Rightarrow> bool" where
  "is_import_line line = (let stripped = strip line in startswith stripped ''import '' \<or> startswith stripped ''from '')"

definition import_lines :: "string \<Rightarrow> string list" where
  "import_lines code_text = filter is_import_line (split_lines (strip code_text))"

definition other_lines :: "string \<Rightarrow> string list" where
  "other_lines code_text = filter (\<lambda>l. \<not> is_import_line l) (split_lines (strip code_text))"

text \<open>The import phase: \<open>exec\<close> of the import lines on \<open>self._globals\<close>, after the counter reset.\<close>

definition run_imports :: "interp \<Rightarrow> string \<Rightarrow> REPLEnv \<Rightarrow> exec_out" where
  "run_imports I code_text env =
     (if import_lines code_text \<noteq> []
      then py_exec I (join_lines (import_lines code_text)) (globals env) 0
      else \<lparr>ns_out = globals env, printed = [], printed_err = [], llm_calls_out = 0, raised = None\<rparr>)"

text \<open>The namespace the other lines run in: \<open>{**self._globals, **self._locals}\<close>.\<close>

definition combined_ns :: "namespace \<Rightarrow> namespace \<Rightarrow> namespace" where
  "combined_ns g l = dict_merge g l"

definition run_others :: "interp \<Rightarrow> string \<Rightarrow> namespace \<Rightarrow> namespace \<Rightarrow> nat \<Rightarrow> exec_out" where
  "run_others I code_text g l calls =
     py_exec I (join_lines (other_lines code_text)) (combined_ns g l) calls"

text \<open>The loop that persists new variables into \<open>self._locals\<close>.\<close>

definition persist :: "namespace \<Rightarrow> namespace \<Rightarrow> namespace \<Rightarrow> namespace" where
  "persist g combined l =
     foldl (\<lambda>acc kv. if map_of g (fst kv) = None \<and> \<not> startswith (fst kv) ''_''
                      then dict_set (fst kv) (snd kv) acc else acc) l combined"

definition snap_repr :: "interp \<Rightarrow> pyval \<Rightarrow> string" where
  "snap_repr I v =
     (case py_repr I v of
        Inr r \<Rightarrow> (if 200 < length r then take 200 r else r)
      | Inl e \<Rightarrow> ''<unrepresentable>'')"

definition safe_snapshot :: "interp \<Rightarrow> namespace \<Rightarrow> (string \<times> string) list" where
  "safe_snapshot I l =
     foldl (\<lambda>snap kv. if startswith (fst kv) ''_'' \<or> fst kv = ''context'' then snap
                       else dict_set (fst kv) (snap_repr I (snd kv)) snap) [] l"

text \<open>
  \<open>execute\<close>. \<open>elapsed\<close> is the wall time spent, in milliseconds; the result is the
  \<open>REPLResult\<close> and the environment after the call.
\<close>

definition execute :: "interp \<Rightarrow> real \<Rightarrow> string \<Rightarrow> REPLEnv \<Rightarrow> REPLResult \<times> REPLEnv" where
  "execute I elapsed code_text env =
     (let r1 = run_imports I code_text (env\<lparr>llm_call_count := 0\<rparr>);
          g1 = ns_out r1
      in case raised r1 of
           Some e \<Rightarrow>
             (\<lparr>stdout = printed r1, stderr = printed_err r1 @ format_exc I e,
               locals_snapshot = safe_snapshot I (locals env),
               execution_time_ms = py_round elapsed 1, success = False\<rparr>,
              \<lparr>globals = g1, locals = locals env, llm_call_count = llm_calls_out r1\<rparr>)
         | None \<Rightarrow>
             if other_lines code_text \<noteq> [] then
               (let r2 = run_others I code_text g1 (locals env) (llm_calls_out r1)
                in case raised r2 of
                     Some e \<Rightarrow>
                       (\<lparr>stdout = printed r1 @ printed r2,
                         stderr = printed_err r1 @ printed_err r2 @ format_exc I e,
                         locals_snapshot = safe_snapshot I (locals env),
                         execution_time_ms = py_round elapsed 1, success = False\<rparr>,
                        \<lparr>globals = g1, locals = locals env, llm_call_count = llm_calls_out r2\<rparr>)
                   | None \<Rightarrow>
                       (let l2 = persist g1 (ns_out r2) (locals env)
                        in (\<lparr>stdout = printed r1 @ printed r2,
                             stderr = printed_err r1 @ printed_err r2,
                             locals_snapshot = safe_snapshot I l2,
                             execution_time_ms = py_round elapsed 1, success = True\<rparr>,
                            \<lparr>globals = g1, locals = l2, llm_call_count = llm_calls_out r2\<rparr>)))
             else
               (\<lparr>stdout = printed r1, stderr = printed_err r1,
                 locals_snapshot = safe_snapshot I (locals env),
                 execution_time_ms = py_round elapsed 1, success = True\<rparr>,
                \<lparr>globals = g1, locals = locals env, llm_call_count = llm_calls_out r1\<rparr>))"

section \<open>Rubric variant: the sandbox (rubric-discovery repl\_env.py)\<close>

record rubric_run =
  rr_success :: bool
  rr_train_results :: "result list"
  rr_eval_results :: "result list"
  rr_stdout :: string
  rr_stderr :: string
  rr_rubric_fn_found :: bool

definition callable :: "pyval option \<Rightarrow> bool" where
  "callable v = (case v of Some (PyFunction f) \<Rightarrow> True | _ \<Rightarrow> False)"

text \<open>\<open>float(rubric_fn(ex["response"]))\<close>, clamped; an exception gives 0.0.\<close>

definition predict :: "interp \<Rightarrow> pyval option \<Rightarrow> string \<Rightarrow> real" where
  "predict I fn resp =
     (case fn of
        Some f \<Rightarrow> (case py_call I f resp of Inl e \<Rightarrow> 0 | Inr p \<Rightarrow> max 0 (min 1 p))
      | None \<Rightarrow> 0)"

definition run_rubric :: "interp \<Rightarrow> pyval option \<Rightarrow> example list \<Rightarrow> result list" where
  "run_rubric I fn examples =
     map (\<lambda>ex. \<lparr>predicted = py_round (predict I fn (response ex)) 4, actual = ex_score ex\<rparr>) examples"

definition rubric_namespace :: "example list \<Rightarrow> example list \<Rightarrow> namespace" where
  "rubric_namespace train sample =
     [(''training_examples'', PyExamples train),
      (''sample_examples'', PyExamples sample),
      (''__builtins__'', PyBuiltins SafeBuiltins),
      (''print'', PyFunction ''print''),
      (''re'', PyModule ''re''),
      (''json'', PyModule ''json''),
      (''math'', PyModule ''math''),
      (''test_rubric'', PyFunction ''test_rubric'')]"

definition execute_rubric ::
  "interp \<Rightarrow> example list \<Rightarrow> example list \<Rightarrow> example list \<Rightarrow> string \<Rightarrow> rubric_run" where
  "execute_rubric I train evals sample rubric_text =
     (let r = py_exec I rubric_text (rubric_namespace train sample) 0;
          ok = (raised r = None);
          err = (case raised r of None \<Rightarrow> [] | Some e \<Rightarrow> format_exc I e);
          rubric_fn = map_of (ns_out r) ''rubric_fn''
      in if ok \<and> callable rubric_fn then
           \<lparr>rr_success = ok, rr_train_results = run_rubric I rubric_fn train,
            rr_eval_results = run_rubric I rubric_fn evals, rr_stdout = printed r,
            rr_stderr = err, rr_rubric_fn_found = callable rubric_fn\<rparr>
         else if ok then
           \<lparr>rr_success = ok, rr_train_results = [], rr_eval_results = [], rr_stdout = printed r,
            rr_stderr = err @ ''Warning: No `rubric_fn` function found in code.\<newline>'',
            rr_rubric_fn_found = callable rubric_fn\<rparr>
         else
           \<lparr>rr_success = ok, rr_train_results = [], rr_eval_results = [], rr_stdout = printed r,
            rr_stderr = err, rr_rubric_fn_found = callable rubric_fn\<rparr>)"

section \<open>Sample inputs of the sandboxes\<close>

definition demo_provider :: "string \<Rightarrow> py_error + string" where
  "demo_provider p = Inr ('' re: '' @ p @ '' '')"

definition demo_env :: REPLEnv where
  "demo_env = REPLEnv_init ''hello'' ''/tmp/context.txt''"

definition demo_mini :: interp where
  "demo_mini = mini demo_provider stdlib_host"

text \<open>The steps of \<open>execute\<close>, named: what the import phase and the other lines returned.\<close>

definition imports_out :: "interp \<Rightarrow> string \<Rightarrow> REPLEnv \<Rightarrow> exec_out" where
  "imports_out I code_text env = run_imports I code_text (env\<lparr>llm_call_count := 0\<rparr>)"

definition others_out :: "interp \<Rightarrow> string \<Rightarrow> REPLEnv \<Rightarrow> exec_out" where
  "others_out I code_text env =
     run_others I code_text (ns_out (imports_out I code_text env)) (locals env)
       (llm_calls_out (imports_out I code_text env))"

text \<open>What an entry of a snapshot of the locals \<open>l\<close> satisfies.\<close>

definition snap_ok :: "interp \<Rightarrow> namespace \<Rightarrow> string \<times> string \<Rightarrow> bool" where
  "snap_ok I l kr = (fst kr \<noteq> ''context'' \<and> \<not> startswith (fst kr) ''_'' \<and> length (snd kr) \<le> 200
      \<and> (\<exists>v. (fst kr, v) \<in> set l \<and> snd kr = snap_repr I v))"

text \<open>The source texts \<open>import m\<close>, \<open>import m as n\<close> and \<open>from m import x\<close>.\<close>

definition import_stmt :: "string \<Rightarrow> string" where
  "import_stmt m = ''import '' @ m"

definition import_as_stmt :: "string \<Rightarrow> string \<Rightarrow> string" where
  "import_as_stmt m n = ''import '' @ m @ '' as '' @ n"

definition from_import_stmt :: "string \<Rightarrow> string \<Rightarrow> string" where
  "from_import_stmt m x = ''from '' @ m @ '' import '' @ x"

section \<open>Transcript variant: the search engine (mcts\_engine.py)\<close>

text \<open>
  The engine is constructed over collaborators: the policy, the value function and the
  sandbox. In the model they are functions over a state of the outside world \<open>'w\<close>, which
  each call may change, so that two calls with equal arguments may answer differently.
  \<open>ids\<close> lists the values that \<open>uuid4().hex[:8]\<close> returns, in the order they are drawn.
  \<open>get_variable\<close> gives \<open>str(val)\<close> for the sandbox variable of that name, when there is one
  and it is not \<open>None\<close>.
\<close>

record message =
  role :: string
  msg_content :: string

record 'w collaborators =
  ids :: "nat \<Rightarrow> string"
  policy_fn :: "'w \<Rightarrow> ReasoningNode \<Rightarrow> message list \<Rightarrow> string \<Rightarrow> (py_error + ReasoningNode list) \<times> 'w"
  value_fn :: "'w \<Rightarrow> ReasoningNode \<Rightarrow> string \<Rightarrow> (py_error + real) \<times> 'w"
  execute_async :: "'w \<Rightarrow> string \<Rightarrow> REPLResult \<times> 'w"
  get_variable :: "'w \<Rightarrow> string \<Rightarrow> string option"

record 'w MCTSReasoningTree =
  nodes :: "string \<rightharpoonup> ReasoningNode"
  branch_messages :: "string \<rightharpoonup> message list"
  id_count :: nat
  world :: 'w

subsection \<open>\<open>_check_final_var\<close>\<close>

text \<open>
  The leftmost match of \<open>FINAL_VAR\(([^)]+)\)\<close>: at the first position where the marker
  stands with at least one character other than a closing parenthesis before the next
  closing parenthesis; the group is that run of characters.
\<close>

fun find_final_var :: "string \<Rightarrow> string option" where
  "find_final_var [] = None"
| "find_final_var (c # cs) =
     (if startswith (c # cs) ''FINAL_VAR(''
      then (let rest = drop 10 (c # cs); arg = takeWhile (\<lambda>x. x \<noteq> CHR '')'') rest
            in if arg \<noteq> [] \<and> length arg < length rest then Some arg else find_final_var cs)
      else find_final_var cs)"

definition strip_char :: "char \<Rightarrow> string \<Rightarrow> string" where
  "strip_char q s = rev (dropWhile (\<lambda>c. c = q) (rev (dropWhile (\<lambda>c. c = q) s)))"

definition check_final_var :: "'w collaborators \<Rightarrow> 'w \<Rightarrow> ReasoningNode \<Rightarrow> string option" where
  "check_final_var E w node =
     (case find_final_var (code node @ [CHR 0x0A] @ repl_stdout node) of
        None \<Rightarrow> None
      | Some g \<Rightarrow> get_variable E w (strip_char (CHR 0x27) (strip_char (CHR 0x22) (strip g))))"

subsection \<open>\<open>_get_branch_messages\<close>\<close>

partial_function (option) path_loop ::
  "(string \<rightharpoonup> ReasoningNode) \<Rightarrow> string option \<Rightarrow> string list \<Rightarrow> (py_error + string list) option" where
  "path_loop ns cid path =
     (case cid of
        None \<Rightarrow> Some (Inr path)
      | Some k \<Rightarrow>
          (case ns k of
             None \<Rightarrow> Some (Inl (KeyError k))
           | Some n \<Rightarrow> path_loop ns (parent_id n) (path @ [k])))"

text \<open>The path is reversed and then read in reverse: the node itself first, the root last.\<close>

fun nearest_messages :: "(string \<rightharpoonup> message list) \<Rightarrow> string list \<Rightarrow> message list" where
  "nearest_messages bm [] = []"
| "nearest_messages bm (nid # rest) =
     (case bm nid of Some ms \<Rightarrow> ms | None \<Rightarrow> nearest_messages bm rest)"

definition get_branch_messages ::
  "'w MCTSReasoningTree \<Rightarrow> string \<Rightarrow> (py_error + message list) option" where
  "get_branch_messages t nid =
     (case branch_messages t nid of
        Some ms \<Rightarrow> Some (Inr ms)
      | None \<Rightarrow>
          bind_r (path_loop (nodes t) (Some nid) [])
            (\<lambda>path. Some (Inr (nearest_messages (branch_messages t) path))))"

subsection \<open>\<open>_expand\<close>\<close>

definition arrow :: string where
  "arrow = [CHR 0xE2, CHR 0x86, CHR 0x92]"

definition keys_repr :: "string list \<Rightarrow> string" where
  "keys_repr ks = ''['' @ quoted_items ks @ '']''"

definition child_summary :: "REPLResult \<Rightarrow> string" where
  "child_summary res =
     (if success res \<and> strip (stdout res) \<noteq> []
      then ''Code executed '' @ arrow @ '' '' @ strip (take 200 (stdout res))
      else if \<not> success res
      then ''Code error '' @ arrow @ '' '' @ strip (take 200 (stderr res))
      else ''Code executed (no output), vars: '' @ keys_repr (map fst (locals_snapshot res)))"

text \<open>
  The body of \<open>_expand\<close> for a code child: run the code, record the result, and append an
  answer node when the final-answer marker resolves to a non-empty string.
\<close>

definition run_code_child ::
  "'w collaborators \<Rightarrow> ReasoningNode \<Rightarrow> 'w MCTSReasoningTree \<Rightarrow> ReasoningNode \<times> 'w MCTSReasoningTree" where
  "run_code_child E child t =
     (case execute_async E (world t) (code child) of
        (res, w) \<Rightarrow>
          (let child1 = child\<lparr>repl_stdout := take 2000 (stdout res),
                               repl_stderr := take 1000 (stderr res),
                               repl_vars := locals_snapshot res,
                               execution_ms := execution_time_ms res,
                               content := child_summary res\<rparr>
           in case check_final_var E w child1 of
                None \<Rightarrow> (child1, t\<lparr>world := w\<rparr>)
              | Some final \<Rightarrow>
                  if final = [] then (child1, t\<lparr>world := w\<rparr>)
                  else (let aid = ids E (id_count t);
                            ans_node = new_node aid final ''answer'' (Some (node_id child1)) (depth child1 + 1)
                        in (child1\<lparr>children := children child1 @ [aid]\<rparr>,
                            t\<lparr>world := w, id_count := id_count t + 1,
                              nodes := (nodes t)(aid \<mapsto> ans_node)\<rparr>))))"

definition child_messages :: "message list \<Rightarrow> ReasoningNode \<Rightarrow> message list" where
  "child_messages messages child =
     (if code child \<noteq> [] then
        messages @
        [\<lparr>role = ''assistant'', msg_content = ''```repl\<newline>'' @ code child @ ''\<newline>```''\<rparr>,
         \<lparr>role = ''user'',
          msg_content = ''REPL output:\<newline>'' @ take 3000 (repl_stdout child) @ ''\<newline>''
            @ (if repl_stderr child \<noteq> [] then ''Errors:\<newline>'' @ take 500 (repl_stderr child) else [])\<rparr>]
      else messages)"

text \<open>
  One round of the loop over the policy's children. \<open>node\<close> is the expanded node as the
  loop holds it (the object whose child list grows); it is written back under its id
  \<open>pid\<close>. The ids drawn are taken to differ from the ids in the tree, as the source does.
\<close>

definition register_child ::
  "'w collaborators \<Rightarrow> string \<Rightarrow> message list
     \<Rightarrow> ReasoningNode \<times> 'w MCTSReasoningTree \<times> ReasoningNode list \<Rightarrow> ReasoningNode
     \<Rightarrow> ReasoningNode \<times> 'w MCTSReasoningTree \<times> ReasoningNode list" where
  "register_child E pid messages acc seed =
     (case acc of
        (node, t, registered) \<Rightarrow>
          (let cid = ids E (id_count t);
               t1 = t\<lparr>id_count := id_count t + 1\<rparr>;
               child0 = seed\<lparr>node_id := cid, parent_id := Some pid, depth := depth node + 1\<rparr>
           in case (if node_type child0 = ''code'' \<and> code child0 \<noteq> []
                    then run_code_child E child0 t1 else (child0, t1)) of
                (child1, t2) \<Rightarrow>
                  (let node1 = node\<lparr>children := children node @ [cid]\<rparr>
                   in (node1,
                       t2\<lparr>nodes := ((nodes t2)(cid \<mapsto> child1))(pid \<mapsto> node1),
                          branch_messages := (branch_messages t2)(cid \<mapsto> child_messages messages child1)\<rparr>,
                       registered @ [child1]))))"

definition expand ::
  "'w collaborators \<Rightarrow> string \<Rightarrow> string \<Rightarrow> 'w MCTSReasoningTree
     \<Rightarrow> (py_error + ReasoningNode list \<times> 'w MCTSReasoningTree) option" where
  "expand E nid question t =
     (case nodes t nid of
        None \<Rightarrow> Some (Inl (KeyError nid))
      | Some node \<Rightarrow>
          bind_r (get_branch_messages t nid)
            (\<lambda>messages.
               case policy_fn E (world t) node messages question of
                 (Inl e, w) \<Rightarrow> Some (Inl e)
               | (Inr seeds, w) \<Rightarrow>
                   (case foldl (register_child E nid messages) (node, t\<lparr>world := w\<rparr>, []) seeds of
                      (node1, t1, registered) \<Rightarrow> Some (Inr (registered, t1)))))"

subsection \<open>\<open>search\<close>\<close>

text \<open>Steps 1 and 2 of an iteration: the leaf that will be evaluated, and the tree.\<close>

definition select_and_expand ::
  "'w collaborators \<Rightarrow> int \<Rightarrow> real \<Rightarrow> string \<Rightarrow> string \<Rightarrow> 'w MCTSReasoningTree
     \<Rightarrow> (py_error + string \<times> 'w MCTSReasoningTree) option" where
  "select_and_expand E max_depth c question root_id t =
     bind_r (select (nodes t) c root_id)
       (\<lambda>leaf_id.
          case nodes t leaf_id of
            None \<Rightarrow> Some (Inl (KeyError leaf_id))
          | Some leaf \<Rightarrow>
              if depth leaf < max_depth \<and> children leaf = []
              then bind_r (expand E leaf_id question t)
                     (\<lambda>r. case r of
                             (chs, t1) \<Rightarrow>
                               Some (Inr (if chs \<noteq> [] then node_id (hd chs) else leaf_id, t1)))
              else Some (Inr (leaf_id, t)))"

text \<open>Steps 3 and 4: evaluate the leaf, back-propagate its value.\<close>

definition evaluate_and_backpropagate ::
  "'w collaborators \<Rightarrow> string \<Rightarrow> string \<Rightarrow> 'w MCTSReasoningTree
     \<Rightarrow> (py_error + 'w MCTSReasoningTree) option" where
  "evaluate_and_backpropagate E question leaf_id t =
     (case nodes t leaf_id of
        None \<Rightarrow> Some (Inl (KeyError leaf_id))
      | Some node \<Rightarrow>
          (case value_fn E (world t) node question of
             (Inl e, w) \<Rightarrow> Some (Inl e)
           | (Inr v, w) \<Rightarrow>
               bind_r (backpropagate (nodes t) leaf_id v)
                 (\<lambda>ns. Some (Inr (t\<lparr>nodes := ns, world := w\<rparr>)))))"

definition search_iteration ::
  "'w collaborators \<Rightarrow> int \<Rightarrow> real \<Rightarrow> string \<Rightarrow> string \<Rightarrow> 'w MCTSReasoningTree
     \<Rightarrow> (py_error + 'w MCTSReasoningTree) option" where
  "search_iteration E max_depth c question root_id t =
     bind_r (select_and_expand E max_depth c question root_id t)
       (\<lambda>r. case r of (leaf_id, t1) \<Rightarrow> evaluate_and_backpropagate E question leaf_id t1)"

fun search_loop ::
  "'w collaborators \<Rightarrow> int \<Rightarrow> real \<Rightarrow> string \<Rightarrow> string \<Rightarrow> nat \<Rightarrow> 'w MCTSReasoningTree
     \<Rightarrow> (py_error + 'w MCTSReasoningTree) option" where
  "search_loop E max_depth c question root_id 0 t = Some (Inr t)"
| "search_loop E max_depth c question root_id (Suc k) t =
     bind_r (search_iteration E max_depth c question root_id t)
       (search_loop E max_depth c question root_id k)"

text \<open>
  \<open>search\<close> on a new engine, up to the end of the loop: the root is created under the first
  id, then \<open>max_iterations\<close> iterations run. The result is the engine after the loop; the
  synthesis that follows reads the tree and does not change it.
\<close>

definition search_root :: "'w collaborators \<Rightarrow> string \<Rightarrow> 'w \<Rightarrow> 'w MCTSReasoningTree" where
  "search_root E question w =
     \<lparr>nodes = [ids E 0 \<mapsto> new_node (ids E 0) question ''question'' None 0],
      branch_messages = [ids E 0 \<mapsto> []], id_count = 1, world = w\<rparr>"

definition search ::
  "'w collaborators \<Rightarrow> nat \<Rightarrow> int \<Rightarrow> real \<Rightarrow> string \<Rightarrow> 'w \<Rightarrow> (py_error + 'w MCTSReasoningTree) option" where
  "search E max_iterations max_depth c question w =
     search_loop E max_depth c question (ids E 0) max_iterations (search_root E question w)"

text \<open>The visit count of the node under an id, zero when there is none.\<close>

definition visits_of :: "(string \<rightharpoonup> ReasoningNode) \<Rightarrow> string \<Rightarrow> int" where
  "visits_of ns k = (case ns k of None \<Rightarrow> 0 | Some n \<Rightarrow> visits n)"

text \<open>
  Well-formedness of the transcript tree: the root has no parent; the parent links of every
  node lead to the root; the children listed by a node are in the tree, one level deeper;
  no node is deeper than \<open>D\<close>.
\<close>

definition wf_nodes :: "string \<Rightarrow> int \<Rightarrow> (string \<rightharpoonup> ReasoningNode) \<Rightarrow> bool" where
  "wf_nodes rid D ns =
     ((\<exists>r. ns rid = Some r \<and> parent_id r = None)
      \<and> (\<forall>k n. ns k = Some n \<longrightarrow> (\<exists>ks. chain (links_of ns) k ks \<and> last ks = rid))
      \<and> (\<forall>k n ch. ns k = Some n \<and> ch \<in> set (children n) \<longrightarrow>
            (\<exists>cn. ns ch = Some cn \<and> depth cn = depth n + 1))
      \<and> (\<forall>k n. ns k = Some n \<longrightarrow> depth n \<le> D))"

text \<open>Every id of the tree is among the first \<open>id_count\<close> ids drawn.\<close>

definition ids_bound :: "'w collaborators \<Rightarrow> 'w MCTSReasoningTree \<Rightarrow> bool" where
  "ids_bound E t = (\<forall>k n. nodes t k = Some n \<longrightarrow> (\<exists>i < id_count t. k = ids E i))"

definition wf_tree :: "'w collaborators \<Rightarrow> string \<Rightarrow> int \<Rightarrow> 'w MCTSReasoningTree \<Rightarrow> bool" where
  "wf_tree E rid D t = (wf_nodes rid D (nodes t) \<and> ids_bound E t)"

text \<open>The policy returns nodes without children, as the dataclass default gives them.\<close>

definition childless_policy :: "'w collaborators \<Rightarrow> bool" where
  "childless_policy E =
     (\<forall>w n ms q seeds w'. policy_fn E w n ms q = (Inr seeds, w') \<longrightarrow> list_all (\<lambda>s. children s = []) seeds)"

section \<open>Properties of the reward signals\<close>

lemma round_half_even_bounds:
  assumes "0 \<le> y" and "y \<le> of_int N"
  shows "0 \<le> round_half_even y \<and> round_half_even y \<le> N"
proof -
  have f0: "0 \<le> \<lfloor>y\<rfloor>" using assms(1) by simp
  have fN: "\<lfloor>y\<rfloor> \<le> N" using assms(2) by (simp add: floor_le_iff)
  show ?thesis
  proof (cases "\<lfloor>y\<rfloor> = N")
    case True
    then have "y - of_int \<lfloor>y\<rfloor> \<le> 0" using assms(2) by simp
    then show ?thesis using True f0 by (simp add: round_half_even_def Let_def)
  next
    case False
    then have "\<lfloor>y\<rfloor> + 1 \<le> N" using fN by simp
    then show ?thesis using f0 by (auto simp: round_half_even_def Let_def)
  qed
qed

lemma py_round_unit: "in_unit x \<Longrightarrow> in_unit (py_round x 4)"
proof -
  assume "in_unit x"
  then have "0 \<le> x * 10 ^ 4" and "x * 10 ^ 4 \<le> of_int 10000"
    by (simp_all add: in_unit_def)
  from round_half_even_bounds [OF this]
  have "0 \<le> round_half_even (x * 10 ^ 4)" and "round_half_even (x * 10 ^ 4) \<le> 10000"
    by simp_all
  then have "0 \<le> (of_int (round_half_even (x * 10 ^ 4)) :: real)"
    and "(of_int (round_half_even (x * 10 ^ 4)) :: real) \<le> 10000"
    by simp_all
  then show ?thesis
    by (simp add: py_round_def in_unit_def)
qed

lemma clamp_unit: "in_unit (max 0 (min 1 x))"
  by (simp add: in_unit_def)

lemma in_unit_round_clamp: "in_unit (py_round (max 0 (min 1 x)) 4)"
  by (rule py_round_unit) (rule clamp_unit)

lemma in_unit_0: "in_unit 0"
  by (simp add: in_unit_def)

lemma in_unit_1: "in_unit 1"
  by (simp add: in_unit_def)

lemma in_unit_if: "in_unit a \<Longrightarrow> in_unit b \<Longrightarrow> in_unit (if c then a else b)"
  by simp

lemma in_unit_generalization: "in_unit (generalization_reward tr ev)"
  unfolding generalization_reward_def Let_def
  by (intro in_unit_if in_unit_round_clamp in_unit_0 in_unit_1)

lemma in_unit_calibration: "in_unit (calibration_reward rs)"
  unfolding calibration_reward_def Let_def
  by (intro in_unit_if in_unit_round_clamp in_unit_0)

lemma in_unit_discrimination: "in_unit (discrimination_reward rs)"
  unfolding discrimination_reward_def Let_def
  by (intro in_unit_if in_unit_round_clamp in_unit_0)

lemma in_unit_validity: "in_unit (validity_reward rc ok out err)"
  unfolding validity_reward_def Let_def
  by (intro in_unit_if in_unit_round_clamp in_unit_0)

lemma in_unit_iteration: "in_unit (iteration_reward cur pm)"
proof (cases pm)
  case None
  then show ?thesis
    by (simp add: iteration_reward_def in_unit_round_clamp)
next
  case (Some p)
  define imp where "imp = (p - cur) / p"
  have pos: "0 < imp \<Longrightarrow> in_unit (min 1 (3 / 10 + imp * (7 / 10)))"
    by (simp add: in_unit_def min_def)
  have neg: "\<not> 0 < imp \<Longrightarrow> in_unit (max 0 (3 / 10 + imp))"
    by (simp add: in_unit_def max_def)
  have "in_unit (if 0 < imp then py_round (min 1 (3 / 10 + imp * (7 / 10))) 4
                 else py_round (max 0 (3 / 10 + imp)) 4)"
    using pos neg by (simp add: py_round_unit)
  then have inner: "in_unit (if 0 < (p - cur) / p
                 then py_round (min 1 (3 / 10 + (p - cur) / p * (7 / 10))) 4
                 else py_round (max 0 (3 / 10 + (p - cur) / p)) 4)"
    by (simp only: imp_def)
  show ?thesis
    unfolding iteration_reward_def Some option.case Let_def
    by (rule in_unit_if [OF in_unit_if [OF in_unit_1 in_unit_0] inner])
qed

lemma in_unit_composite:
  assumes "in_unit g" "in_unit c" "in_unit d" "in_unit v" "in_unit i"
  shows "in_unit (py_round ((g * 1 + c * (4 / 10) + d * (3 / 10) + v * (2 / 10) + i * (2 / 10))
           / (1 + 4 / 10 + 3 / 10 + 2 / 10 + 2 / 10)) 4)"
proof (rule py_round_unit)
  show "in_unit ((g * 1 + c * (4 / 10) + d * (3 / 10) + v * (2 / 10) + i * (2 / 10))
           / (1 + 4 / 10 + 3 / 10 + 2 / 10 + 2 / 10))"
    using assms by (simp add: in_unit_def field_simps)
qed

lemma in_unit_extract_score: "in_unit (extract_score s)"
  by (simp add: extract_score_def in_unit_def split: option.split)

text \<open>
  Claim C6. Every reward scalar an evaluator returns lies in the unit interval: each of the
  five algorithmic signals, the signals and the weighted composite that \<open>compute_rewards\<close>
  returns, the score \<open>_extract_score\<close> parses from a judge reply (first numeric match,
  clamped, one half when nothing matches), and the score \<open>evaluate_node\<close> returns whenever
  the judge call does not raise.
\<close>

theorem reward_scalars_in_unit_interval:
  "in_unit (generalization_reward tr ev)
   \<and> in_unit (calibration_reward rs)
   \<and> in_unit (discrimination_reward rs)
   \<and> in_unit (validity_reward rc ok out err)
   \<and> in_unit (iteration_reward cur pm)
   \<and> in_unit (generalization (compute_rewards rc tr ev ok out err pm))
   \<and> in_unit (calibration (compute_rewards rc tr ev ok out err pm))
   \<and> in_unit (discrimination (compute_rewards rc tr ev ok out err pm))
   \<and> in_unit (validity (compute_rewards rc tr ev ok out err pm))
   \<and> in_unit (iteration (compute_rewards rc tr ev ok out err pm))
   \<and> in_unit (composite (compute_rewards rc tr ev ok out err pm))
   \<and> in_unit (extract_score reply)
   \<and> (case evaluate_node judge node question of Inl e \<Rightarrow> True | Inr r \<Rightarrow> in_unit r)"
proof -
  have comp: "in_unit (composite (compute_rewards rc tr ev ok out err pm))"
    unfolding compute_rewards_def Let_def rewards.select_convs
    by (rule in_unit_composite)
      (rule in_unit_generalization in_unit_calibration in_unit_discrimination
        in_unit_validity in_unit_iteration)+
  have sig: "generalization (compute_rewards rc tr ev ok out err pm) = generalization_reward tr ev"
    "calibration (compute_rewards rc tr ev ok out err pm) = calibration_reward tr"
    "discrimination (compute_rewards rc tr ev ok out err pm) = discrimination_reward tr"
    "validity (compute_rewards rc tr ev ok out err pm) = validity_reward rc ok out err"
    "iteration (compute_rewards rc tr ev ok out err pm)
       = iteration_reward (if tr \<noteq> [] then mae tr else 1) pm"
    by (simp_all add: compute_rewards_def Let_def)
  have judge: "case evaluate_node judge node question of Inl e \<Rightarrow> True | Inr r \<Rightarrow> in_unit r"
    by (simp add: evaluate_node_def in_unit_extract_score in_unit_def [of "1 / 2"] split: sum.split)
  show ?thesis
    by (simp only: sig comp judge in_unit_generalization in_unit_calibration
        in_unit_discrimination in_unit_validity in_unit_iteration in_unit_extract_score simp_thms)
qed

text \<open>
  Claim C5 (amended). Without a parent MAE the iteration signal is the spec's
  \<open>1 - current_mae\<close> clamped, rounded to four decimals. With a non-zero parent MAE and a
  positive improvement \<open>(parent_mae - current_mae) / parent_mae\<close> it is the spec's
  \<open>0.3 + 0.7 * improvement\<close> clamped, rounded to four decimals. With a non-zero parent MAE
  and no improvement it is \<open>max(0, 0.3 + improvement)\<close> rounded (slope one, not 0.7). With
  parent MAE zero it is 1 when the current MAE is zero and 0 otherwise. Parent MAE 0.30 and
  child MAE 0.15 give 0.65.
\<close>

theorem iteration_reward_against_spec:
  "iteration_reward cur None = py_round (iteration_spec cur None) 4
   \<and> (pm \<noteq> 0 \<and> 0 < (pm - cur) / pm \<longrightarrow>
        iteration_reward cur (Some pm) = py_round (iteration_spec cur (Some pm)) 4)
   \<and> (pm \<noteq> 0 \<and> \<not> 0 < (pm - cur) / pm \<longrightarrow>
        iteration_reward cur (Some pm) = py_round (max 0 (3 / 10 + (pm - cur) / pm)) 4)
   \<and> iteration_reward cur (Some 0) = (if cur = 0 then 1 else 0)
   \<and> iteration_reward (15 / 100) (Some (30 / 100)) = 65 / 100"
proof -
  have ex: "iteration_reward (15 / 100) (Some (30 / 100)) = 65 / 100"
    by (simp add: iteration_reward_def py_round_def round_half_even_def Let_def)
  have pos: "0 < (pm - cur) / pm \<Longrightarrow>
      max 0 (min 1 (3 / 10 + 7 / 10 * (pm - cur) / pm)) = min 1 (3 / 10 + (pm - cur) / pm * (7 / 10))"
  proof -
    assume h: "0 < (pm - cur) / pm"
    define imp where "imp = (pm - cur) / pm"
    have "max 0 (min 1 (3 / 10 + 7 / 10 * imp)) = min 1 (3 / 10 + imp * (7 / 10))"
      using h by (simp add: imp_def [symmetric] max_def min_def)
    then show ?thesis by (simp add: imp_def)
  qed
  show ?thesis
    using ex pos by (simp add: iteration_reward_def iteration_spec_def Let_def)
qed

theorem iteration_reward_against_spec_witness:
  "iteration_reward (1 / 10) (Some (2 / 10)) = py_round (iteration_spec (1 / 10) (Some (2 / 10))) 4
   \<and> iteration_reward (1 / 10) (Some (2 / 10)) = 65 / 100
   \<and> iteration_reward (6 / 10) (Some (5 / 10)) = 1 / 10"
proof -
  have a: "(2 / 10 :: real) \<noteq> 0 \<and> 0 < ((2 / 10 :: real) - 1 / 10) / (2 / 10)" by simp
  have b: "(5 / 10 :: real) \<noteq> 0 \<and> \<not> 0 < ((5 / 10 :: real) - 6 / 10) / (5 / 10)" by simp
  have "iteration_reward (1 / 10) (Some (2 / 10)) = py_round (iteration_spec (1 / 10) (Some (2 / 10))) 4"
    using iteration_reward_against_spec [of "1 / 10" "2 / 10"] a by blast
  moreover have "iteration_reward (6 / 10) (Some (5 / 10)) = py_round (max 0 (3 / 10 + (5 / 10 - 6 / 10) / (5 / 10))) 4"
    using iteration_reward_against_spec [of "6 / 10" "5 / 10"] b by blast
  moreover have "py_round (iteration_spec (1 / 10) (Some (2 / 10))) 4 = 65 / 100"
    by (simp add: iteration_spec_def py_round_def round_half_even_def Let_def)
  moreover have "py_round (max 0 (3 / 10 + (5 / 10 - 6 / 10) / (5 / 10))) 4 = (1 / 10 :: real)"
    by (simp add: py_round_def round_half_even_def Let_def)
  ultimately show ?thesis by simp
qed

text \<open>
  Claim C5 as stated fails on a regression: parent MAE 0.5 and current MAE 0.6 give 0.1,
  where the stated formula gives 0.16.
\<close>

theorem iteration_reward_regression_counterexample:
  "iteration_reward (6 / 10) (Some (5 / 10)) = 1 / 10
   \<and> iteration_spec (6 / 10) (Some (5 / 10)) = 16 / 100
   \<and> iteration_reward (6 / 10) (Some (5 / 10)) \<noteq> iteration_spec (6 / 10) (Some (5 / 10))"
  by (simp add: iteration_reward_def iteration_spec_def py_round_def round_half_even_def Let_def)

section \<open>Snapshot truncation\<close>

text \<open>
  Claim C9 (amended). A serialised transcript node has content of at most 300 characters,
  code of at most 500, stdout of at most 300 and stderr of at most 200, whatever the stored
  strings are, and so has every entry of a tree snapshot. A serialised rubric node has
  stdout and stderr of at most 500 characters each and at most 20 train and 20 eval
  results; its rubric code is serialised whole.
\<close>

theorem snapshot_caps_by_variant:
  "within_caps (to_dict n)
   \<and> (case tree_snapshot ns k of None \<Rightarrow> True | Some d \<Rightarrow> within_caps d)
   \<and> length (dr_stdout (to_dict_r m)) \<le> 500
   \<and> length (dr_stderr (to_dict_r m)) \<le> 500
   \<and> dr_rubric_code (to_dict_r m) = rubric_code m
   \<and> length (dr_train_results (to_dict_r m)) \<le> 20
   \<and> length (dr_eval_results (to_dict_r m)) \<le> 20"
  by (simp add: within_caps_def to_dict_def to_dict_r_def tree_snapshot_def split: option.split)

text \<open>
  Claim C9 as stated fails for the rubric variant: a node holding 600 characters of rubric
  code, 400 of stdout and 300 of stderr is serialised beyond the caps 500, 300 and 200.
\<close>

theorem rubric_snapshot_caps_counterexample:
  "\<not> within_caps_r (to_dict_r ((RubricNode_default ''n1'')
        \<lparr>rubric_code := replicate 600 CHR ''x'', stdout_r := replicate 400 CHR ''o'',
         stderr_r := replicate 300 CHR ''e''\<rparr>))"
  by (simp add: within_caps_r_def to_dict_r_def RubricNode_default_def)

section \<open>Parent-link paths and back-propagation\<close>

lemma chain_det: "chain L k ks \<Longrightarrow> chain L k ks' \<Longrightarrow> ks = ks'"
proof (induction arbitrary: ks' rule: chain.induct)
  case (chain_root k)
  from chain_root.prems show ?case
  proof cases
    case chain_root
    then show ?thesis by simp
  next
    case (chain_step p ps)
    with chain_root.hyps show ?thesis by simp
  qed
next
  case (chain_step k p ps)
  from chain_step.prems show ?case
  proof cases
    case chain_root
    with chain_step.hyps show ?thesis by simp
  next
    case inner: (chain_step p' ps')
    with chain_step.hyps have "p' = p" by simp
    with inner have "ps = ps'" using chain_step.IH by blast
    with inner show ?thesis by simp
  qed
qed

lemma chain_sub:
  "chain L k ks \<Longrightarrow> j \<in> set ks \<Longrightarrow> \<exists>js. chain L j js \<and> length js \<le> length ks"
proof (induction rule: chain.induct)
  case (chain_root k)
  then show ?case by (auto intro: chain.chain_root)
next
  case (chain_step k p ps)
  show ?case
  proof (cases "j = k")
    case True
    then show ?thesis
      using chain.chain_step [OF chain_step.hyps] by auto
  next
    case False
    then have "j \<in> set ps" using chain_step.prems by simp
    then obtain js where "chain L j js" "length js \<le> length ps"
      using chain_step.IH by blast
    then show ?thesis by auto
  qed
qed

lemma chain_distinct: "chain L k ks \<Longrightarrow> distinct ks"
proof (induction rule: chain.induct)
  case (chain_root k)
  then show ?case by simp
next
  case (chain_step k p ps)
  have "k \<notin> set ps"
  proof
    assume "k \<in> set ps"
    then obtain js where js: "chain L k js" "length js \<le> length ps"
      using chain_sub [OF chain_step.hyps(2)] by blast
    have "chain L k (k # ps)"
      using chain.chain_step [OF chain_step.hyps] .
    then have "js = k # ps" using js(1) chain_det by blast
    then show False using js(2) by simp
  qed
  then show ?case using chain_step.IH by simp
qed

lemma chain_head: "chain L k ks \<Longrightarrow> ks \<noteq> [] \<and> hd ks = k"
  by (induction rule: chain.induct) auto

lemma chain_last_root: "chain L k ks \<Longrightarrow> L (last ks) = Some None"
  by (induction rule: chain.induct) (auto dest: chain_head)

lemma chain_in_dom: "chain L k ks \<Longrightarrow> j \<in> set ks \<Longrightarrow> L j \<noteq> None"
  by (induction rule: chain.induct) auto

lemma links_of_bump: "ns k = Some n \<Longrightarrow> links_of (ns(k \<mapsto> bump v n)) = links_of ns"
  by (auto simp: links_of_def bump_def fun_eq_iff)

lemma links_of_bump_r:
  "ns k = Some n \<Longrightarrow> links_of_r (ns(k \<mapsto> bump_r v n)) = links_of_r ns"
  by (auto simp: links_of_r_def bump_r_def fun_eq_iff)

lemma backpropagate_loop_unfold:
  "ns k = Some n \<Longrightarrow>
   backpropagate_loop ns (Some k) v = backpropagate_loop (ns(k \<mapsto> bump v n)) (parent_id n) v"
  by (subst backpropagate_loop.simps) simp

lemma backpropagate_loop_None: "backpropagate_loop ns None v = Some (Inr ns)"
  by (subst backpropagate_loop.simps) simp

lemma backpropagate_loop_chain:
  "chain L k ks \<Longrightarrow> links_of ns = L \<Longrightarrow>
   backpropagate_loop ns (Some k) v = Some (Inr (bumped v ks ns))"
proof (induction arbitrary: ns rule: chain.induct)
  case (chain_root k)
  then obtain n where n: "ns k = Some n" "parent_id n = None"
    by (auto simp: links_of_def)
  have "bumped v [k] ns = ns(k \<mapsto> bump v n)"
    using n(1) by (rule_tac ext) (simp add: bumped_def)
  then show ?case
    by (simp only: backpropagate_loop_unfold [of ns k n v, OF n(1)] n(2) backpropagate_loop_None)
next
  case (chain_step k p ps)
  then obtain n where n: "ns k = Some n" "parent_id n = Some p"
    by (auto simp: links_of_def)
  have L: "links_of (ns(k \<mapsto> bump v n)) = L"
    using links_of_bump [of ns k n v] n(1) chain_step.prems by simp
  have k: "k \<notin> set ps"
    using chain_distinct [OF chain.chain_step [OF chain_step.hyps]] by simp
  have "bumped v ps (ns(k \<mapsto> bump v n)) = bumped v (k # ps) ns"
    using n(1) k by (rule_tac ext) (simp add: bumped_def)
  then show ?case
    using chain_step.IH [OF L] by (simp only: backpropagate_loop_unfold [of ns k n v, OF n(1)] n(2))
qed

lemma backpropagate_loop_r_unfold:
  "ns k = Some n \<Longrightarrow>
   backpropagate_loop_r ns (Some k) v
     = backpropagate_loop_r (ns(k \<mapsto> bump_r v n)) (parent_id_r n) v"
  by (subst backpropagate_loop_r.simps) simp

lemma backpropagate_loop_r_None: "backpropagate_loop_r ns None v = Some (Inr ns)"
  by (subst backpropagate_loop_r.simps) simp

lemma backpropagate_loop_r_chain:
  "chain L k ks \<Longrightarrow> links_of_r ns = L \<Longrightarrow>
   backpropagate_loop_r ns (Some k) v = Some (Inr (bumped_r v ks ns))"
proof (induction arbitrary: ns rule: chain.induct)
  case (chain_root k)
  then obtain n where n: "ns k = Some n" "parent_id_r n = None"
    by (auto simp: links_of_r_def)
  have "bumped_r v [k] ns = ns(k \<mapsto> bump_r v n)"
    using n(1) by (rule_tac ext) (simp add: bumped_r_def)
  then show ?case
    by (simp only: backpropagate_loop_r_unfold [of ns k n v, OF n(1)] n(2)
        backpropagate_loop_r_None)
next
  case (chain_step k p ps)
  then obtain n where n: "ns k = Some n" "parent_id_r n = Some p"
    by (auto simp: links_of_r_def)
  have L: "links_of_r (ns(k \<mapsto> bump_r v n)) = L"
    using links_of_bump_r [of ns k n v] n(1) chain_step.prems by simp
  have k: "k \<notin> set ps"
    using chain_distinct [OF chain.chain_step [OF chain_step.hyps]] by simp
  have "bumped_r v ps (ns(k \<mapsto> bump_r v n)) = bumped_r v (k # ps) ns"
    using n(1) k by (rule_tac ext) (simp add: bumped_r_def)
  then show ?case
    using chain_step.IH [OF L]
    by (simp only: backpropagate_loop_r_unfold [of ns k n v, OF n(1)] n(2))
qed

text \<open>
  Claim C3. When the parent links lead from node \<open>n\<close> to a node without parent along the ids
  \<open>ks\<close> (pairwise distinct, starting with \<open>n\<close>, ending with the root), back-propagating \<open>v\<close>
  from \<open>n\<close> returns, and in the tree it returns every node on \<open>ks\<close> has its visits
  increased by one and its total increased by \<open>v\<close>, with every other field as before, while
  every node off the path is unchanged. This holds for the transcript engine
  (\<open>visits\<close>, \<open>total_value\<close>) and the rubric engine (\<open>visits_r\<close>, \<open>total_reward\<close>).
\<close>

theorem backpropagate_updates_exactly_the_path:
  "(chain (links_of ns) n ks \<longrightarrow>
      (\<exists>ns'. backpropagate ns n v = Some (Inr ns')
         \<and> (\<forall>j. ns' j =
               (if j \<in> set ks
                then map_option (\<lambda>m. m\<lparr>visits := visits m + 1, total_value := total_value m + v\<rparr>) (ns j)
                else ns j)))
      \<and> distinct ks \<and> hd ks = n \<and> links_of ns (last ks) = Some None
      \<and> set ks \<subseteq> dom ns)
   \<and> (chain (links_of_r rnodes) (node_id_r m) js \<longrightarrow>
      (\<exists>rnodes'. backpropagate_r rnodes m w = Some (Inr rnodes')
         \<and> (\<forall>j. rnodes' j =
               (if j \<in> set js
                then map_option (\<lambda>x. x\<lparr>visits_r := visits_r x + 1, total_reward := total_reward x + w\<rparr>) (rnodes j)
                else rnodes j)))
      \<and> distinct js \<and> hd js = node_id_r m \<and> links_of_r rnodes (last js) = Some None
      \<and> set js \<subseteq> dom rnodes)"
proof (intro conjI impI)
  assume c: "chain (links_of ns) n ks"
  have "backpropagate ns n v = Some (Inr (bumped v ks ns))"
    unfolding backpropagate_def using backpropagate_loop_chain [OF c refl] .
  moreover have "\<forall>j. bumped v ks ns j =
       (if j \<in> set ks
        then map_option (\<lambda>m. m\<lparr>visits := visits m + 1, total_value := total_value m + v\<rparr>) (ns j)
        else ns j)"
    unfolding bumped_def bump_def by simp
  ultimately show "\<exists>ns'. backpropagate ns n v = Some (Inr ns')
         \<and> (\<forall>j. ns' j =
               (if j \<in> set ks
                then map_option (\<lambda>m. m\<lparr>visits := visits m + 1, total_value := total_value m + v\<rparr>) (ns j)
                else ns j))"
    by blast
  show "distinct ks" using chain_distinct [OF c] .
  show "hd ks = n" using chain_head [OF c] by simp
  show "links_of ns (last ks) = Some None" using chain_last_root [OF c] .
  show "set ks \<subseteq> dom ns"
    using chain_in_dom [OF c] by (auto simp: links_of_def)
next
  assume c: "chain (links_of_r rnodes) (node_id_r m) js"
  have "backpropagate_r rnodes m w = Some (Inr (bumped_r w js rnodes))"
    unfolding backpropagate_r_def using backpropagate_loop_r_chain [OF c refl] .
  moreover have "\<forall>j. bumped_r w js rnodes j =
       (if j \<in> set js
        then map_option (\<lambda>x. x\<lparr>visits_r := visits_r x + 1, total_reward := total_reward x + w\<rparr>) (rnodes j)
        else rnodes j)"
    unfolding bumped_r_def bump_r_def by simp
  ultimately show "\<exists>rnodes'. backpropagate_r rnodes m w = Some (Inr rnodes')
         \<and> (\<forall>j. rnodes' j =
               (if j \<in> set js
                then map_option (\<lambda>x. x\<lparr>visits_r := visits_r x + 1, total_reward := total_reward x + w\<rparr>) (rnodes j)
                else rnodes j))"
    by blast
  show "distinct js" using chain_distinct [OF c] .
  show "hd js = node_id_r m" using chain_head [OF c] by simp
  show "links_of_r rnodes (last js) = Some None" using chain_last_root [OF c] .
  show "set js \<subseteq> dom rnodes"
    using chain_in_dom [OF c] by (auto simp: links_of_r_def)
qed

theorem backpropagate_updates_exactly_the_path_witness:
  "(\<exists>ns'. backpropagate demo_nodes ''a'' (8 / 10) = Some (Inr ns')
      \<and> map_option visits (ns' ''r'') = Some 1
      \<and> map_option total_value (ns' ''r'') = Some (8 / 10)
      \<and> map_option visits (ns' ''a'') = Some 1
      \<and> ns' ''b'' = demo_nodes ''b'')
   \<and> (\<exists>rnodes'. backpropagate_r demo_nodes_r ((RubricNode_default ''a'')\<lparr>parent_id_r := Some ''r''\<rparr>) (1 / 2)
          = Some (Inr rnodes')
      \<and> map_option visits_r (rnodes' ''r'') = Some 1
      \<and> map_option total_reward (rnodes' ''a'') = Some (1 / 2)
      \<and> rnodes' ''b'' = demo_nodes_r ''b'')"
proof -
  have c0: "chain (links_of demo_nodes) ''r'' [''r'']"
    by (rule chain_root) (simp add: links_of_def demo_nodes_def new_node_def)
  have c: "chain (links_of demo_nodes) ''a'' [''a'', ''r'']"
    by (rule chain_step [OF _ c0]) (simp add: links_of_def demo_nodes_def new_node_def)
  have cr0: "chain (links_of_r demo_nodes_r) ''r'' [''r'']"
    by (rule chain_root) (simp add: links_of_r_def demo_nodes_r_def RubricNode_default_def)
  have "chain (links_of_r demo_nodes_r) ''a'' [''a'', ''r'']"
    by (rule chain_step [OF _ cr0]) (simp add: links_of_r_def demo_nodes_r_def RubricNode_default_def)
  then have cr: "chain (links_of_r demo_nodes_r)
      (node_id_r ((RubricNode_default ''a'')\<lparr>parent_id_r := Some ''r''\<rparr>)) [''a'', ''r'']"
    by (simp add: RubricNode_default_def)
  note inst = backpropagate_updates_exactly_the_path
    [of demo_nodes "''a''" "[''a'', ''r'']" "8 / 10" demo_nodes_r
      "(RubricNode_default ''a'')\<lparr>parent_id_r := Some ''r''\<rparr>" "[''a'', ''r'']" "1 / 2"]
  from inst c obtain ns' where n': "backpropagate demo_nodes ''a'' (8 / 10) = Some (Inr ns')"
    "\<forall>j. ns' j = (if j \<in> set [''a'', ''r'']
        then map_option (\<lambda>m. m\<lparr>visits := visits m + 1, total_value := total_value m + 8 / 10\<rparr>) (demo_nodes j)
        else demo_nodes j)"
    by blast
  from inst cr obtain rnodes' where r': "backpropagate_r demo_nodes_r ((RubricNode_default ''a'')\<lparr>parent_id_r := Some ''r''\<rparr>) (1 / 2) = Some (Inr rnodes')"
    "\<forall>j. rnodes' j = (if j \<in> set [''a'', ''r'']
        then map_option (\<lambda>x. x\<lparr>visits_r := visits_r x + 1, total_reward := total_reward x + 1 / 2\<rparr>) (demo_nodes_r j)
        else demo_nodes_r j)"
    by blast
  have "map_option visits (ns' ''r'') = Some 1"
    "map_option total_value (ns' ''r'') = Some (8 / 10)"
    "map_option visits (ns' ''a'') = Some 1"
    "ns' ''b'' = demo_nodes ''b''"
    using n'(2) by (simp_all add: demo_nodes_def new_node_def)
  moreover have "map_option visits_r (rnodes' ''r'') = Some 1"
    "map_option total_reward (rnodes' ''a'') = Some (1 / 2)"
    "rnodes' ''b'' = demo_nodes_r ''b''"
    using r'(2) by (simp_all add: demo_nodes_r_def RubricNode_default_def)
  ultimately show ?thesis using n'(1) r'(1) by blast
qed

section \<open>UCB selection\<close>

lemma score_gt_Infinity: "\<not> score_gt k Infinity"
  by (cases k) simp_all

lemma max_key_loop_top:
  "list_all (\<lambda>x. \<exists>k. f x = Inr k) xs \<Longrightarrow> max_key_loop f xs best Infinity = Inr best"
  by (induction xs) (auto simp: score_gt_Infinity)

lemma max_key_loop_first_top:
  "list_all (\<lambda>x. \<exists>k. f x = Inr k) xs \<Longrightarrow> filter (\<lambda>x. f x = Inr Infinity) xs \<noteq> [] \<Longrightarrow>
   max_key_loop f xs best (Finite b) = Inr (hd (filter (\<lambda>x. f x = Inr Infinity) xs))"
proof (induction xs arbitrary: best b)
  case Nil
  then show ?case by simp
next
  case (Cons x xs)
  then obtain k where k: "f x = Inr k" by auto
  have all: "list_all (\<lambda>x. \<exists>k. f x = Inr k) xs" using Cons.prems(1) by simp
  show ?case
  proof (cases k)
    case Infinity
    then show ?thesis using k all by (simp add: max_key_loop_top)
  next
    case (Finite y)
    then have "filter (\<lambda>x. f x = Inr Infinity) xs \<noteq> []"
      using Cons.prems(2) k by simp
    then show ?thesis
      using Finite k Cons.IH [OF all] by simp
  qed
qed

lemma py_max_key_first_top:
  assumes "list_all (\<lambda>x. \<exists>k. f x = Inr k) xs" and "filter (\<lambda>x. f x = Inr Infinity) xs \<noteq> []"
  shows "py_max_key f xs = Inr (hd (filter (\<lambda>x. f x = Inr Infinity) xs))"
proof (cases xs)
  case Nil
  then show ?thesis using assms(2) by simp
next
  case (Cons x rest)
  then obtain k where k: "f x = Inr k" using assms(1) by auto
  have all: "list_all (\<lambda>x. \<exists>k. f x = Inr k) rest" using assms(1) Cons by simp
  show ?thesis
  proof (cases k)
    case Infinity
    then show ?thesis using k all Cons by (simp add: py_max_key_def max_key_loop_top)
  next
    case (Finite y)
    then have "filter (\<lambda>x. f x = Inr Infinity) rest \<noteq> []"
      using assms(2) k Cons by simp
    then show ?thesis
      using Finite k Cons max_key_loop_first_top [OF all] by (simp add: py_max_key_def)
  qed
qed

lemma ucb_score_unvisited: "visits ch = 0 \<Longrightarrow> ucb_score ch pv c = Inr Infinity"
  by (simp add: ucb_score_def)

lemma ucb_score_visited:
  assumes "0 < visits ch" and "1 \<le> pv"
  shows "\<exists>x. ucb_score ch pv c = Inr (Finite x)"
proof -
  have "0 \<le> ln (real_of_int pv)" using assms(2) by simp
  then have "0 \<le> ln (real_of_int pv) / real_of_int (visits ch)"
    using assms(1) by simp
  then have "\<not> ln (real_of_int pv) / real_of_int (visits ch) < 0"
    by (simp only: not_less)
  then show ?thesis
    using assms by (simp add: ucb_score_def py_log_def py_sqrt_def Let_def)
qed

lemma child_key_defined:
  assumes "known_child ns cid" and "1 \<le> pv"
  shows "\<exists>k. child_key ns pv c cid = Inr k"
proof -
  from assms(1) obtain ch where ch: "ns cid = Some ch" "0 \<le> visits ch"
    by (auto simp: known_child_def split: option.splits)
  show ?thesis
  proof (cases "visits ch = 0")
    case True
    then show ?thesis using ch by (simp add: child_key_def ucb_score_unvisited)
  next
    case False
    then have "0 < visits ch" using ch(2) by simp
    from ucb_score_visited [OF this assms(2)] obtain x where "ucb_score ch pv c = Inr (Finite x)"
      by blast
    then show ?thesis
      using ch by (simp add: child_key_def)
  qed
qed

lemma child_key_Infinity:
  assumes "known_child ns cid" and "1 \<le> pv"
  shows "(child_key ns pv c cid = Inr Infinity) = unvisited ns cid"
proof -
  from assms(1) obtain ch where ch: "ns cid = Some ch" "0 \<le> visits ch"
    by (auto simp: known_child_def split: option.splits)
  show ?thesis
  proof (cases "visits ch = 0")
    case True
    then show ?thesis using ch by (simp add: child_key_def ucb_score_unvisited unvisited_def)
  next
    case False
    then have "0 < visits ch" using ch(2) by simp
    from ucb_score_visited [OF this assms(2)] obtain x where "ucb_score ch pv c = Inr (Finite x)"
      by blast
    then show ?thesis
      using ch False by (simp add: child_key_def unvisited_def)
  qed
qed

lemma max_key_loop_defined:
  "list_all (\<lambda>x. \<exists>k. f x = Inr k) xs \<Longrightarrow> \<exists>b. max_key_loop f xs best bk = Inr b \<and> (b = best \<or> b \<in> set xs)"
proof (induction xs arbitrary: best bk)
  case Nil
  then show ?case by simp
next
  case (Cons x xs)
  then obtain k where k: "f x = Inr k" by auto
  have all: "list_all (\<lambda>x. \<exists>k. f x = Inr k) xs" using Cons.prems by simp
  show ?case
  proof (cases "score_gt k bk")
    case True
    from Cons.IH [OF all, of x k] obtain b where "max_key_loop f xs x k = Inr b" "b = x \<or> b \<in> set xs"
      by blast
    then show ?thesis using k True by auto
  next
    case False
    from Cons.IH [OF all, of best bk] obtain b where "max_key_loop f xs best bk = Inr b" "b = best \<or> b \<in> set xs"
      by blast
    then show ?thesis using k False by auto
  qed
qed

lemma py_max_key_defined:
  assumes "list_all (\<lambda>x. \<exists>k. f x = Inr k) xs" and "xs \<noteq> []"
  shows "\<exists>b. py_max_key f xs = Inr b \<and> b \<in> set xs"
proof (cases xs)
  case Nil
  then show ?thesis using assms(2) by simp
next
  case (Cons x rest)
  then obtain k where k: "f x = Inr k" using assms(1) by auto
  have all: "list_all (\<lambda>x. \<exists>k. f x = Inr k) rest" using assms(1) Cons by simp
  from max_key_loop_defined [OF all, of x k] obtain b where
    "max_key_loop f rest x k = Inr b" "b = x \<or> b \<in> set rest" by blast
  then show ?thesis using k Cons by (auto simp: py_max_key_def)
qed

lemma select_leaf: "is_leaf ns b \<Longrightarrow> select ns c b = Some (Inr b)"
  by (subst select.simps) (simp add: is_leaf_def split: option.splits)

text \<open>
  Claim C2. In the transcript engine an unvisited node scores \<open>Infinity\<close>, whatever the parent's
  visits; a node with positive visits scores a finite value against a parent visit count
  floored at one, and \<open>Infinity\<close> is greater than every finite score. Take a node \<open>p\<close>, stored
  under \<open>pid\<close>, whose children are all in the tree with non-negative visits. If it has
  children, then whatever its own visit count, zero included, the \<open>max\<close> of \<open>_select\<close> raises
  nothing and picks one of the children, \<open>_select\<close> goes on from that child, and when the
  children are leaves \<open>_select\<close> returns one of them. If one of the children is unvisited,
  the child picked is the first unvisited one, whatever the values and visits of its
  siblings; \<open>_select\<close> goes on from it and returns it when it is a leaf. At a node without
  children \<open>_select\<close> returns the node itself.
\<close>

theorem ucb_unvisited_child_first:
  assumes "ns pid = Some p"
    and "list_all (known_child ns) (children p)"
  shows "(\<forall>ch pv. visits ch = 0 \<longrightarrow> ucb_score ch pv c = Inr Infinity)
     \<and> (\<forall>ch. 0 < visits ch \<longrightarrow> (\<exists>x. ucb_score ch (max (visits p) 1) c = Inr (Finite x)))
     \<and> (\<forall>x. score_gt Infinity (Finite x))
     \<and> (\<exists>l. py_log (real_of_int (max (visits p) 1)) = Inr l)
     \<and> (children p = [] \<longrightarrow> select ns c pid = Some (Inr pid))
     \<and> (children p \<noteq> [] \<longrightarrow>
          (\<exists>b. b \<in> set (children p)
             \<and> py_max_key (child_key ns (max (visits p) 1) c) (children p) = Inr b
             \<and> select ns c pid = select ns c b
             \<and> (list_all (is_leaf ns) (children p) \<longrightarrow> select ns c pid = Some (Inr b))))
     \<and> (filter (unvisited ns) (children p) \<noteq> [] \<longrightarrow>
          py_max_key (child_key ns (max (visits p) 1) c) (children p)
             = Inr (hd (filter (unvisited ns) (children p)))
          \<and> unvisited ns (hd (filter (unvisited ns) (children p)))
          \<and> select ns c pid = select ns c (hd (filter (unvisited ns) (children p)))
          \<and> (is_leaf ns (hd (filter (unvisited ns) (children p))) \<longrightarrow>
                select ns c pid = Some (Inr (hd (filter (unvisited ns) (children p))))))"
proof -
  let ?pv = "max (visits p) 1"
  let ?f = "child_key ns ?pv c"
  let ?b0 = "hd (filter (unvisited ns) (children p))"
  have pv: "1 \<le> ?pv" by simp
  have all: "list_all (\<lambda>x. \<exists>k. ?f x = Inr k) (children p)"
    using assms(2) child_key_defined [OF _ pv] by (auto simp: list_all_iff)
  have step: "select ns c pid = select ns c b"
    if "children p \<noteq> []" and "py_max_key ?f (children p) = Inr b" for b
    using that by (subst select.simps) (simp add: assms(1) Let_def)
  have leaf: "children p = [] \<longrightarrow> select ns c pid = Some (Inr pid)"
    by (subst select.simps) (simp add: assms(1))
  have some: "children p \<noteq> [] \<longrightarrow>
          (\<exists>b. b \<in> set (children p)
             \<and> py_max_key ?f (children p) = Inr b
             \<and> select ns c pid = select ns c b
             \<and> (list_all (is_leaf ns) (children p) \<longrightarrow> select ns c pid = Some (Inr b)))"
  proof
    assume ne: "children p \<noteq> []"
    from py_max_key_defined [OF all ne] obtain b where
      b: "py_max_key ?f (children p) = Inr b" "b \<in> set (children p)" by blast
    have s: "select ns c pid = select ns c b" using step [OF ne b(1)] .
    have "list_all (is_leaf ns) (children p) \<longrightarrow> select ns c pid = Some (Inr b)"
      using b(2) s select_leaf [of ns b c] by (auto simp: list_all_iff)
    then show "\<exists>b. b \<in> set (children p)
             \<and> py_max_key ?f (children p) = Inr b
             \<and> select ns c pid = select ns c b
             \<and> (list_all (is_leaf ns) (children p) \<longrightarrow> select ns c pid = Some (Inr b))"
      using b s by blast
  qed
  have first: "filter (unvisited ns) (children p) \<noteq> [] \<longrightarrow>
          py_max_key ?f (children p) = Inr ?b0
          \<and> unvisited ns ?b0
          \<and> select ns c pid = select ns c ?b0
          \<and> (is_leaf ns ?b0 \<longrightarrow> select ns c pid = Some (Inr ?b0))"
  proof
    assume unv: "filter (unvisited ns) (children p) \<noteq> []"
    have filt: "filter (\<lambda>x. ?f x = Inr Infinity) (children p) = filter (unvisited ns) (children p)"
      using assms(2) child_key_Infinity [OF _ pv] by (intro filter_cong) (auto simp: list_all_iff)
    have best: "py_max_key ?f (children p) = Inr ?b0"
      using py_max_key_first_top [OF all] unv filt by simp
    have "?b0 \<in> set (filter (unvisited ns) (children p))"
      using unv by (rule hd_in_set)
    then have u: "unvisited ns ?b0" by simp
    have ne: "children p \<noteq> []" using unv by auto
    have s: "select ns c pid = select ns c ?b0" using step [OF ne best] .
    have "is_leaf ns ?b0 \<longrightarrow> select ns c pid = Some (Inr ?b0)"
      using s select_leaf [of ns ?b0 c] by simp
    then show "py_max_key ?f (children p) = Inr ?b0
          \<and> unvisited ns ?b0
          \<and> select ns c pid = select ns c ?b0
          \<and> (is_leaf ns ?b0 \<longrightarrow> select ns c pid = Some (Inr ?b0))"
      using best u s by blast
  qed
  have lg: "\<exists>l. py_log (real_of_int (max (visits p) 1)) = Inr l"
    by (simp add: py_log_def)
  have sc: "\<forall>ch pv. visits ch = 0 \<longrightarrow> ucb_score ch pv c = Inr Infinity"
    "\<forall>ch. 0 < visits ch \<longrightarrow> (\<exists>x. ucb_score ch (max (visits p) 1) c = Inr (Finite x))"
    "\<forall>x. score_gt Infinity (Finite x)"
    using ucb_score_unvisited ucb_score_visited [OF _ pv] by simp_all
  show ?thesis
    using sc lg leaf some first by blast
qed

text \<open>
  In the tree \<open>demo_visited\<close> the root has the children \<open>a\<close>, visited once with value 0.8, and
  \<open>b\<close>, unvisited: \<open>_select\<close> returns \<open>b\<close>. In the tree \<open>demo_floor\<close> the root has no visits and both
  children have one: \<open>_select\<close> returns \<open>b\<close>, the child of greater value, where a logarithm of
  the root's own count would raise.
\<close>

theorem ucb_unvisited_child_first_witness:
  "select demo_visited (1414 / 1000) ''r'' = Some (Inr ''b'')
   \<and> ucb_score (the (demo_visited ''a'')) 1 (1414 / 1000) = Inr (Finite (8 / 10))
   \<and> ucb_score (the (demo_visited ''b'')) 1 (1414 / 1000) = Inr Infinity
   \<and> select demo_floor (1414 / 1000) ''r'' = Some (Inr ''b'')
   \<and> py_log (real_of_int (visits (the (demo_floor ''r'')))) = Inl (ValueError ''math domain error'')"
proof -
  let ?r = "(new_node ''r'' ''q'' ''question'' None 0)
              \<lparr>children := [''a'', ''b''], visits := 1, total_value := 8 / 10\<rparr>"
  let ?z = "(new_node ''r'' ''q'' ''question'' None 0)\<lparr>children := [''a'', ''b'']\<rparr>"
  have p: "demo_visited ''r'' = Some ?r"
    by (simp add: demo_visited_def)
  have ch: "children ?r = [''a'', ''b'']" by (simp add: new_node_def)
  have kc: "list_all (known_child demo_visited) (children ?r)"
    by (simp add: known_child_def demo_visited_def demo_nodes_def new_node_def)
  have f: "filter (unvisited demo_visited) (children ?r) = [''b'']"
    by (simp add: unvisited_def demo_visited_def demo_nodes_def new_node_def)
  have lf: "is_leaf demo_visited ''b''"
    by (simp add: is_leaf_def demo_visited_def demo_nodes_def new_node_def)
  note inst = ucb_unvisited_child_first [of demo_visited "''r''" ?r "1414 / 1000", OF p kc]
  have ne: "filter (unvisited demo_visited) (children ?r) \<noteq> []" using f by simp
  have h: "hd (filter (unvisited demo_visited) (children ?r)) = ''b''" using f by simp
  from inst ne have "is_leaf demo_visited (hd (filter (unvisited demo_visited) (children ?r))) \<longrightarrow>
      select demo_visited (1414 / 1000) ''r''
        = Some (Inr (hd (filter (unvisited demo_visited) (children ?r))))"
    by blast
  then have 1: "select demo_visited (1414 / 1000) ''r'' = Some (Inr ''b'')"
    unfolding h using lf by blast
  have p0: "demo_floor ''r'' = Some ?z"
    by (simp add: demo_floor_def demo_nodes_def)
  have ch0: "children ?z = [''a'', ''b'']" by (simp add: new_node_def)
  have kc0: "list_all (known_child demo_floor) (children ?z)"
    by (simp add: known_child_def demo_floor_def demo_nodes_def new_node_def)
  have lf0: "list_all (is_leaf demo_floor) (children ?z)"
    by (simp add: is_leaf_def demo_floor_def demo_nodes_def new_node_def)
  have mk: "py_max_key (child_key demo_floor (max (visits ?z) 1) (1414 / 1000)) (children ?z) = Inr ''b''"
    by (simp add: py_max_key_def child_key_def ucb_score_def py_log_def py_sqrt_def demo_floor_def
        demo_nodes_def new_node_def)
  note inst0 = ucb_unvisited_child_first [of demo_floor "''r''" ?z "1414 / 1000", OF p0 kc0]
  have ne0: "children ?z \<noteq> []" using ch0 by simp
  from inst0 ne0 obtain b where
    b: "py_max_key (child_key demo_floor (max (visits ?z) 1) (1414 / 1000)) (children ?z) = Inr b"
      "list_all (is_leaf demo_floor) (children ?z) \<longrightarrow> select demo_floor (1414 / 1000) ''r'' = Some (Inr b)"
    by blast
  have "b = ''b''" using b(1) mk by simp
  then have 2: "select demo_floor (1414 / 1000) ''r'' = Some (Inr ''b'')"
    using b(2) lf0 by blast
  have a: "ucb_score (the (demo_visited ''a'')) 1 (1414 / 1000) = Inr (Finite (8 / 10))"
    by (simp add: ucb_score_def py_log_def py_sqrt_def demo_visited_def new_node_def)
  have b: "ucb_score (the (demo_visited ''b'')) 1 (1414 / 1000) = Inr Infinity"
    by (simp add: ucb_score_def demo_visited_def demo_nodes_def new_node_def)
  have l: "py_log (real_of_int (visits (the (demo_floor ''r'')))) = Inl (ValueError ''math domain error'')"
    by (simp add: py_log_def demo_floor_def demo_nodes_def new_node_def)
  show ?thesis
    using 1 2 a b l by blast
qed

section \<open>Dicts\<close>

lemma map_of_dict_set: "map_of (dict_set k v d) = (map_of d)(k \<mapsto> v)"
  by (induction d) (auto simp: fun_eq_iff)

lemma keys_dict_set: "fst ` set (dict_set k v d) = insert k (fst ` set d)"
  by (induction d) auto

lemma distinct_dict_set: "distinct (map fst d) \<Longrightarrow> distinct (map fst (dict_set k v d))"
proof (induction d)
  case Nil
  then show ?case by simp
next
  case (Cons p ps)
  have "fst ` set (dict_set k v ps) = insert k (fst ` set ps)" by (rule keys_dict_set)
  then show ?case using Cons by auto
qed

lemma set_dict_set: "set (dict_set k v d) \<subseteq> insert (k, v) (set d)"
  by (induction d) auto

lemma persist_Nil: "persist g [] l = l"
  by (simp add: persist_def)

lemma persist_Cons:
  "persist g (kv # c) l =
     persist g c (if map_of g (fst kv) = None \<and> \<not> startswith (fst kv) ''_''
                  then dict_set (fst kv) (snd kv) l else l)"
  by (simp add: persist_def)

lemma persist_filtered:
  "startswith k ''_'' \<or> map_of g k \<noteq> None \<Longrightarrow> map_of (persist g c l) k = map_of l k"
proof (induction c arbitrary: l)
  case Nil
  then show ?case by (simp add: persist_Nil)
next
  case (Cons kv c)
  show ?case
    using Cons.prems Cons.IH by (auto simp: persist_Cons map_of_dict_set)
qed



lemma distinct_persist: "distinct (map fst l) \<Longrightarrow> distinct (map fst (persist g c l))"
  by (induction c arbitrary: l) (simp_all add: persist_Nil persist_Cons distinct_dict_set)

lemma dict_merge_Nil: "dict_merge a [] = a"
  by (simp add: dict_merge_def)

lemma dict_merge_Cons: "dict_merge a (kv # b) = dict_merge (dict_set (fst kv) (snd kv) a) b"
  by (simp add: dict_merge_def)

lemma dict_merge_other: "k \<notin> fst ` set b \<Longrightarrow> map_of (dict_merge a b) k = map_of a k"
  by (induction b arbitrary: a) (auto simp: dict_merge_Nil dict_merge_Cons map_of_dict_set)

lemma dict_merge_binds:
  "distinct (map fst b) \<Longrightarrow> map_of b k = Some v \<Longrightarrow> map_of (dict_merge a b) k = Some v"
proof (induction b arbitrary: a)
  case Nil
  then show ?case by simp
next
  case (Cons kv b)
  show ?case
  proof (cases "fst kv = k")
    case True
    then have v: "snd kv = v" using Cons.prems(2) by (cases kv) simp
    have "k \<notin> fst ` set b" using Cons.prems(1) True by auto
    then show ?thesis
      using True v by (simp add: dict_merge_Cons dict_merge_other map_of_dict_set)
  next
    case False
    then have "map_of b k = Some v" using Cons.prems(2) by (cases kv) auto
    then show ?thesis
      using Cons.IH Cons.prems(1) by (simp add: dict_merge_Cons)
  qed
qed

section \<open>The snapshot\<close>

lemma length_snap_repr: "length (snap_repr I v) \<le> 200"
  by (simp add: snap_repr_def split: sum.split)

lemma safe_snapshot_fold:
  "list_all (snap_ok I (l0 @ l)) acc \<Longrightarrow>
   list_all (snap_ok I (l0 @ l))
     (foldl (\<lambda>snap kv. if startswith (fst kv) ''_'' \<or> fst kv = ''context'' then snap
                         else dict_set (fst kv) (snap_repr I (snd kv)) snap) acc l)"
proof (induction l arbitrary: acc l0)
  case Nil
  then show ?case by simp
next
  case (Cons kv l)
  let ?acc' = "if startswith (fst kv) ''_'' \<or> fst kv = ''context'' then acc
               else dict_set (fst kv) (snap_repr I (snd kv)) acc"
  have "list_all (snap_ok I (l0 @ kv # l)) ?acc'"
  proof (cases "startswith (fst kv) ''_'' \<or> fst kv = ''context''")
    case True
    then show ?thesis using Cons.prems by simp
  next
    case False
    have new: "snap_ok I (l0 @ kv # l) (fst kv, snap_repr I (snd kv))"
      using False by (auto simp: snap_ok_def length_snap_repr intro!: exI [of _ "snd kv"])
    have "set (dict_set (fst kv) (snap_repr I (snd kv)) acc)
        \<subseteq> insert (fst kv, snap_repr I (snd kv)) (set acc)"
      by (rule set_dict_set)
    then show ?thesis
      using False new Cons.prems by (auto simp: list_all_iff)
  qed
  then have "list_all (snap_ok I ((l0 @ [kv]) @ l)) ?acc'" by simp
  from Cons.IH [OF this] show ?case by simp
qed

lemma safe_snapshot_ok: "list_all (snap_ok I l) (safe_snapshot I l)"
  using safe_snapshot_fold [of I "[]" l "[]"] by (simp add: safe_snapshot_def)

section \<open>The transcript sandbox\<close>

lemma execute_globals: "globals (snd (execute I el src env)) = ns_out (imports_out I src env)"
  by (simp add: execute_def imports_out_def Let_def split: option.split)

lemma execute_locals:
  "locals (snd (execute I el src env)) =
     (if raised (imports_out I src env) = None \<and> other_lines src \<noteq> []
         \<and> raised (others_out I src env) = None
      then persist (ns_out (imports_out I src env)) (ns_out (others_out I src env)) (locals env)
      else locals env)"
  by (simp add: execute_def imports_out_def others_out_def Let_def split: option.split)

lemma execute_snapshot:
  "locals_snapshot (fst (execute I el src env)) = safe_snapshot I (locals (snd (execute I el src env)))"
  by (simp add: execute_def imports_out_def others_out_def Let_def split: option.split)


lemma execute_reset: "execute I el src (env\<lparr>llm_call_count := n\<rparr>) = execute I el src env"
  by (simp add: execute_def run_imports_def Let_def split: option.split)

lemma dict_merge_lookup:
  assumes "distinct (map fst b)"
  shows "map_of (dict_merge a b) k = (case map_of b k of Some v \<Rightarrow> Some v | None \<Rightarrow> map_of a k)"
proof (cases "map_of b k")
  case None
  then have "k \<notin> fst ` set b" by (simp add: map_of_eq_None_iff)
  then show ?thesis using None by (simp add: dict_merge_other)
next
  case (Some v)
  then show ?thesis using dict_merge_binds [OF assms Some] by simp
qed

lemma execute_globals_no_imports:
  "import_lines src = [] \<Longrightarrow> globals (snd (execute I el src env)) = globals env"
  by (simp add: execute_globals imports_out_def run_imports_def)

lemma execute_locals_distinct:
  "distinct (map fst (locals env)) \<Longrightarrow> distinct (map fst (locals (snd (execute I el src env))))"
  by (simp add: execute_locals distinct_persist)


text \<open>
  Claim C10 (amended). After \<open>execute\<close>, whatever the interpreter did, the session locals are
  as before the call at every name that starts with an underscore and at every name that
  is a key of the session globals (\<open>llm_query\<close>, \<open>FINAL_VAR\<close> and \<open>__builtins__\<close> are keys from the
  construction on): a binding of such a name by a non-import line is not persisted. The
  session globals after the call are the namespace that the import phase left, with no
  filter on the names; a call without import lines leaves them as they were, and then the
  namespace of the next call, globals overlaid with locals, is as before the call at every
  filtered name. No key of the returned snapshot is \<open>context\<close> or starts with an underscore;
  each value is that of a session local, its \<open>repr\<close> cut to 200 characters, or the marker
  when \<open>repr\<close> raised.
\<close>

theorem execute_persists_filtered_names:
  "(\<forall>k. startswith k ''_'' \<or> map_of (globals (snd (execute I el src env))) k \<noteq> None \<longrightarrow>
         map_of (locals (snd (execute I el src env))) k = map_of (locals env) k)
   \<and> globals (snd (execute I el src env)) = ns_out (imports_out I src env)
   \<and> (import_lines src = [] \<longrightarrow> globals (snd (execute I el src env)) = globals env)
   \<and> (import_lines src = [] \<and> distinct (map fst (locals env)) \<longrightarrow>
         (\<forall>k. startswith k ''_'' \<or> map_of (globals env) k \<noteq> None \<longrightarrow>
            map_of (combined_ns (globals (snd (execute I el src env)))
                      (locals (snd (execute I el src env)))) k
              = map_of (combined_ns (globals env) (locals env)) k))
   \<and> (\<forall>k r. (k, r) \<in> set (locals_snapshot (fst (execute I el src env))) \<longrightarrow>
         k \<noteq> ''context'' \<and> \<not> startswith k ''_'' \<and> length r \<le> 200
         \<and> (\<exists>v. (k, v) \<in> set (locals (snd (execute I el src env)))
               \<and> r = (case py_repr I v of Inr s \<Rightarrow> take 200 s | Inl e \<Rightarrow> ''<unrepresentable>'')))
   \<and> map_of (globals (REPLEnv_init c p)) ''llm_query'' \<noteq> None
   \<and> map_of (globals (REPLEnv_init c p)) ''FINAL_VAR'' \<noteq> None
   \<and> map_of (globals (REPLEnv_init c p)) ''__builtins__'' \<noteq> None"
proof -
  have a: "\<forall>k. startswith k ''_'' \<or> map_of (globals (snd (execute I el src env))) k \<noteq> None \<longrightarrow>
         map_of (locals (snd (execute I el src env))) k = map_of (locals env) k"
    by (simp add: execute_globals execute_locals persist_filtered)
  have g: "globals (snd (execute I el src env)) = ns_out (imports_out I src env)"
    by (rule execute_globals)
  have g0: "import_lines src = [] \<longrightarrow> globals (snd (execute I el src env)) = globals env"
    by (simp add: execute_globals_no_imports)
  have n: "import_lines src = [] \<and> distinct (map fst (locals env)) \<longrightarrow>
         (\<forall>k. startswith k ''_'' \<or> map_of (globals env) k \<noteq> None \<longrightarrow>
            map_of (combined_ns (globals (snd (execute I el src env)))
                      (locals (snd (execute I el src env)))) k
              = map_of (combined_ns (globals env) (locals env)) k)"
  proof (intro impI allI)
    fix k
    assume h: "import_lines src = [] \<and> distinct (map fst (locals env))"
      and f: "startswith k ''_'' \<or> map_of (globals env) k \<noteq> None"
    have ge: "globals (snd (execute I el src env)) = globals env"
      using h by (simp add: execute_globals_no_imports)
    from a have "startswith k ''_'' \<or> map_of (globals (snd (execute I el src env))) k \<noteq> None \<longrightarrow>
         map_of (locals (snd (execute I el src env))) k = map_of (locals env) k"
      by (rule spec)
    then have le: "map_of (locals (snd (execute I el src env))) k = map_of (locals env) k"
      unfolding ge using f by (rule mp)
    have d: "distinct (map fst (locals (snd (execute I el src env))))"
      using h by (simp add: execute_locals_distinct)
    show "map_of (combined_ns (globals (snd (execute I el src env)))
                      (locals (snd (execute I el src env)))) k
              = map_of (combined_ns (globals env) (locals env)) k"
      using h by (simp add: combined_ns_def dict_merge_lookup [OF d] dict_merge_lookup ge le)
  qed
  have r: "\<And>v. snap_repr I v = (case py_repr I v of Inr s \<Rightarrow> take 200 s | Inl e \<Rightarrow> ''<unrepresentable>'')"
    by (simp add: snap_repr_def split: sum.split)
  have b: "\<forall>k r. (k, r) \<in> set (locals_snapshot (fst (execute I el src env))) \<longrightarrow>
         k \<noteq> ''context'' \<and> \<not> startswith k ''_'' \<and> length r \<le> 200
         \<and> (\<exists>v. (k, v) \<in> set (locals (snd (execute I el src env)))
               \<and> r = (case py_repr I v of Inr s \<Rightarrow> take 200 s | Inl e \<Rightarrow> ''<unrepresentable>''))"
    using safe_snapshot_ok [of I "locals (snd (execute I el src env))"]
    unfolding execute_snapshot list_all_iff snap_ok_def r by fastforce
  have c: "map_of (globals (REPLEnv_init c p)) ''llm_query'' \<noteq> None"
    "map_of (globals (REPLEnv_init c p)) ''FINAL_VAR'' \<noteq> None"
    "map_of (globals (REPLEnv_init c p)) ''__builtins__'' \<noteq> None"
    by (simp_all add: REPLEnv_init_def)
  show ?thesis using a g g0 n b c by blast
qed

lemma demo_hidden_run:
  "execute demo_mini 5 ''_tmp = 1\<newline>llm_query = 2\<newline>y = 3'' demo_env =
     (\<lparr>stdout = [], stderr = [],
       locals_snapshot = [(''context_path'', [CHR 0x27] @ ''/tmp/context.txt'' @ [CHR 0x27]), (''y'', ''3'')],
       execution_time_ms = 5, success = True\<rparr>,
      \<lparr>globals = globals demo_env,
       locals = [(''context'', PyStr ''hello''), (''context_path'', PyStr ''/tmp/context.txt''), (''y'', PyInt 3)],
       llm_call_count = 0\<rparr>)"
  by code_simp

text \<open>
  The lines \<open>_tmp = 1\<close>, \<open>llm_query = 2\<close> and \<open>y = 3\<close>: only \<open>y\<close> reaches the session locals and the
  snapshot, the globals are as before, and the next call finds \<open>llm_query\<close> bound to the
  injected function and \<open>_tmp\<close> unbound.
\<close>

theorem execute_persists_filtered_names_witness:
  "map_of (locals (snd (execute demo_mini 5 ''_tmp = 1\<newline>llm_query = 2\<newline>y = 3'' demo_env))) ''_tmp'' = None
   \<and> map_of (locals (snd (execute demo_mini 5 ''_tmp = 1\<newline>llm_query = 2\<newline>y = 3'' demo_env))) ''llm_query'' = None
   \<and> map_of (locals (snd (execute demo_mini 5 ''_tmp = 1\<newline>llm_query = 2\<newline>y = 3'' demo_env))) ''y'' = Some (PyInt 3)
   \<and> locals_snapshot (fst (execute demo_mini 5 ''_tmp = 1\<newline>llm_query = 2\<newline>y = 3'' demo_env))
       = [(''context_path'', [CHR 0x27] @ ''/tmp/context.txt'' @ [CHR 0x27]), (''y'', ''3'')]
   \<and> globals (snd (execute demo_mini 5 ''_tmp = 1\<newline>llm_query = 2\<newline>y = 3'' demo_env)) = globals demo_env
   \<and> map_of (combined_ns (globals (snd (execute demo_mini 5 ''_tmp = 1\<newline>llm_query = 2\<newline>y = 3'' demo_env)))
        (locals (snd (execute demo_mini 5 ''_tmp = 1\<newline>llm_query = 2\<newline>y = 3'' demo_env)))) ''llm_query''
       = Some (PyFunction ''llm_query'')
   \<and> map_of (combined_ns (globals (snd (execute demo_mini 5 ''_tmp = 1\<newline>llm_query = 2\<newline>y = 3'' demo_env)))
        (locals (snd (execute demo_mini 5 ''_tmp = 1\<newline>llm_query = 2\<newline>y = 3'' demo_env)))) ''_tmp''
       = None"
proof -
  let ?src = "''_tmp = 1\<newline>llm_query = 2\<newline>y = 3''"
  note inst = execute_persists_filtered_names [of demo_mini 5 ?src demo_env]
  have il: "import_lines ?src = []" by code_simp
  have d: "distinct (map fst (locals demo_env))" by code_simp
  have g: "map_of (globals demo_env) ''llm_query'' \<noteq> None" by code_simp
  have u: "startswith ''_tmp'' ''_''" by code_simp
  have ge: "globals (snd (execute demo_mini 5 ?src demo_env)) = globals demo_env"
    using inst il by blast
  have "map_of (locals (snd (execute demo_mini 5 ?src demo_env))) ''_tmp'' = map_of (locals demo_env) ''_tmp''"
    using inst u by blast
  moreover have "map_of (locals (snd (execute demo_mini 5 ?src demo_env))) ''llm_query''
      = map_of (locals demo_env) ''llm_query''"
    using inst g ge by simp
  moreover have "map_of (combined_ns (globals (snd (execute demo_mini 5 ?src demo_env)))
        (locals (snd (execute demo_mini 5 ?src demo_env)))) ''llm_query''
      = map_of (combined_ns (globals demo_env) (locals demo_env)) ''llm_query''"
    using inst il d g by blast
  moreover have "map_of (combined_ns (globals (snd (execute demo_mini 5 ?src demo_env)))
        (locals (snd (execute demo_mini 5 ?src demo_env)))) ''_tmp''
      = map_of (combined_ns (globals demo_env) (locals demo_env)) ''_tmp''"
    using inst il d u by blast
  moreover have "map_of (locals demo_env) ''_tmp'' = None" "map_of (locals demo_env) ''llm_query'' = None"
    "map_of (combined_ns (globals demo_env) (locals demo_env)) ''llm_query'' = Some (PyFunction ''llm_query'')"
    "map_of (combined_ns (globals demo_env) (locals demo_env)) ''_tmp'' = None"
    by code_simp+
  moreover have "map_of (locals (snd (execute demo_mini 5 ?src demo_env))) ''y'' = Some (PyInt 3)"
    "locals_snapshot (fst (execute demo_mini 5 ?src demo_env))
       = [(''context_path'', [CHR 0x27] @ ''/tmp/context.txt'' @ [CHR 0x27]), (''y'', ''3'')]"
    by (simp_all add: demo_hidden_run)
  ultimately show ?thesis using ge by simp
qed

text \<open>
  Claim C10 as stated fails for a name bound by an import line: \<open>import re as _re\<close> binds the
  underscore name \<open>_re\<close> in the session globals, where the next call \<open>y = _re\<close> finds it; and
  \<open>import json as llm_query\<close> replaces the injected \<open>llm_query\<close> for all later calls.
\<close>

theorem import_line_binding_persists_counterexample:
  "startswith ''_re'' ''_''
   \<and> success (fst (execute demo_mini 5 ''import re as _re'' demo_env))
   \<and> map_of (globals (snd (execute demo_mini 5 ''import re as _re'' demo_env))) ''_re''
        = Some (PyModule ''re'')
   \<and> success (fst (execute demo_mini 5 ''y = _re''
        (snd (execute demo_mini 5 ''import re as _re'' demo_env))))
   \<and> map_of (locals (snd (execute demo_mini 5 ''y = _re''
        (snd (execute demo_mini 5 ''import re as _re'' demo_env))))) ''y'' = Some (PyModule ''re'')
   \<and> map_of (globals demo_env) ''llm_query'' = Some (PyFunction ''llm_query'')
   \<and> map_of (globals (snd (execute demo_mini 5 ''import json as llm_query'' demo_env))) ''llm_query''
        = Some (PyModule ''json'')"
  by code_simp

lemma llm_query_count: "snd (llm_query provider p n) = n + 1"
  by (simp add: llm_query_def Let_def split: sum.split)

lemma llm_query_result:
  "fst (llm_query provider p n) =
     (if n < 3 then map_sum (\<lambda>e. e) strip (provider (truncate_prompt p)) else Inr llm_limit_sentinel)"
  by (auto simp: llm_query_def max_llm_calls_def Let_def split: sum.split)

lemma llm_query_seq_length: "length (llm_query_seq provider ps n) = length ps"
  by (induction ps arbitrary: n) simp_all

lemma llm_query_seq_nth:
  "i < length ps \<Longrightarrow>
   llm_query_seq provider ps n ! i =
     (if n + i < 3 then map_sum (\<lambda>e. e) strip (provider (truncate_prompt (ps ! i)))
      else Inr llm_limit_sentinel)"
proof (induction ps arbitrary: n i)
  case Nil
  then show ?case by simp
next
  case (Cons p ps)
  show ?case
  proof (cases i)
    case 0
    then show ?thesis by (simp add: llm_query_result)
  next
    case (Suc j)
    then have "j < length ps" using Cons.prems by simp
    from Cons.IH [OF this, of "n + 1"] show ?thesis
      using Suc by (simp add: llm_query_count)
  qed
qed

text \<open>
  Claim C8. \<open>execute\<close> does not depend on the counter it finds: it sets the counter to zero
  before anything runs, so the import lines start from zero. From zero, the calls of
  \<open>llm_query\<close> in one execution behave as follows: each of the first three hands the prompt
  (cut to 100000 characters) to the provider and returns the stripped reply, or raises what
  the provider raised; every later call returns the sentinel. Four prints of a call in one
  block print three replies and the sentinel, and so does the same block run again.
\<close>

theorem llm_query_capped_per_execute:
  "execute I el src (env\<lparr>llm_call_count := n\<rparr>) = execute I el src env
   \<and> imports_out I src env = run_imports I src (env\<lparr>llm_call_count := 0\<rparr>)
   \<and> length (llm_query_seq provider ps 0) = length ps
   \<and> (\<forall>i < length ps.
         llm_query_seq provider ps 0 ! i =
           (if i < 3 then map_sum (\<lambda>e. e) strip (provider (truncate_prompt (ps ! i)))
            else Inr llm_limit_sentinel))
   \<and> stdout (fst (execute demo_mini 5
        ''print(llm_query('a'))\<newline>print(llm_query('b'))\<newline>print(llm_query('c'))\<newline>print(llm_query('d'))''
        demo_env))
       = ''re: a\<newline>re: b\<newline>re: c\<newline>'' @ llm_limit_sentinel @ ''\<newline>''
   \<and> stdout (fst (execute demo_mini 5
        ''print(llm_query('a'))\<newline>print(llm_query('b'))\<newline>print(llm_query('c'))\<newline>print(llm_query('d'))''
        (snd (execute demo_mini 5
        ''print(llm_query('a'))\<newline>print(llm_query('b'))\<newline>print(llm_query('c'))\<newline>print(llm_query('d'))''
        demo_env))))
       = ''re: a\<newline>re: b\<newline>re: c\<newline>'' @ llm_limit_sentinel @ ''\<newline>''"
proof -
  have a: "execute I el src (env\<lparr>llm_call_count := n\<rparr>) = execute I el src env"
    by (rule execute_reset)
  have b: "imports_out I src env = run_imports I src (env\<lparr>llm_call_count := 0\<rparr>)"
    by (simp add: imports_out_def)
  have c: "\<forall>i < length ps.
         llm_query_seq provider ps 0 ! i =
           (if i < 3 then map_sum (\<lambda>e. e) strip (provider (truncate_prompt (ps ! i)))
            else Inr llm_limit_sentinel)"
    using llm_query_seq_nth [of _ ps provider 0] by simp
  have d: "stdout (fst (execute demo_mini 5
        ''print(llm_query('a'))\<newline>print(llm_query('b'))\<newline>print(llm_query('c'))\<newline>print(llm_query('d'))''
        demo_env))
       = ''re: a\<newline>re: b\<newline>re: c\<newline>'' @ llm_limit_sentinel @ ''\<newline>''"
    by code_simp
  have e: "stdout (fst (execute demo_mini 5
        ''print(llm_query('a'))\<newline>print(llm_query('b'))\<newline>print(llm_query('c'))\<newline>print(llm_query('d'))''
        (snd (execute demo_mini 5
        ''print(llm_query('a'))\<newline>print(llm_query('b'))\<newline>print(llm_query('c'))\<newline>print(llm_query('d'))''
        demo_env))))
       = ''re: a\<newline>re: b\<newline>re: c\<newline>'' @ llm_limit_sentinel @ ''\<newline>''"
    by code_simp
  show ?thesis
    using a b c d e llm_query_seq_length [of provider ps 0] by blast
qed

theorem llm_query_capped_per_execute_witness:
  "llm_query_seq demo_provider [''p1'', ''p2'', ''p3'', ''p4'', ''p5''] 0
     = [Inr ''re: p1'', Inr ''re: p2'', Inr ''re: p3'', Inr llm_limit_sentinel, Inr llm_limit_sentinel]"
proof -
  let ?ps = "[''p1'', ''p2'', ''p3'', ''p4'', ''p5'']"
  note inst = llm_query_capped_per_execute [of _ _ _ _ _ demo_provider ?ps]
  have len: "length (llm_query_seq demo_provider ?ps 0) = 5"
    using inst by simp
  have nth: "\<And>i. i < 5 \<Longrightarrow> llm_query_seq demo_provider ?ps 0 ! i =
           (if i < 3 then map_sum (\<lambda>e. e) strip (demo_provider (truncate_prompt (?ps ! i)))
            else Inr llm_limit_sentinel)"
    using inst by simp
  have s: "strip '' re: p1 '' = ''re: p1''" "strip '' re: p2 '' = ''re: p2''" "strip '' re: p3 '' = ''re: p3''"
    by code_simp+
  have "llm_query_seq demo_provider ?ps 0 ! 0 = Inr ''re: p1''"
    "llm_query_seq demo_provider ?ps 0 ! 1 = Inr ''re: p2''"
    "llm_query_seq demo_provider ?ps 0 ! 2 = Inr ''re: p3''"
    "llm_query_seq demo_provider ?ps 0 ! 3 = Inr llm_limit_sentinel"
    "llm_query_seq demo_provider ?ps 0 ! 4 = Inr llm_limit_sentinel"
    using nth [of 0] nth [of 1] nth [of 2] nth [of 3] nth [of 4] s
    by (simp_all add: demo_provider_def truncate_prompt_def)
  then show ?thesis
    using len by (intro nth_equalityI) (auto simp: less_Suc_eq numeral_eq_Suc)
qed




section \<open>Imports\<close>

lemma strip_id: "s \<noteq> [] \<Longrightarrow> \<not> py_isspace (hd s) \<Longrightarrow> \<not> py_isspace (last s) \<Longrightarrow> strip s = s"
proof -
  assume s: "s \<noteq> []" and h: "\<not> py_isspace (hd s)" and l: "\<not> py_isspace (last s)"
  have 1: "dropWhile py_isspace s = s"
    using s h by (cases s) simp_all
  have "rev (butlast s @ [last s]) = last s # rev (butlast s)"
    by simp
  then have rs: "rev s = last s # rev (butlast s)"
    using s by simp
  have "dropWhile py_isspace (last s # rev (butlast s)) = last s # rev (butlast s)"
    using l by simp
  then have 2: "dropWhile py_isspace (rev s) = rev s"
    unfolding rs .
  show ?thesis by (simp add: strip_def 1 2)
qed

lemma strip_lead: "py_isspace c \<Longrightarrow> strip (c # s) = strip s"
  by (simp add: strip_def)

lemma split_lines_single: "CHR 0x0A \<notin> set s \<Longrightarrow> split_lines s = [s]"
  by (induction s) (auto simp: split_lines_def)

lemma split_on_Cons:
  "split_on d (c # s) =
     (if c = d then [] # split_on d s else (c # hd (split_on d s)) # tl (split_on d s))"
  by (simp add: split_on_def)

lemma split_on_nonempty: "split_on d s \<noteq> []"
  by (induction s) (simp_all add: split_on_Cons, simp add: split_on_def)

lemma split_on_chars: "c \<in> set s \<Longrightarrow> c \<noteq> d \<Longrightarrow> \<exists>seg \<in> set (split_on d s). c \<in> set seg"
proof (induction s)
  case Nil
  then show ?case by simp
next
  case (Cons x s)
  obtain r rs where r: "split_on d s = r # rs"
    using split_on_nonempty [of d s] by (cases "split_on d s") auto
  show ?case
  proof (cases "c = x")
    case True
    then show ?thesis using Cons.prems(2) r by (simp add: split_on_Cons)
  next
    case False
    then have "c \<in> set s" using Cons.prems(1) by simp
    from Cons.IH [OF this Cons.prems(2)] obtain seg where "seg \<in> set (r # rs)" "c \<in> set seg"
      using r by auto
    then show ?thesis using r by (auto simp: split_on_Cons)
  qed
qed

lemma ident_char_plain:
  "is_ident_char c \<or> c = CHR ''.'' \<Longrightarrow> \<not> py_isspace c \<and> c \<noteq> CHR 0x0A \<and> c \<noteq> CHR '' ''"
  by (auto simp: is_ident_char_def py_isspace_def Let_def)

lemma is_ident_chars: "is_ident s \<Longrightarrow> s \<noteq> [] \<and> (\<forall>c \<in> set s. is_ident_char c)"
  by (auto simp: is_ident_def list_all_iff split: list.splits)

lemma is_dotted_chars:
  assumes "is_dotted m"
  shows "m \<noteq> []" and "\<forall>c \<in> set m. is_ident_char c \<or> c = CHR ''.''"
proof -
  show "m \<noteq> []"
    using assms by (auto simp: is_dotted_def split_on_def is_ident_def)
  show "\<forall>c \<in> set m. is_ident_char c \<or> c = CHR ''.''"
  proof
    fix c assume c: "c \<in> set m"
    show "is_ident_char c \<or> c = CHR ''.''"
    proof (cases "c = CHR ''.''")
      case True
      then show ?thesis by simp
    next
      case False
      from split_on_chars [OF c False] obtain seg where
        seg: "seg \<in> set (split_on (CHR ''.'') m)" "c \<in> set seg" by blast
      then have "is_ident seg" using assms by (simp add: is_dotted_def list_all_iff)
      then show ?thesis using seg(2) is_ident_chars by blast
    qed
  qed
qed

text \<open>A text of identifier characters and dots has no blank in it and is its own \<open>strip\<close>.\<close>

lemma plain_facts:
  assumes "s \<noteq> []" and "\<forall>c \<in> set s. is_ident_char c \<or> c = CHR ''.''"
  shows "\<not> py_isspace (hd s)" and "\<not> py_isspace (last s)" and "CHR 0x0A \<notin> set s"
    and "\<forall>c \<in> set s. c \<noteq> CHR '' ''" and "strip s = s"
proof -
  have p: "\<And>c. c \<in> set s \<Longrightarrow> \<not> py_isspace c \<and> c \<noteq> CHR 0x0A \<and> c \<noteq> CHR '' ''"
    using assms(2) ident_char_plain by blast
  have "hd s \<in> set s" "last s \<in> set s" using assms(1) by simp_all
  then show 1: "\<not> py_isspace (hd s)" and 2: "\<not> py_isspace (last s)" using p by blast+
  show "CHR 0x0A \<notin> set s" using p by blast
  show "\<forall>c \<in> set s. c \<noteq> CHR '' ''" using p by blast
  show "strip s = s" using assms(1) 1 2 by (rule strip_id)
qed

lemma dotted_facts:
  assumes "is_dotted s"
  shows "\<not> py_isspace (hd s)" and "\<not> py_isspace (last s)" and "CHR 0x0A \<notin> set s"
    and "\<forall>c \<in> set s. c \<noteq> CHR '' ''" and "strip s = s"
  using plain_facts [OF is_dotted_chars [OF assms]] by blast+

lemma ident_facts:
  assumes "is_ident s"
  shows "s \<noteq> []" and "\<not> py_isspace (hd s)" and "\<not> py_isspace (last s)" and "CHR 0x0A \<notin> set s"
    and "\<forall>c \<in> set s. c \<noteq> CHR '' ''" and "strip s = s"
proof -
  have 1: "s \<noteq> []" and 2: "\<forall>c \<in> set s. is_ident_char c \<or> c = CHR ''.''"
    using is_ident_chars [OF assms] by blast+
  show "s \<noteq> []" by (rule 1)
  show "\<not> py_isspace (hd s)" "\<not> py_isspace (last s)" "CHR 0x0A \<notin> set s"
    "\<forall>c \<in> set s. c \<noteq> CHR '' ''" "strip s = s"
    using plain_facts [OF 1 2] by blast+
qed

lemma takeWhile_word: "\<forall>c \<in> set m. c \<noteq> CHR '' '' \<Longrightarrow> takeWhile (\<lambda>c. c \<noteq> CHR '' '') (m @ CHR '' '' # r) = m"
  by (induction m) simp_all

lemma dropWhile_word:
  "\<forall>c \<in> set m. c \<noteq> CHR '' '' \<Longrightarrow> dropWhile (\<lambda>c. c \<noteq> CHR '' '') (m @ CHR '' '' # r) = CHR '' '' # r"
  by (induction m) simp_all

lemma takeWhile_all: "\<forall>c \<in> set m. c \<noteq> CHR '' '' \<Longrightarrow> takeWhile (\<lambda>c. c \<noteq> CHR '' '') m = m"
  by (induction m) simp_all

lemma dropWhile_all: "\<forall>c \<in> set m. c \<noteq> CHR '' '' \<Longrightarrow> dropWhile (\<lambda>c. c \<noteq> CHR '' '') m = []"
  by (induction m) simp_all

lemma strip_Nil: "strip [] = []"
  by (simp add: strip_def)

subsection \<open>The three import statements, parsed\<close>

lemma parse_import_stmt:
  assumes "is_dotted m"
  shows "strip (import_stmt m) = import_stmt m"
    and "split_lines (import_stmt m) = [import_stmt m]"
    and "is_import_line (import_stmt m)"
    and "parse_stmt (import_stmt m) = Some (SImport m)"
proof -
  note f = dotted_facts [OF assms] and ne = is_dotted_chars(1) [OF assms]
  have l: "last (import_stmt m) = last m" using ne by (simp add: import_stmt_def)
  show s: "strip (import_stmt m) = import_stmt m"
    using f(2) l by (intro strip_id) (simp_all add: py_isspace_def import_stmt_def)
  show "split_lines (import_stmt m) = [import_stmt m]"
    using f(3) by (intro split_lines_single) (simp add: import_stmt_def)
  have sw: "startswith (import_stmt m) ''import ''"
    by (simp add: import_stmt_def startswith_def)
  show "is_import_line (import_stmt m)"
    unfolding is_import_line_def Let_def s using sw by simp
  have d: "drop 7 (import_stmt m) = m" by (simp add: import_stmt_def)
  have 1: "parse_stmt (import_stmt m) = parse_import (import_stmt m)"
    unfolding parse_stmt_def Let_def s by (simp add: import_stmt_def startswith_def py_isspace_def)
  have 2: "parse_import (import_stmt m) = Some (SImport m)"
    unfolding parse_import_def Let_def d f(5) takeWhile_all [OF f(4)] dropWhile_all [OF f(4)] strip_Nil
    using assms by simp
  show "parse_stmt (import_stmt m) = Some (SImport m)" using 1 2 by simp
qed

lemma parse_import_as_stmt:
  assumes "is_dotted m" and "is_ident n"
  shows "strip (import_as_stmt m n) = import_as_stmt m n"
    and "split_lines (import_as_stmt m n) = [import_as_stmt m n]"
    and "is_import_line (import_as_stmt m n)"
    and "parse_stmt (import_as_stmt m n) = Some (SImportAs m n)"
proof -
  note f = dotted_facts [OF assms(1)] and ne = is_dotted_chars(1) [OF assms(1)]
  note g = ident_facts [OF assms(2)]
  define R where "R = m @ CHR '' '' # (''as '' @ n)"
  define V where "V = ''as '' @ n"
  have l: "last (import_as_stmt m n) = last n" using g(1) by (simp add: import_as_stmt_def)
  show s: "strip (import_as_stmt m n) = import_as_stmt m n"
    using g(3) l by (intro strip_id) (simp_all add: py_isspace_def import_as_stmt_def)
  show "split_lines (import_as_stmt m n) = [import_as_stmt m n]"
    using f(3) g(4) by (intro split_lines_single) (simp add: import_as_stmt_def)
  have sw: "startswith (import_as_stmt m n) ''import ''"
    by (simp add: import_as_stmt_def startswith_def)
  show "is_import_line (import_as_stmt m n)"
    unfolding is_import_line_def Let_def s using sw by simp
  have d: "drop 7 (import_as_stmt m n) = R" by (simp add: import_as_stmt_def R_def)
  have sR: "strip R = R"
  proof (rule strip_id)
    show "R \<noteq> []" by (simp add: R_def)
    show "\<not> py_isspace (hd R)" using f(1) ne by (simp add: R_def)
    show "\<not> py_isspace (last R)" using g(3) g(1) by (simp add: R_def)
  qed
  have tw: "takeWhile (\<lambda>c. c \<noteq> CHR '' '') R = m"
    unfolding R_def using f(4) by (rule takeWhile_word)
  have dw: "dropWhile (\<lambda>c. c \<noteq> CHR '' '') R = CHR '' '' # V"
    unfolding R_def V_def using f(4) by (rule dropWhile_word)
  have sV: "strip V = V"
  proof (rule strip_id)
    show "V \<noteq> []" by (simp add: V_def)
    show "\<not> py_isspace (hd V)" by (simp add: V_def py_isspace_def)
    show "\<not> py_isspace (last V)" using g(3) g(1) by (simp add: V_def)
  qed
  have sW: "strip (CHR '' '' # V) = V"
    using sV by (simp add: strip_lead py_isspace_def)
  have v: "V \<noteq> []" "startswith V ''as ''" "drop 3 V = n"
    by (simp_all add: V_def startswith_def)
  have 1: "parse_stmt (import_as_stmt m n) = parse_import (import_as_stmt m n)"
    unfolding parse_stmt_def Let_def s by (simp add: import_as_stmt_def startswith_def py_isspace_def)
  have 2: "parse_import (import_as_stmt m n) = Some (SImportAs m n)"
    unfolding parse_import_def Let_def d sR tw dw sW v(3) g(6)
    using assms v(1,2) by simp
  show "parse_stmt (import_as_stmt m n) = Some (SImportAs m n)" using 1 2 by simp
qed

lemma parse_from_import_stmt:
  assumes "is_dotted m" and "is_ident x"
  shows "strip (from_import_stmt m x) = from_import_stmt m x"
    and "split_lines (from_import_stmt m x) = [from_import_stmt m x]"
    and "is_import_line (from_import_stmt m x)"
    and "parse_stmt (from_import_stmt m x) = Some (SFromImport m x)"
proof -
  note f = dotted_facts [OF assms(1)] and ne = is_dotted_chars(1) [OF assms(1)]
  note g = ident_facts [OF assms(2)]
  define R where "R = m @ CHR '' '' # (''import '' @ x)"
  define V where "V = ''import '' @ x"
  have l: "last (from_import_stmt m x) = last x" using g(1) by (simp add: from_import_stmt_def)
  show s: "strip (from_import_stmt m x) = from_import_stmt m x"
    using g(3) l by (intro strip_id) (simp_all add: py_isspace_def from_import_stmt_def)
  show "split_lines (from_import_stmt m x) = [from_import_stmt m x]"
    using f(3) g(4) by (intro split_lines_single) (simp add: from_import_stmt_def)
  have sw: "startswith (from_import_stmt m x) ''from ''"
    by (simp add: from_import_stmt_def startswith_def)
  show "is_import_line (from_import_stmt m x)"
    unfolding is_import_line_def Let_def s using sw by simp
  have d: "drop 5 (from_import_stmt m x) = R" by (simp add: from_import_stmt_def R_def)
  have sR: "strip R = R"
  proof (rule strip_id)
    show "R \<noteq> []" by (simp add: R_def)
    show "\<not> py_isspace (hd R)" using f(1) ne by (simp add: R_def)
    show "\<not> py_isspace (last R)" using g(3) g(1) by (simp add: R_def)
  qed
  have tw: "takeWhile (\<lambda>c. c \<noteq> CHR '' '') R = m"
    unfolding R_def using f(4) by (rule takeWhile_word)
  have dw: "dropWhile (\<lambda>c. c \<noteq> CHR '' '') R = CHR '' '' # V"
    unfolding R_def V_def using f(4) by (rule dropWhile_word)
  have sV: "strip V = V"
  proof (rule strip_id)
    show "V \<noteq> []" by (simp add: V_def)
    show "\<not> py_isspace (hd V)" by (simp add: V_def py_isspace_def)
    show "\<not> py_isspace (last V)" using g(3) g(1) by (simp add: V_def)
  qed
  have sW: "strip (CHR '' '' # V) = V"
    using sV by (simp add: strip_lead py_isspace_def)
  have v: "startswith V ''import ''" "drop 7 V = x"
    by (simp_all add: V_def startswith_def)
  have 1: "parse_stmt (from_import_stmt m x) = parse_from (from_import_stmt m x)"
    unfolding parse_stmt_def Let_def s by (simp add: from_import_stmt_def startswith_def py_isspace_def)
  have 2: "parse_from (from_import_stmt m x) = Some (SFromImport m x)"
    unfolding parse_from_def Let_def d sR tw dw sW v(2) g(6)
    using assms v(1) by simp
  show "parse_stmt (from_import_stmt m x) = Some (SFromImport m x)" using 1 2 by simp
qed

subsection \<open>One statement, run\<close>

lemma mini_exec_single:
  assumes "split_lines src = [src]" and "parse_stmt src = Some s"
  shows "mini_exec provider H src ns calls =
     (case exec_stmt provider H (builtins_of ns) s
             \<lparr>m_ns = (if map_of ns ''__builtins__'' = None
                      then ns @ [(''__builtins__'', PyBuiltins FullBuiltins)] else ns),
              m_out = [], m_calls = calls\<rparr> of
        (e, st) \<Rightarrow> \<lparr>ns_out = m_ns st, printed = m_out st, printed_err = [],
                     llm_calls_out = m_calls st, raised = e\<rparr>)"
  using assms by (simp add: mini_exec_def split: prod.splits option.splits)

lemma exec_import_refused:
  assumes "imported s = Some m" and "m \<notin> set ALLOWED_MODULES"
  shows "exec_stmt provider H (Some SafeBuiltins) s st
     = (Some (ImportError (not_allowed_message (allowed_order H) m)), st)"
  using assms by (cases s) (simp_all add: import_hook_def restricted_import_def)

lemma exec_stmts_refused:
  assumes "\<exists>s \<in> set ss. \<exists>m. imported s = Some m \<and> m \<notin> set ALLOWED_MODULES"
  shows "fst (exec_stmts provider H (Some SafeBuiltins) ss st) \<noteq> None"
  using assms
proof (induction ss arbitrary: st)
  case Nil
  then show ?case by simp
next
  case (Cons s ss)
  obtain e st1 where r: "exec_stmt provider H (Some SafeBuiltins) s st = (e, st1)"
    by (cases "exec_stmt provider H (Some SafeBuiltins) s st") auto
  show ?case
  proof (cases e)
    case (Some err)
    then show ?thesis using r by simp
  next
    case None
    have "\<not> (\<exists>m. imported s = Some m \<and> m \<notin> set ALLOWED_MODULES)"
    proof
      assume "\<exists>m. imported s = Some m \<and> m \<notin> set ALLOWED_MODULES"
      then obtain m where "imported s = Some m" "m \<notin> set ALLOWED_MODULES" by blast
      from exec_import_refused [OF this, of provider H st] show False
        using r None by simp
    qed
    then have "\<exists>s \<in> set ss. \<exists>m. imported s = Some m \<and> m \<notin> set ALLOWED_MODULES"
      using Cons.prems by auto
    from Cons.IH [OF this, of st1] show ?thesis using r None by simp
  qed
qed

lemma rubric_builtins: "builtins_of (rubric_namespace tr sm) = Some SafeBuiltins"
  "map_of (rubric_namespace tr sm) ''__builtins__'' = Some (PyBuiltins SafeBuiltins)"
  by (simp_all add: builtins_of_def rubric_namespace_def)

lemma execute_rubric_success:
  "rr_success (execute_rubric I tr ev sm src) = (raised (py_exec I src (rubric_namespace tr sm) 0) = None)"
  by (simp add: execute_rubric_def Let_def)

lemma execute_rubric_stderr:
  "raised (py_exec I src (rubric_namespace tr sm) 0) = Some e \<Longrightarrow>
   rr_stderr (execute_rubric I tr ev sm src) = format_exc I e"
  by (simp add: execute_rubric_def Let_def)

lemma rubric_program_refused:
  assumes "parse_all (split_lines src) = Some ss"
    and "\<exists>s \<in> set ss. \<exists>m. imported s = Some m \<and> m \<notin> set ALLOWED_MODULES"
  shows "\<not> rr_success (execute_rubric (mini provider H) tr ev sm src)"
proof -
  let ?st = "\<lparr>m_ns = rubric_namespace tr sm, m_out = [], m_calls = 0\<rparr>"
  obtain e st where r: "exec_stmts provider H (Some SafeBuiltins) ss ?st = (e, st)"
    by (cases "exec_stmts provider H (Some SafeBuiltins) ss ?st") auto
  have "fst (exec_stmts provider H (Some SafeBuiltins) ss ?st) \<noteq> None"
    using assms(2) by (rule exec_stmts_refused)
  then have "e \<noteq> None" using r by simp
  then show ?thesis
    using assms(1) r
    by (simp add: execute_rubric_success mini_def mini_exec_def rubric_builtins)
qed

lemma rubric_line_refused:
  assumes "split_lines src = [src]" and "parse_stmt src = Some s"
    and "imported s = Some m" and "m \<notin> set ALLOWED_MODULES"
  shows "\<not> rr_success (execute_rubric (mini provider H) tr ev sm src)"
    and "rr_stderr (execute_rubric (mini provider H) tr ev sm src)
          = format_exc (mini provider H) (ImportError (not_allowed_message (allowed_order H) m))"
proof -
  have r: "raised (py_exec (mini provider H) src (rubric_namespace tr sm) 0)
      = Some (ImportError (not_allowed_message (allowed_order H) m))"
    by (simp add: mini_def mini_exec_single [OF assms(1,2)] rubric_builtins
        exec_import_refused [OF assms(3,4)])
  show "\<not> rr_success (execute_rubric (mini provider H) tr ev sm src)"
    using r by (simp add: execute_rubric_success)
  show "rr_stderr (execute_rubric (mini provider H) tr ev sm src)
          = format_exc (mini provider H) (ImportError (not_allowed_message (allowed_order H) m))"
    using r by (rule execute_rubric_stderr)
qed

lemma allowed_facts:
  assumes "m \<in> set ALLOWED_MODULES"
  shows "is_dotted m" and "top_package m = m"
proof -
  have "list_all (\<lambda>m. is_dotted m \<and> top_package m = m) ALLOWED_MODULES"
    by code_simp
  then show "is_dotted m" "top_package m = m"
    using assms by (auto simp: list_all_iff)
qed

lemma rubric_import_allowed:
  assumes "m \<in> set ALLOWED_MODULES" and "m \<in> set (modules H)"
  shows "rr_success (execute_rubric (mini provider H) tr ev sm (import_stmt m))"
proof -
  note p = parse_import_stmt [OF allowed_facts(1) [OF assms(1)]]
  have "import_hook H (Some SafeBuiltins) m = Inr (PyModule m)"
    using assms by (simp add: import_hook_def restricted_import_def real_import_def)
  then show ?thesis
    by (simp add: execute_rubric_success mini_def mini_exec_single [OF p(2) p(4)] rubric_builtins)
qed

lemma rubric_from_import_allowed:
  assumes "m \<in> set ALLOWED_MODULES" and "m \<in> set (modules H)" and "is_ident x"
    and "module_attr H m x = Inr a"
  shows "rr_success (execute_rubric (mini provider H) tr ev sm (from_import_stmt m x))"
    and "map_of (ns_out (py_exec (mini provider H) (from_import_stmt m x) (rubric_namespace tr sm) 0)) x
          = Some a"
proof -
  note p = parse_from_import_stmt [OF allowed_facts(1) [OF assms(1)] assms(3)]
  have h: "import_hook H (Some SafeBuiltins) m = Inr (PyModule m)"
    using assms by (simp add: import_hook_def restricted_import_def real_import_def)
  show "rr_success (execute_rubric (mini provider H) tr ev sm (from_import_stmt m x))"
    using h assms(4)
    by (simp add: execute_rubric_success mini_def mini_exec_single [OF p(2) p(4)] rubric_builtins)
  show "map_of (ns_out (py_exec (mini provider H) (from_import_stmt m x) (rubric_namespace tr sm) 0)) x
          = Some a"
    using h assms(4)
    by (simp add: mini_def mini_exec_single [OF p(2) p(4)] rubric_builtins map_of_dict_set)
qed

subsection \<open>The transcript sandbox\<close>

lemma transcript_import_line:
  assumes "strip src = src" and "split_lines src = [src]" and "is_import_line src"
    and "parse_stmt src = Some s"
    and "exec_stmt provider H (Some FullBuiltins) s
           \<lparr>m_ns = globals (REPLEnv_init c p), m_out = [], m_calls = 0\<rparr>
         = (None, \<lparr>m_ns = g, m_out = [], m_calls = 0\<rparr>)"
  shows "execute (mini provider H) el src (REPLEnv_init c p) =
     (\<lparr>stdout = [], stderr = [],
       locals_snapshot = safe_snapshot (mini provider H) (locals (REPLEnv_init c p)),
       execution_time_ms = py_round el 1, success = True\<rparr>,
      \<lparr>globals = g, locals = locals (REPLEnv_init c p), llm_call_count = 0\<rparr>)"
proof -
  have b: "builtins_of (globals (REPLEnv_init c p)) = Some FullBuiltins"
    "map_of (globals (REPLEnv_init c p)) ''__builtins__'' = Some (PyBuiltins FullBuiltins)"
    by (simp_all add: REPLEnv_init_def builtins_of_def)
  have lines: "import_lines src = [src]" "other_lines src = []"
    using assms(3) by (simp_all add: import_lines_def other_lines_def assms(1) assms(2))
  have r: "run_imports (mini provider H) src ((REPLEnv_init c p)\<lparr>llm_call_count := 0\<rparr>)
      = \<lparr>ns_out = g, printed = [], printed_err = [], llm_calls_out = 0, raised = None\<rparr>"
    using b assms(5) by (simp add: run_imports_def lines mini_def mini_exec_single [OF assms(2,4)])
  show ?thesis
    by (simp add: execute_def r lines Let_def)
qed

lemma transcript_imports:
  assumes "is_dotted m" and "m \<in> set (modules H)"
  shows "success (fst (execute (mini provider H) el (import_stmt m) (REPLEnv_init c p)))"
    and "map_of (globals (snd (execute (mini provider H) el (import_stmt m) (REPLEnv_init c p))))
           (top_package m) = Some (PyModule (top_package m))"
    and "is_ident x \<Longrightarrow>
         success (fst (execute (mini provider H) el (import_as_stmt m x) (REPLEnv_init c p)))
         \<and> map_of (globals (snd (execute (mini provider H) el (import_as_stmt m x) (REPLEnv_init c p)))) x
             = Some (PyModule m)"
    and "is_ident x \<Longrightarrow> module_attr H m x = Inr a \<Longrightarrow>
         success (fst (execute (mini provider H) el (from_import_stmt m x) (REPLEnv_init c p)))
         \<and> map_of (globals (snd (execute (mini provider H) el (from_import_stmt m x) (REPLEnv_init c p)))) x
             = Some a"
proof -
  have h: "import_hook H (Some FullBuiltins) m = Inr (PyModule m)"
    using assms(2) by (simp add: import_hook_def real_import_def)
  note p = parse_import_stmt [OF assms(1)]
  have e1: "exec_stmt provider H (Some FullBuiltins) (SImport m)
           \<lparr>m_ns = globals (REPLEnv_init c p), m_out = [], m_calls = 0\<rparr>
         = (None, \<lparr>m_ns = dict_set (top_package m) (PyModule (top_package m)) (globals (REPLEnv_init c p)),
                   m_out = [], m_calls = 0\<rparr>)"
    using h by simp
  note t1 = transcript_import_line [OF p(1) p(2) p(3) p(4) e1]
  show "success (fst (execute (mini provider H) el (import_stmt m) (REPLEnv_init c p)))"
    by (simp add: t1)
  show "map_of (globals (snd (execute (mini provider H) el (import_stmt m) (REPLEnv_init c p))))
           (top_package m) = Some (PyModule (top_package m))"
    by (simp add: t1 map_of_dict_set)
  show "success (fst (execute (mini provider H) el (import_as_stmt m x) (REPLEnv_init c p)))
         \<and> map_of (globals (snd (execute (mini provider H) el (import_as_stmt m x) (REPLEnv_init c p)))) x
             = Some (PyModule m)" if x: "is_ident x"
  proof -
    note q = parse_import_as_stmt [OF assms(1) x]
    have e2: "exec_stmt provider H (Some FullBuiltins) (SImportAs m x)
           \<lparr>m_ns = globals (REPLEnv_init c p), m_out = [], m_calls = 0\<rparr>
         = (None, \<lparr>m_ns = dict_set x (PyModule m) (globals (REPLEnv_init c p)), m_out = [], m_calls = 0\<rparr>)"
      using h by simp
    note t2 = transcript_import_line [OF q(1) q(2) q(3) q(4) e2]
    show ?thesis by (simp add: t2 map_of_dict_set)
  qed
  show "success (fst (execute (mini provider H) el (from_import_stmt m x) (REPLEnv_init c p)))
         \<and> map_of (globals (snd (execute (mini provider H) el (from_import_stmt m x) (REPLEnv_init c p)))) x
             = Some a" if x: "is_ident x" and a: "module_attr H m x = Inr a"
  proof -
    note q = parse_from_import_stmt [OF assms(1) x]
    have e3: "exec_stmt provider H (Some FullBuiltins) (SFromImport m x)
           \<lparr>m_ns = globals (REPLEnv_init c p), m_out = [], m_calls = 0\<rparr>
         = (None, \<lparr>m_ns = dict_set x a (globals (REPLEnv_init c p)), m_out = [], m_calls = 0\<rparr>)"
      using h a by simp
    note t3 = transcript_import_line [OF q(1) q(2) q(3) q(4) e3]
    show ?thesis by (simp add: t3 map_of_dict_set)
  qed
qed

text \<open>
  Claim C1 (amended). \<open>_restricted_import\<close> of the rubric sandbox raises an \<open>ImportError\<close>
  ("Import of ... is not allowed. Allowed: ...") for every name outside the allowlist and
  hands every allowlisted name to the real import; the name it tests is the module name
  written in the import statement. So in the rubric sandbox, run with the interpreter
  \<open>mini\<close>: a program with an import statement, of any of the three forms, whose module name
  is outside the allowlist does not succeed; the one-line programs \<open>import m\<close>,
  \<open>import m as x\<close> and \<open>from m import x\<close> with such a name \<open>m\<close> fail with that error on stderr;
  \<open>import m\<close> succeeds for every allowlisted module that the host can import; and
  \<open>from m import x\<close> with an allowlisted \<open>m\<close> succeeds and binds \<open>x\<close> to whatever \<open>m\<close> has
  under that name, a module outside the allowlist included (\<open>from collections import abc\<close>
  binds \<open>collections.abc\<close>). The transcript sandbox has no allowlist: there the three forms
  succeed for every module the host can import, and bind it in the session globals.
\<close>

theorem import_allowlist_by_variant:
  "(name \<notin> set ALLOWED_MODULES \<longrightarrow>
        restricted_import order imp name = Inl (ImportError (not_allowed_message order name)))
   \<and> (name \<in> set ALLOWED_MODULES \<longrightarrow> restricted_import order imp name = imp name)
   \<and> (parse_all (split_lines src) = Some ss
        \<and> (\<exists>s \<in> set ss. \<exists>n. imported s = Some n \<and> n \<notin> set ALLOWED_MODULES) \<longrightarrow>
        \<not> rr_success (execute_rubric (mini provider H) tr ev sm src))
   \<and> (is_dotted m \<and> m \<notin> set ALLOWED_MODULES \<and> is_ident x \<longrightarrow>
        (\<forall>line \<in> {import_stmt m, import_as_stmt m x, from_import_stmt m x}.
           \<not> rr_success (execute_rubric (mini provider H) tr ev sm line)
           \<and> rr_stderr (execute_rubric (mini provider H) tr ev sm line)
               = format_exc (mini provider H) (ImportError (not_allowed_message (allowed_order H) m))))
   \<and> (m \<in> set ALLOWED_MODULES \<and> m \<in> set (modules H) \<longrightarrow>
        rr_success (execute_rubric (mini provider H) tr ev sm (import_stmt m)))
   \<and> (m \<in> set ALLOWED_MODULES \<and> m \<in> set (modules H) \<and> is_ident x \<and> module_attr H m x = Inr a \<longrightarrow>
        rr_success (execute_rubric (mini provider H) tr ev sm (from_import_stmt m x))
        \<and> map_of (ns_out (py_exec (mini provider H) (from_import_stmt m x) (rubric_namespace tr sm) 0)) x
            = Some a)
   \<and> (is_dotted m \<and> m \<in> set (modules H) \<longrightarrow>
        success (fst (execute (mini provider H) el (import_stmt m) (REPLEnv_init c p)))
        \<and> map_of (globals (snd (execute (mini provider H) el (import_stmt m) (REPLEnv_init c p))))
             (top_package m) = Some (PyModule (top_package m)))
   \<and> (is_dotted m \<and> m \<in> set (modules H) \<and> is_ident x \<longrightarrow>
        success (fst (execute (mini provider H) el (import_as_stmt m x) (REPLEnv_init c p)))
        \<and> map_of (globals (snd (execute (mini provider H) el (import_as_stmt m x) (REPLEnv_init c p)))) x
             = Some (PyModule m))
   \<and> (is_dotted m \<and> m \<in> set (modules H) \<and> is_ident x \<and> module_attr H m x = Inr a \<longrightarrow>
        success (fst (execute (mini provider H) el (from_import_stmt m x) (REPLEnv_init c p)))
        \<and> map_of (globals (snd (execute (mini provider H) el (from_import_stmt m x) (REPLEnv_init c p)))) x
             = Some a)
   \<and> \<not> rr_success (execute_rubric demo_mini [] [] [] ''import os'')
   \<and> rr_success (execute_rubric demo_mini [] [] [] ''import re'')
   \<and> map_of (ns_out (py_exec demo_mini ''from collections import abc'' (rubric_namespace [] []) 0)) ''abc''
        = Some (PyModule ''collections.abc'')
   \<and> ''collections.abc'' \<notin> set ALLOWED_MODULES"
proof -
  have a: "name \<notin> set ALLOWED_MODULES \<longrightarrow>
        restricted_import order imp name = Inl (ImportError (not_allowed_message order name))"
    and b: "name \<in> set ALLOWED_MODULES \<longrightarrow> restricted_import order imp name = imp name"
    by (simp_all add: restricted_import_def)
  have c: "parse_all (split_lines src) = Some ss
        \<and> (\<exists>s \<in> set ss. \<exists>n. imported s = Some n \<and> n \<notin> set ALLOWED_MODULES) \<longrightarrow>
        \<not> rr_success (execute_rubric (mini provider H) tr ev sm src)"
    using rubric_program_refused by blast
  have d: "is_dotted m \<and> m \<notin> set ALLOWED_MODULES \<and> is_ident x \<longrightarrow>
        (\<forall>line \<in> {import_stmt m, import_as_stmt m x, from_import_stmt m x}.
           \<not> rr_success (execute_rubric (mini provider H) tr ev sm line)
           \<and> rr_stderr (execute_rubric (mini provider H) tr ev sm line)
               = format_exc (mini provider H) (ImportError (not_allowed_message (allowed_order H) m)))"
  proof
    assume h: "is_dotted m \<and> m \<notin> set ALLOWED_MODULES \<and> is_ident x"
    then have dm: "is_dotted m" and na: "m \<notin> set ALLOWED_MODULES" and ix: "is_ident x" by blast+
    note p1 = parse_import_stmt [OF dm]
    note p2 = parse_import_as_stmt [OF dm ix]
    note p3 = parse_from_import_stmt [OF dm ix]
    have i1: "imported (SImport m) = Some m" and i2: "imported (SImportAs m x) = Some m"
      and i3: "imported (SFromImport m x) = Some m" by simp_all
    note r1 = rubric_line_refused [OF p1(2) p1(4) i1 na, of provider H tr ev sm]
    note r2 = rubric_line_refused [OF p2(2) p2(4) i2 na, of provider H tr ev sm]
    note r3 = rubric_line_refused [OF p3(2) p3(4) i3 na, of provider H tr ev sm]
    show "\<forall>line \<in> {import_stmt m, import_as_stmt m x, from_import_stmt m x}.
           \<not> rr_success (execute_rubric (mini provider H) tr ev sm line)
           \<and> rr_stderr (execute_rubric (mini provider H) tr ev sm line)
               = format_exc (mini provider H) (ImportError (not_allowed_message (allowed_order H) m))"
      using r1 r2 r3 by blast
  qed
  have e: "m \<in> set ALLOWED_MODULES \<and> m \<in> set (modules H) \<longrightarrow>
        rr_success (execute_rubric (mini provider H) tr ev sm (import_stmt m))"
    using rubric_import_allowed by blast
  have f: "m \<in> set ALLOWED_MODULES \<and> m \<in> set (modules H) \<and> is_ident x \<and> module_attr H m x = Inr a \<longrightarrow>
        rr_success (execute_rubric (mini provider H) tr ev sm (from_import_stmt m x))
        \<and> map_of (ns_out (py_exec (mini provider H) (from_import_stmt m x) (rubric_namespace tr sm) 0)) x
            = Some a"
    using rubric_from_import_allowed by blast
  have g: "is_dotted m \<and> m \<in> set (modules H) \<longrightarrow>
        success (fst (execute (mini provider H) el (import_stmt m) (REPLEnv_init c p)))
        \<and> map_of (globals (snd (execute (mini provider H) el (import_stmt m) (REPLEnv_init c p))))
             (top_package m) = Some (PyModule (top_package m))"
    using transcript_imports(1,2) by blast
  have h: "is_dotted m \<and> m \<in> set (modules H) \<and> is_ident x \<longrightarrow>
        success (fst (execute (mini provider H) el (import_as_stmt m x) (REPLEnv_init c p)))
        \<and> map_of (globals (snd (execute (mini provider H) el (import_as_stmt m x) (REPLEnv_init c p)))) x
             = Some (PyModule m)"
    using transcript_imports(3) by blast
  have i: "is_dotted m \<and> m \<in> set (modules H) \<and> is_ident x \<and> module_attr H m x = Inr a \<longrightarrow>
        success (fst (execute (mini provider H) el (from_import_stmt m x) (REPLEnv_init c p)))
        \<and> map_of (globals (snd (execute (mini provider H) el (from_import_stmt m x) (REPLEnv_init c p)))) x
             = Some a"
    using transcript_imports(4) by blast
  have j: "\<not> rr_success (execute_rubric demo_mini [] [] [] ''import os'')"
    "rr_success (execute_rubric demo_mini [] [] [] ''import re'')"
    "map_of (ns_out (py_exec demo_mini ''from collections import abc'' (rubric_namespace [] []) 0)) ''abc''
        = Some (PyModule ''collections.abc'')"
    "''collections.abc'' \<notin> set ALLOWED_MODULES"
    by code_simp+
  show ?thesis using a b c d e f g h i j by blast
qed

text \<open>
  On the sample host: \<open>sys\<close> is refused by the hook and \<open>re\<close> handed on; a three-line program
  with \<open>import os\<close> in the middle fails; the three forms with \<open>os\<close> fail with the error of the
  hook; \<open>import collections\<close> and \<open>from collections import abc\<close> succeed; and the transcript
  sandbox imports \<open>os\<close> in all three forms.
\<close>

theorem import_allowlist_by_variant_witness:
  "restricted_import ALLOWED_MODULES (real_import stdlib_host) ''sys''
      = Inl (ImportError (not_allowed_message ALLOWED_MODULES ''sys''))
   \<and> restricted_import ALLOWED_MODULES (real_import stdlib_host) ''re'' = Inr (PyModule ''re'')
   \<and> \<not> rr_success (execute_rubric demo_mini [] [] [] ''x = 1\<newline>import os\<newline>print(x)'')
   \<and> rr_stderr (execute_rubric demo_mini [] [] [] ''import os'')
      = format_exc demo_mini (ImportError (not_allowed_message ALLOWED_MODULES ''os''))
   \<and> rr_stderr (execute_rubric demo_mini [] [] [] ''import os as path'')
      = format_exc demo_mini (ImportError (not_allowed_message ALLOWED_MODULES ''os''))
   \<and> rr_stderr (execute_rubric demo_mini [] [] [] ''from os import path'')
      = format_exc demo_mini (ImportError (not_allowed_message ALLOWED_MODULES ''os''))
   \<and> rr_success (execute_rubric demo_mini [] [] [] ''import collections'')
   \<and> rr_success (execute_rubric demo_mini [] [] [] ''from collections import abc'')
   \<and> map_of (globals (snd (execute demo_mini 5 ''import os'' demo_env))) ''os'' = Some (PyModule ''os'')
   \<and> map_of (globals (snd (execute demo_mini 5 ''import os as path'' demo_env))) ''path''
      = Some (PyModule ''os'')
   \<and> map_of (globals (snd (execute demo_mini 5 ''from os import path'' demo_env))) ''path''
      = Some (PyModule ''posixpath'')"
proof -
  let ?src = "''x = 1\<newline>import os\<newline>print(x)''"
  let ?ss = "[SAssign ''x'' (EInt 1), SImport ''os'', SPrint (EVar ''x'')]"
  have os: "is_dotted ''os''" "''os'' \<notin> set ALLOWED_MODULES" "''os'' \<in> set (modules stdlib_host)"
    "is_ident ''path''" "top_package ''os'' = ''os''"
    "module_attr stdlib_host ''os'' ''path'' = Inr (PyModule ''posixpath'')"
    by code_simp+
  have co: "''collections'' \<in> set ALLOWED_MODULES" "''collections'' \<in> set (modules stdlib_host)"
    "is_ident ''abc''" "module_attr stdlib_host ''collections'' ''abc'' = Inr (PyModule ''collections.abc'')"
    by code_simp+
  have nm: "''sys'' \<notin> set ALLOWED_MODULES" "''re'' \<in> set ALLOWED_MODULES"
    "real_import stdlib_host ''re'' = Inr (PyModule ''re'')" "allowed_order stdlib_host = ALLOWED_MODULES"
    by code_simp+
  have ps: "parse_all (split_lines ?src) = Some ?ss"
    by code_simp
  have bad: "\<exists>s \<in> set ?ss. \<exists>n. imported s = Some n \<and> n \<notin> set ALLOWED_MODULES"
    using os(2) by simp
  have lines: "import_stmt ''os'' = ''import os''" "import_as_stmt ''os'' ''path'' = ''import os as path''"
    "from_import_stmt ''os'' ''path'' = ''from os import path''"
    "import_stmt ''collections'' = ''import collections''"
    "from_import_stmt ''collections'' ''abc'' = ''from collections import abc''"
    by (simp_all add: import_stmt_def import_as_stmt_def from_import_stmt_def)
  note i1 = import_allowlist_by_variant
    [of "''sys''" ALLOWED_MODULES "real_import stdlib_host" ?src ?ss demo_provider stdlib_host "[]" "[]" "[]"
        "''os''" "''path''" "PyModule ''posixpath''" 5 "''hello''" "''/tmp/context.txt''"]
  note i2 = import_allowlist_by_variant
    [of "''re''" ALLOWED_MODULES "real_import stdlib_host" ?src ?ss demo_provider stdlib_host "[]" "[]" "[]"
        "''collections''" "''abc''" "PyModule ''collections.abc''" 5 "''hello''" "''/tmp/context.txt''"]
  have 1: "restricted_import ALLOWED_MODULES (real_import stdlib_host) ''sys''
      = Inl (ImportError (not_allowed_message ALLOWED_MODULES ''sys''))"
    using i1 nm(1) by blast
  have 2: "restricted_import ALLOWED_MODULES (real_import stdlib_host) ''re'' = Inr (PyModule ''re'')"
    using i2 nm(2,3) by simp
  have 3: "\<not> rr_success (execute_rubric demo_mini [] [] [] ?src)"
    unfolding demo_mini_def using i1 ps bad by blast
  have 4: "\<forall>line \<in> {import_stmt ''os'', import_as_stmt ''os'' ''path'', from_import_stmt ''os'' ''path''}.
      rr_stderr (execute_rubric demo_mini [] [] [] line)
        = format_exc demo_mini (ImportError (not_allowed_message ALLOWED_MODULES ''os''))"
    unfolding demo_mini_def using i1 os(1,2,4) nm(4) by simp
  have 5: "rr_success (execute_rubric demo_mini [] [] [] (import_stmt ''collections''))"
    "rr_success (execute_rubric demo_mini [] [] [] (from_import_stmt ''collections'' ''abc''))"
    unfolding demo_mini_def using i2 co by blast+
  have 6: "map_of (globals (snd (execute demo_mini 5 (import_stmt ''os'') demo_env))) (top_package ''os'')
        = Some (PyModule (top_package ''os''))"
    "map_of (globals (snd (execute demo_mini 5 (import_as_stmt ''os'' ''path'') demo_env))) ''path''
        = Some (PyModule ''os'')"
    "map_of (globals (snd (execute demo_mini 5 (from_import_stmt ''os'' ''path'') demo_env))) ''path''
        = Some (PyModule ''posixpath'')"
    unfolding demo_mini_def demo_env_def using i1 os by blast+
  show ?thesis
    using 1 2 3 4 5 6 unfolding lines os(5) by simp
qed

text \<open>
  Claim C1 as stated fails for the transcript sandbox: \<open>os\<close> is outside the allowlist, and
  \<open>import os\<close> succeeds there, with nothing on stderr and \<open>os\<close> bound in the session globals.
\<close>

theorem transcript_import_os_counterexample:
  "''os'' \<notin> set ALLOWED_MODULES
   \<and> success (fst (execute demo_mini 5 ''import os'' demo_env))
   \<and> stderr (fst (execute demo_mini 5 ''import os'' demo_env)) = []
   \<and> map_of (globals (snd (execute demo_mini 5 ''import os'' demo_env))) ''os'' = Some (PyModule ''os'')"
  by code_simp

end
